(* ===== verification/GoNet.thy ===== *)
theory GoNet
  imports Prelude
begin

unbundle bit_operations_syntax

text \<open>
  The part of Go's packages \<open>net\<close> and \<open>net/netip\<close> that the program calls: textual
  parsing of IPv4 and IPv6 addresses (\<open>net.ParseIP\<close>), of networks (\<open>net.ParseCIDR\<close>),
  the accessors \<open>To4\<close>/\<open>To16\<close>, masking, membership (\<open>IPNet.Contains\<close>) and the
  canonical printers (\<open>IP.String\<close>, \<open>IPNet.String\<close>). An address is its byte list
  (\<open>net.IP\<close> is a byte slice); \<open>nil\<close> is \<open>None\<close>.
\<close>

type_synonym IP = "byte list"

record IPNet =
  net_ip :: IP
  net_mask :: "byte list"

section \<open>Definitions\<close>

subsection \<open>Parsing dotted and colon notation\<close>

text \<open>\<open>netip.parseIPv4Fields\<close>: the arguments after the text are the byte before the
  current one, the value and number of digits of the current octet, and the octets so far.\<close>

fun parseIPv4Fields :: "string \<Rightarrow> char option \<Rightarrow> nat \<Rightarrow> nat \<Rightarrow> byte list \<Rightarrow> byte list option" where
  "parseIPv4Fields [] prev val digLen octets =
     (if length octets < 3 then None else Some (octets @ [of_nat val]))"
| "parseIPv4Fields (c # cs) prev val digLen octets =
     (if is_digit c then
        if digLen = 1 \<and> val = 0 then None
        else if 255 < val * 10 + digit_val c then None
        else parseIPv4Fields cs (Some c) (val * 10 + digit_val c) (Suc digLen) octets
      else if c = CHR ''.'' then
        if prev = None \<or> cs = [] \<or> prev = Some CHR ''.'' then None
        else if length octets = 3 then None
        else parseIPv4Fields cs (Some c) 0 0 (octets @ [of_nat val])
      else None)"

definition parseIPv4 :: "string \<Rightarrow> byte list option" where
  "parseIPv4 s = parseIPv4Fields s None 0 0 []"

definition hex_val :: "char \<Rightarrow> nat option" where
  "hex_val c = (let n = (of_char c :: nat) in
     if 48 \<le> n \<and> n \<le> 57 then Some (n - 48)
     else if 97 \<le> n \<and> n \<le> 102 then Some (n - 97 + 10)
     else if 65 \<le> n \<and> n \<le> 70 then Some (n - 65 + 10)
     else None)"

text \<open>The hexadecimal group at the front of a text: the number of its digits, its value and
  the rest. A fifth digit is an error (\<open>None\<close>).\<close>

fun scan_hex :: "string \<Rightarrow> nat \<Rightarrow> nat \<Rightarrow> (nat \<times> nat \<times> string) option" where
  "scan_hex [] off acc = Some (off, acc, [])"
| "scan_hex (c # cs) off acc =
     (case hex_val c of
        None \<Rightarrow> Some (off, acc, c # cs)
      | Some d \<Rightarrow> if 3 < off then None
                  else if 65535 < acc * 16 + d then None
                  else scan_hex cs (Suc off) (acc * 16 + d))"

text \<open>
  The loop of \<open>netip.parseIPv6\<close>: the remaining text, the bytes written so far (their
  number is the loop's \<open>i\<close>) and the position of the ellipsis. It returns the same three
  after the loop.
\<close>

function parseIPv6_loop :: "string \<Rightarrow> byte list \<Rightarrow> nat option \<Rightarrow> (string \<times> byte list \<times> nat option) option" where
  "parseIPv6_loop s ip ellipsis =
     (if \<not> length ip < 16 then Some (s, ip, ellipsis)
      else case scan_hex s 0 0 of
        None \<Rightarrow> None
      | Some (off, acc, rest) \<Rightarrow>
          if off = 0 then None
          else if rest \<noteq> [] \<and> hd rest = CHR ''.'' then
            if ellipsis = None \<and> length ip \<noteq> 12 then None
            else if 16 < length ip + 4 then None
            else (case parseIPv4Fields s None 0 0 [] of
                    None \<Rightarrow> None
                  | Some v4 \<Rightarrow> Some ([], ip @ v4, ellipsis))
          else
            let ip' = ip @ [of_nat (acc div 256), of_nat acc] in
            if rest = [] then Some ([], ip', ellipsis)
            else if hd rest \<noteq> CHR '':'' then None
            else if tl rest = [] then None
            else if hd (tl rest) = CHR '':'' then
              if ellipsis \<noteq> None then None
              else if tl (tl rest) = [] then Some ([], ip', Some (length ip'))
              else parseIPv6_loop (tl (tl rest)) ip' (Some (length ip'))
            else parseIPv6_loop (tl rest) ip' ellipsis)"
  by pat_completeness auto
termination
  by (relation "measure (\<lambda>(s, ip, e). 16 - length ip)") auto

declare parseIPv6_loop.simps [simp del]

definition parseIPv6_finish :: "(string \<times> byte list \<times> nat option) option \<Rightarrow> byte list option" where
  "parseIPv6_finish r =
     (case r of
        None \<Rightarrow> None
      | Some (s, ip, ellipsis) \<Rightarrow>
          if s \<noteq> [] then None
          else if length ip < 16 then
            (case ellipsis of
               None \<Rightarrow> None
             | Some e \<Rightarrow> Some (take e ip @ replicate (16 - length ip) 0 @ drop e ip))
          else if ellipsis \<noteq> None then None
          else Some ip)"

text \<open>\<open>netip.parseIPv6\<close> for the callers in \<open>net\<close>, which reject every zone.\<close>

definition parseIPv6 :: "string \<Rightarrow> byte list option" where
  "parseIPv6 s =
     (if CHR ''%'' \<in> set s then None
      else if take 2 s = ''::'' then
        if drop 2 s = [] then Some (replicate 16 0)
        else parseIPv6_finish (parseIPv6_loop (drop 2 s) [] (Some 0))
      else parseIPv6_finish (parseIPv6_loop s [] None))"

text \<open>\<open>netip.ParseAddr\<close>: 4 bytes for dotted text, 16 bytes for colon text.\<close>

fun parseAddr_scan :: "string \<Rightarrow> string \<Rightarrow> byte list option" where
  "parseAddr_scan s [] = None"
| "parseAddr_scan s (c # cs) =
     (if c = CHR ''.'' then parseIPv4 s
      else if c = CHR '':'' then parseIPv6 s
      else if c = CHR ''%'' then None
      else parseAddr_scan s cs)"

definition ParseAddr :: "string \<Rightarrow> byte list option" where
  "ParseAddr s = parseAddr_scan s s"

definition v4InV6Prefix :: "byte list" where
  "v4InV6Prefix = replicate 10 0 @ [0xff, 0xff]"

definition As16 :: "byte list \<Rightarrow> IP" where
  "As16 a = (if length a = 4 then v4InV6Prefix @ a else a)"

definition ParseIP :: "string \<Rightarrow> IP option" where
  "ParseIP s = map_option As16 (ParseAddr s)"

subsection \<open>Accessors\<close>

definition To4 :: "IP \<Rightarrow> IP option" where
  "To4 ip = (if length ip = 4 then Some ip
             else if length ip = 16 \<and> take 12 ip = v4InV6Prefix then Some (drop 12 ip)
             else None)"

definition To16 :: "IP \<Rightarrow> IP option" where
  "To16 ip = (if length ip = 4 then Some (v4InV6Prefix @ ip)
              else if length ip = 16 then Some ip
              else None)"

subsection \<open>Printing addresses\<close>

definition hex_digit :: "nat \<Rightarrow> char" where
  "hex_digit n = (if n < 10 then char_of (48 + n) else char_of (87 + n))"

text \<open>\<open>appendHex\<close>: a 16-bit group without leading zeros.\<close>

definition appendHex :: "nat \<Rightarrow> string" where
  "appendHex x =
     (if 4096 \<le> x then [hex_digit (x div 4096)] else []) @
     (if 256 \<le> x then [hex_digit (x div 256 mod 16)] else []) @
     (if 16 \<le> x then [hex_digit (x div 16 mod 16)] else []) @
     [hex_digit (x mod 16)]"

text \<open>The eight 16-bit groups of an address.\<close>

fun groups16 :: "byte list \<Rightarrow> nat list" where
  "groups16 (a # b # xs) = (unat a * 256 + unat b) # groups16 xs"
| "groups16 _ = []"

text \<open>\<open>zero_run i gs\<close> is the end of the run of zero groups that starts at \<open>i\<close>; the
  printer compresses the first longest run of at least two.\<close>

definition zero_run :: "nat \<Rightarrow> nat list \<Rightarrow> nat" where
  "zero_run i gs = i + length (takeWhile (\<lambda>g. g = 0) (drop i gs))"

fun longest_zeros :: "nat list \<Rightarrow> nat list \<Rightarrow> (nat \<times> nat) option \<Rightarrow> (nat \<times> nat) option" where
  "longest_zeros gs [] best = best"
| "longest_zeros gs (i # is) best =
     (let j = zero_run i gs; l = j - i;
          old = (case best of None \<Rightarrow> 0 | Some (a, b) \<Rightarrow> b - a)
      in longest_zeros gs is (if 2 \<le> l \<and> old < l then Some (i, j) else best))"

text \<open>\<open>netip.Addr.appendTo6\<close>.\<close>

definition string6 :: "IP \<Rightarrow> string" where
  "string6 ip =
     (let gs = groups16 ip in
      case longest_zeros gs [0..<8] None of
        None \<Rightarrow> join_with '':'' (map appendHex gs)
      | Some (a, b) \<Rightarrow>
          join_with '':'' (map appendHex (take a gs)) @ ''::'' @
          join_with '':'' (map appendHex (drop b gs)))"

definition string4 :: "IP \<Rightarrow> string" where
  "string4 ip = join_with ''.'' (map (\<lambda>b. dec (unat b)) ip)"

text \<open>\<open>net.IP.String\<close> on the addresses of 4 and 16 bytes the program prints.\<close>

definition IP_String :: "IP \<Rightarrow> string" where
  "IP_String ip = (case To4 ip of Some p4 \<Rightarrow> string4 p4 | None \<Rightarrow> string6 ip)"

subsection \<open>Networks\<close>

fun CIDRMask_loop :: "nat \<Rightarrow> nat \<Rightarrow> byte list" where
  "CIDRMask_loop n 0 = []"
| "CIDRMask_loop n (Suc l) =
     (if 8 \<le> n then 0xff # CIDRMask_loop (n - 8) l
      else NOT (drop_bit n 0xff) # CIDRMask_loop 0 l)"

definition CIDRMask :: "nat \<Rightarrow> nat \<Rightarrow> byte list" where
  "CIDRMask ones bits = CIDRMask_loop ones (bits div 8)"

definition mask_bytes :: "byte list \<Rightarrow> byte list \<Rightarrow> byte list" where
  "mask_bytes ip m = map2 (\<lambda>a b. a AND b) ip m"

text \<open>\<open>IP.Mask\<close>, for masks of 4 or 16 bytes on the 16-byte addresses \<open>ParseCIDR\<close> makes.\<close>

definition IP_Mask :: "IP \<Rightarrow> byte list \<Rightarrow> IP option" where
  "IP_Mask ip m =
     (let ip' = (if length m = 4 \<and> length ip = 16 \<and> take 12 ip = v4InV6Prefix then drop 12 ip else ip);
          m' = (if length m = 16 \<and> length ip = 4 \<and> take 12 m = replicate 12 0xff then drop 12 m else m)
      in if length ip' \<noteq> length m' then None else Some (mask_bytes ip' m'))"

text \<open>\<open>dtoi\<close>: the leading decimal digits, \<open>None\<close> when there is none or the value reaches
  \<open>0xFFFFFF\<close>.\<close>

fun dtoi_loop :: "string \<Rightarrow> nat \<Rightarrow> nat \<Rightarrow> (nat \<times> nat) option" where
  "dtoi_loop [] n i = (if i = 0 then None else Some (n, i))"
| "dtoi_loop (c # cs) n i =
     (if is_digit c then
        if 0xFFFFFF \<le> n * 10 + digit_val c then None
        else dtoi_loop cs (n * 10 + digit_val c) (Suc i)
      else if i = 0 then None else Some (n, i))"

definition dtoi :: "string \<Rightarrow> (nat \<times> nat) option" where
  "dtoi s = dtoi_loop s 0 0"

text \<open>\<open>net.ParseCIDR\<close>; the program uses only the network it returns.\<close>

definition ParseCIDR :: "string \<Rightarrow> IPNet option" where
  "ParseCIDR s =
     (if CHR ''/'' \<notin> set s then None
      else
        let addr = takeWhile (\<lambda>c. c \<noteq> CHR ''/'') s;
            mask = tl (dropWhile (\<lambda>c. c \<noteq> CHR ''/'') s)
        in case ParseAddr addr of
             None \<Rightarrow> None
           | Some a \<Rightarrow>
               (case dtoi mask of
                  None \<Rightarrow> None
                | Some (n, i) \<Rightarrow>
                    if i \<noteq> length mask \<or> 8 * length a < n then None
                    else
                      let m = CIDRMask n (8 * length a) in
                      (case IP_Mask (As16 a) m of
                         None \<Rightarrow> None
                       | Some nip \<Rightarrow> Some \<lparr>net_ip = nip, net_mask = m\<rparr>)))"

definition networkNumberAndMask :: "IPNet \<Rightarrow> (IP \<times> byte list) option" where
  "networkNumberAndMask n =
     (let ip = (case To4 (net_ip n) of Some x \<Rightarrow> x | None \<Rightarrow> net_ip n); m = net_mask n in
      if length ip \<noteq> 4 \<and> length ip \<noteq> 16 then None
      else if length m = 4 then (if length ip = 4 then Some (ip, m) else None)
      else if length m = 16 then Some (ip, if length ip = 4 then drop 12 m else m)
      else None)"

definition Contains :: "IPNet \<Rightarrow> IP \<Rightarrow> bool" where
  "Contains n ip =
     (let x = (case To4 ip of Some p \<Rightarrow> p | None \<Rightarrow> ip) in
      case networkNumberAndMask n of
        None \<Rightarrow> x = []
      | Some (nn, m) \<Rightarrow>
          length x = length nn \<and> mask_bytes nn m = mask_bytes x m)"

fun leading_ones :: "nat \<Rightarrow> byte \<Rightarrow> nat \<times> byte" where
  "leading_ones 0 v = (0, v)"
| "leading_ones (Suc k) v =
     (if v AND 0x80 \<noteq> 0 then (let (n, w) = leading_ones k (push_bit 1 v) in (Suc n, w)) else (0, v))"

fun simpleMaskLength :: "byte list \<Rightarrow> nat option" where
  "simpleMaskLength [] = Some 0"
| "simpleMaskLength (v # vs) =
     (if v = 0xff then map_option (\<lambda>n. n + 8) (simpleMaskLength vs)
      else
        let (n, w) = leading_ones 8 v in
        if w \<noteq> 0 \<or> (\<exists>x \<in> set vs. x \<noteq> 0) then None else Some n)"

definition hex_encode :: "byte list \<Rightarrow> string" where
  "hex_encode m = concat (map (\<lambda>b. [hex_digit (unat b div 16), hex_digit (unat b mod 16)]) m)"

definition IPNet_String :: "IPNet \<Rightarrow> string" where
  "IPNet_String n =
     (case networkNumberAndMask n of
        None \<Rightarrow> ''<nil>''
      | Some (nn, m) \<Rightarrow>
          (case simpleMaskLength m of
             None \<Rightarrow> IP_String nn @ ''/'' @ hex_encode m
           | Some l \<Rightarrow> IP_String nn @ ''/'' @ dec l))"

section \<open>Evaluation\<close>

text \<open>Equations by which the simplifier computes the functions above on closed input.\<close>

lemma CIDRMask_loop_numeral:
  "CIDRMask_loop n (numeral k) =
     (if 8 \<le> n then 0xff # CIDRMask_loop (n - 8) (pred_numeral k)
      else NOT (drop_bit n 0xff) # CIDRMask_loop 0 (pred_numeral k))"
  by (simp add: numeral_eq_Suc)

lemma leading_ones_numeral:
  "leading_ones (numeral k) v =
     (if v AND 0x80 \<noteq> 0
      then (let (n, w) = leading_ones (pred_numeral k) (push_bit 1 v) in (Suc n, w)) else (0, v))"
  by (simp add: numeral_eq_Suc)

lemma v4InV6Prefix_eq: "v4InV6Prefix = [0, 0, 0, 0, 0, 0, 0, 0, 0, 0, 0xff, 0xff]"
  by (simp add: v4InV6Prefix_def replicate_numeral_Cons)

lemma length_v4InV6Prefix [simp]: "length v4InV6Prefix = 12"
  by (simp add: v4InV6Prefix_def)

lemma hex_digit_numeral:
  "hex_digit 0 = CHR ''0''" "hex_digit (Suc 0) = CHR ''1''" "hex_digit 1 = CHR ''1''"
  "hex_digit 2 = CHR ''2''" "hex_digit 3 = CHR ''3''" "hex_digit 4 = CHR ''4''"
  "hex_digit 5 = CHR ''5''" "hex_digit 6 = CHR ''6''" "hex_digit 7 = CHR ''7''"
  "hex_digit 8 = CHR ''8''" "hex_digit 9 = CHR ''9''" "hex_digit 10 = CHR ''a''"
  "hex_digit 11 = CHR ''b''" "hex_digit 12 = CHR ''c''" "hex_digit 13 = CHR ''d''"
  "hex_digit 14 = CHR ''e''" "hex_digit 15 = CHR ''f''"
  by (simp_all add: hex_digit_def char_of_def bit_iff_odd)

lemmas net_eval [go_net] =
  ParseIP_def ParseAddr_def parseIPv4_def parseIPv6_def parseIPv6_loop.simps parseIPv6_finish_def
  hex_val_def is_digit_def digit_val_def dtoi_def ParseCIDR_def CIDRMask_def
  CIDRMask_loop_numeral leading_ones_numeral IP_Mask_def As16_def v4InV6Prefix_eq mask_bytes_def
  IPNet_String_def networkNumberAndMask_def Contains_def To4_def To16_def IP_String_def
  string4_def string6_def zero_run_def appendHex_def hex_digit_numeral hex_encode_def
  dec_small dec_step upt_rec replicate_numeral_Cons

section \<open>Dotted addresses\<close>

lemma unat_byte_less [simp]: "unat (b :: byte) < 256"
  using unsigned_less [of b, where 'a = nat] by simp

lemma unat_byte_le [simp]: "unat (b :: byte) \<le> 255"
  using unat_byte_less [of b] by linarith

text \<open>One decimal octet is read as its value.\<close>

lemma parseIPv4Fields_digit:
  "d < 10 \<Longrightarrow> val * 10 + d \<le> 255 \<Longrightarrow> \<not> (digLen = 1 \<and> val = 0) \<Longrightarrow>
   parseIPv4Fields (digit_char d # cs) prev val digLen octets =
   parseIPv4Fields cs (Some (digit_char d)) (val * 10 + d) (Suc digLen) octets"
  by auto

lemma decimal_digits: "(n div 100 * 10 + n div 10 mod 10) * 10 + n mod 10 = (n::nat)"
proof -
  have "n div 100 * 10 + n div 10 mod 10 = n div 10"
    by (simp only: div_mult_mod_eq div_mult2_eq [of n 10 10, symmetric, simplified, symmetric])
  then show ?thesis by (simp only: div_mult_mod_eq)
qed

lemma parseIPv4Fields_octet:
  assumes n: "n < 256"
  shows "parseIPv4Fields (dec n @ rest) prev 0 0 octets =
    parseIPv4Fields rest (Some (digit_char (n mod 10))) n (length (dec n)) octets"
proof -
  consider "n < 10" | "10 \<le> n" "n < 100" | "100 \<le> n" by linarith
  then show ?thesis
  proof cases
    case 1
    then show ?thesis by (simp add: dec_small parseIPv4Fields_digit del: parseIPv4Fields.simps(2))
  next
    case 2
    then show ?thesis
      using div_mult_mod_eq [of n 10]
      by (simp add: dec_byte parseIPv4Fields_digit del: parseIPv4Fields.simps(2) div_mult_mod_eq)
  next
    case 3
    have "n div 100 * 10 + n div 10 mod 10 \<le> 255" "n div 100 < 10" "n div 100 \<noteq> 0"
      using 3 n decimal_digits [of n] by linarith+
    then show ?thesis
      using 3 n decimal_digits [of n]
      by (simp add: dec_byte parseIPv4Fields_digit del: parseIPv4Fields.simps(2))
  qed
qed

lemma digit_char_not_dot [simp]: "d < 10 \<Longrightarrow> digit_char d \<noteq> CHR ''.''"
  using is_digit_digit_char not_is_digit_punct(1) by metis

lemma parseIPv4Fields_dot:
  "cs \<noteq> [] \<Longrightarrow> d < 10 \<Longrightarrow> length octets < 3 \<Longrightarrow>
   parseIPv4Fields (CHR ''.'' # cs) (Some (digit_char d)) n l octets =
   parseIPv4Fields cs (Some CHR ''.'') 0 0 (octets @ [of_nat n])"
  by simp

lemma parseIPv4_string4:
  assumes "length ip = 4"
  shows "parseIPv4 (string4 ip) = Some ip"
proof -
  obtain a b c d where ip: "ip = [a, b, c, d]"
    using assms by (auto simp: numeral_eq_Suc length_Suc_conv)
  show ?thesis
    using parseIPv4Fields_octet [OF unat_byte_less [of d], of "[]"]
    by (simp add: ip parseIPv4_def string4_def parseIPv4Fields_octet parseIPv4Fields_dot
        del: parseIPv4Fields.simps(2))
qed

lemma parseAddr_scan_digits:
  "list_all is_digit ds \<Longrightarrow> parseAddr_scan s (ds @ CHR ''.'' # rest) = parseIPv4 s"
  by (induction ds) auto

lemma ParseAddr_string4:
  assumes "length ip = 4"
  shows "ParseAddr (string4 ip) = Some ip"
proof -
  obtain a rest where s: "string4 ip = dec a @ CHR ''.'' # rest"
    using assms by (auto simp: numeral_eq_Suc length_Suc_conv string4_def)
  have "ParseAddr (string4 ip) = parseIPv4 (string4 ip)"
    unfolding ParseAddr_def by (subst (2) s) (rule parseAddr_scan_digits [OF dec_all_digits])
  with assms show ?thesis by (simp add: parseIPv4_string4)
qed

lemma ParseIP_string4:
  "length ip = 4 \<Longrightarrow> ParseIP (string4 ip) = Some (v4InV6Prefix @ ip)"
  by (simp add: ParseIP_def ParseAddr_string4 As16_def)

lemma To4_v4InV6 [simp]: "length ip = 4 \<Longrightarrow> To4 (v4InV6Prefix @ ip) = Some ip"
  by (simp add: To4_def)

lemma To4_Some: "To4 ip = Some p \<Longrightarrow> length p = 4"
  by (auto simp: To4_def split: if_splits)

lemma To4_16: "length ip = 16 \<Longrightarrow> To4 ip = Some p \<longleftrightarrow> ip = v4InV6Prefix @ p \<and> length p = 4"
  by (auto simp: To4_def) (metis append_take_drop_id)

section \<open>Length of parsed addresses\<close>

lemma length_parseIPv4Fields:
  "parseIPv4Fields s prev val digLen octets = Some r \<Longrightarrow> length octets \<le> 3 \<Longrightarrow> length r = 4"
  by (induction s prev val digLen octets rule: parseIPv4Fields.induct) (auto split: if_splits)

lemma parseIPv6_loop_inv:
  assumes "parseIPv6_loop s ip e = Some (s', ip', e')"
    and "length ip \<le> 16" "even (length ip)" "\<forall>x. e = Some x \<longrightarrow> x \<le> length ip"
  shows "length ip' \<le> 16 \<and> (\<forall>x. e' = Some x \<longrightarrow> x \<le> length ip')"
  using assms
proof (induction s ip e rule: parseIPv6_loop.induct)
  case (1 s ip e)
  show ?case
  proof (cases "length ip < 16")
    case False
    with "1.prems" show ?thesis by (simp add: parseIPv6_loop.simps)
  next
    case True
    with "1.prems"(3) have l2: "length ip + 2 \<le> 16" by presburger
    from "1.prems"(1) True obtain off acc rest where sh: "scan_hex s 0 0 = Some (off, acc, rest)" "off \<noteq> 0"
      by (subst (asm) parseIPv6_loop.simps) (auto split: option.splits if_splits)
    let ?ip = "ip @ [of_nat (acc div 256), of_nat acc]"
    show ?thesis
    proof (cases "rest \<noteq> [] \<and> hd rest = CHR ''.''")
      case dot: True
      with "1.prems"(1,4) True sh show ?thesis
        by (subst (asm) parseIPv6_loop.simps)
           (auto dest!: length_parseIPv4Fields split: option.splits if_splits)
    next
      case nodot: False
      note IH = "1.IH" [OF _ sh(1) refl refl sh(2) nodot refl]
      from "1.prems"(1) True sh nodot consider
          "ip' = ?ip" "e' = e" | "ip' = ?ip" "e' = Some (length ?ip)"
        | t where "parseIPv6_loop t ?ip (Some (length ?ip)) = Some (s', ip', e')"
            "t = tl (tl rest)" "rest \<noteq> []" "hd rest = CHR '':''" "tl rest \<noteq> []"
            "hd (tl rest) = CHR '':''" "e = None" "tl (tl rest) \<noteq> []"
        | t where "parseIPv6_loop t ?ip e = Some (s', ip', e')"
            "t = tl rest" "rest \<noteq> []" "hd rest = CHR '':''" "tl rest \<noteq> []" "hd (tl rest) \<noteq> CHR '':''"
        by (subst (asm) parseIPv6_loop.simps) (auto simp: Let_def split: if_splits)
      then show ?thesis
      proof cases
        case 3
        with IH(1) True l2 "1.prems" show ?thesis by simp
      next
        case 4
        with IH(2) True l2 "1.prems" show ?thesis by fastforce
      qed (use l2 "1.prems" in auto)
    qed
  qed
qed

lemma length_parseIPv6: "parseIPv6 s = Some a \<Longrightarrow> length a = 16"
  by (auto simp: parseIPv6_def parseIPv6_finish_def split: if_splits option.splits prod.splits
      dest!: parseIPv6_loop_inv)

lemma length_ParseAddr: "ParseAddr s = Some a \<Longrightarrow> length a = 4 \<or> length a = 16"
proof -
  have "parseAddr_scan s t = Some a \<Longrightarrow> length a = 4 \<or> length a = 16" for t
    by (induction t)
       (auto simp: parseIPv4_def length_parseIPv4Fields length_parseIPv6 split: if_splits)
  then show "ParseAddr s = Some a \<Longrightarrow> length a = 4 \<or> length a = 16"
    by (simp add: ParseAddr_def)
qed

lemma length_ParseIP: "ParseIP s = Some ip \<Longrightarrow> length ip = 16"
  by (auto simp: ParseIP_def As16_def dest: length_ParseAddr)

section \<open>Masks and membership\<close>

text \<open>The bits of an address, most significant first: the reference view of a prefix.\<close>

definition byte_bits :: "byte \<Rightarrow> bool list" where
  "byte_bits b = map (\<lambda>i. bit b (7 - i)) [0..<8]"

definition ip_bits :: "byte list \<Rightarrow> bool list" where
  "ip_bits ip = concat (map byte_bits ip)"

lemma length_byte_bits [simp]: "length (byte_bits b) = 8"
  by (simp add: byte_bits_def)

lemma ip_bits_Nil [simp]: "ip_bits [] = []"
  by (simp add: ip_bits_def)

lemma ip_bits_Cons [simp]: "ip_bits (b # bs) = byte_bits b @ ip_bits bs"
  by (simp add: ip_bits_def)

lemma length_ip_bits [simp]: "length (ip_bits ip) = 8 * length ip"
  by (induction ip) simp_all

lemma byte_ff_mask: "(0xff :: byte) = mask 8"
  by (simp add: mask_eq_exp_minus_1)

lemma and_ff_byte: "b AND 0xff = (b :: byte)"
  by (simp only: byte_ff_mask take_bit_eq_mask [symmetric]) (simp add: take_bit_word_eq_self)

lemma byte_minus_256 [simp]: "(- 256 :: byte) = 0"
proof -
  have "(256 :: byte) = 0" by simp
  then show ?thesis by (metis neg_0_equal_iff_equal)
qed

lemma bit_prefix_mask:
  assumes "i < 8"
  shows "bit (NOT (drop_bit n 0xff) :: byte) i \<longleftrightarrow> 8 \<le> i + n"
  unfolding byte_ff_mask using assms
  by (simp only: bit_not_iff bit_drop_bit_eq bit_mask_iff comp_def) auto

lemma take_byte_bits_eq:
  "n \<le> 8 \<Longrightarrow> take n (byte_bits a) = take n (byte_bits b) \<longleftrightarrow> (\<forall>i<n. bit a (7 - i) = bit b (7 - i))"
  by (auto simp: byte_bits_def list_eq_iff_nth_eq)

lemma byte_bits_eq [simp]: "byte_bits a = byte_bits b \<longleftrightarrow> a = b"
proof
  assume "byte_bits a = byte_bits b"
  then have *: "\<forall>i<8. bit a (7 - i) = bit b (7 - i)"
    using take_byte_bits_eq [of 8 a b] by simp
  show "a = b"
  proof (rule bit_word_eqI)
    fix i
    assume "i < LENGTH(8)"
    then have "i = 7 - (7 - i)" "7 - i < 8" by simp_all
    with * show "bit a i = bit b i" by metis
  qed
qed simp

lemma and_prefix_mask_eq:
  assumes n: "n \<le> 8"
  shows "a AND NOT (drop_bit n 0xff) = b AND NOT (drop_bit n 0xff) \<longleftrightarrow>
    take n (byte_bits a) = take n (byte_bits (b :: byte))"
proof -
  have "a AND NOT (drop_bit n 0xff) = b AND NOT (drop_bit n 0xff) \<longleftrightarrow>
      (\<forall>i<8. 8 \<le> i + n \<longrightarrow> bit a i = bit b i)"
    unfolding bit_eq_iff
    by (auto simp: bit_and_iff bit_prefix_mask possible_bit_word simp del: bit_not_iff_eq)
  also have "\<dots> \<longleftrightarrow> (\<forall>i<n. bit a (7 - i) = bit b (7 - i))"
  proof
    assume *: "\<forall>i<8. 8 \<le> i + n \<longrightarrow> bit a i = bit b i"
    then show "\<forall>i<n. bit a (7 - i) = bit b (7 - i)" using n by simp
  next
    assume *: "\<forall>i<n. bit a (7 - i) = bit b (7 - i)"
    show "\<forall>i<8. 8 \<le> i + n \<longrightarrow> bit a i = bit b i"
    proof (intro allI impI)
      fix i :: nat
      assume "i < 8" "8 \<le> i + n"
      then have "7 - i < n" "7 - (7 - i) = i" by simp_all
      with * show "bit a i = bit b i" by metis
    qed
  qed
  finally show ?thesis using n by (simp add: take_byte_bits_eq)
qed

lemma mask_bytes_Nil [simp]: "mask_bytes [] m = []"
  by (simp add: mask_bytes_def)

lemma mask_bytes_Cons [simp]: "mask_bytes (a # x) (b # m) = (a AND b) # mask_bytes x m"
  by (simp add: mask_bytes_def)

lemma length_mask_bytes [simp]: "length (mask_bytes x m) = min (length x) (length m)"
  by (simp add: mask_bytes_def)

lemma mask_bytes_idem: "mask_bytes (mask_bytes x m) m = mask_bytes x m"
  by (induction x m rule: list_induct2') (simp_all add: mask_bytes_def and.assoc)

lemma mask_bytes_zero: "length x = k \<Longrightarrow> mask_bytes x (CIDRMask_loop 0 k) = replicate k 0"
  by (induction k arbitrary: x) (auto simp: length_Suc_conv)

text \<open>Masking with a prefix mask compares exactly the leading bits.\<close>

lemma mask_bytes_eq_iff:
  "length x = l \<Longrightarrow> length y = l \<Longrightarrow>
   mask_bytes x (CIDRMask_loop n l) = mask_bytes y (CIDRMask_loop n l) \<longleftrightarrow>
   take n (ip_bits x) = take n (ip_bits y)"
proof (induction n l arbitrary: x y rule: CIDRMask_loop.induct)
  case (1 n)
  then show ?case by simp
next
  case (2 n l)
  obtain a x' where x: "x = a # x'" "length x' = l" using 2 by (auto simp: length_Suc_conv)
  obtain b y' where y: "y = b # y'" "length y' = l" using 2 by (auto simp: length_Suc_conv)
  show ?case
  proof (cases "8 \<le> n")
    case True
    with x y "2.IH"(1) show ?thesis by (simp add: and_ff_byte)
  next
    case False
    with x y show ?thesis by (simp add: mask_bytes_zero and_prefix_mask_eq)
  qed
qed

lemma length_CIDRMask_loop [simp]: "length (CIDRMask_loop n l) = l"
  by (induction n l rule: CIDRMask_loop.induct) simp_all

section \<open>Canonical text of networks\<close>

lemma leading_ones_prefix:
  assumes "n < 8"
  shows "leading_ones 8 (NOT (drop_bit n 0xff)) = (n, 0)"
proof -
  have "n \<in> {0, 1, 2, 3, 4, 5, 6, 7}" using assms by auto
  then show ?thesis by (elim insertE emptyE) (simp_all add: leading_ones_numeral)
qed

lemma prefix_mask_not_ff:
  assumes "n < 8"
  shows "NOT (drop_bit n 0xff) \<noteq> (0xff :: byte)"
proof -
  have "n \<in> {0, 1, 2, 3, 4, 5, 6, 7}" using assms by auto
  then show ?thesis by (elim insertE emptyE) simp_all
qed

lemma CIDRMask_loop_0: "CIDRMask_loop 0 l = replicate l 0"
  by (induction l) simp_all

lemma simpleMaskLength_CIDRMask_loop:
  "n \<le> 8 * l \<Longrightarrow> simpleMaskLength (CIDRMask_loop n l) = Some n"
proof (induction n l rule: CIDRMask_loop.induct)
  case (1 n)
  then show ?case by simp
next
  case (2 n l)
  show ?case
  proof (cases "8 \<le> n")
    case True
    with 2 show ?thesis by simp
  next
    case False
    then have "n < 8" by simp
    from leading_ones_prefix [OF this] prefix_mask_not_ff [OF this] False show ?thesis
      by (simp add: CIDRMask_loop_0 del: leading_ones.simps bit_not_iff_eq)
  qed
qed

lemma dtoi_dec: "n < 256 \<Longrightarrow> dtoi (dec n) = Some (n, length (dec n))"
  using decimal_digits [of n]
  by (auto simp: dtoi_def dec_byte)

lemma slash_notin_string4: "CHR ''/'' \<notin> set (string4 ip)"
  using set_join_with [of "''.''" "map (\<lambda>b. dec (unat b)) ip"] by (auto simp: string4_def)

lemma takeWhile_notin: "c \<notin> set s \<Longrightarrow> takeWhile (\<lambda>x. x \<noteq> c) (s @ c # t) = s"
  by (induction s) auto

lemma dropWhile_notin: "c \<notin> set s \<Longrightarrow> dropWhile (\<lambda>x. x \<noteq> c) (s @ c # t) = c # t"
  by (induction s) auto

text \<open>\<open>ParseCIDR\<close> on \<open>a/n\<close>, for any text \<open>a\<close> of an address and any legal prefix length.\<close>

lemma ParseCIDR_parts:
  assumes a: "ParseAddr s = Some a" "CHR ''/'' \<notin> set s" and n: "n \<le> 8 * length a"
  shows "ParseCIDR (s @ ''/'' @ dec n) =
    Some \<lparr>net_ip = mask_bytes a (CIDRMask_loop n (length a)), net_mask = CIDRMask_loop n (length a)\<rparr>"
proof -
  from length_ParseAddr [OF a(1)] show ?thesis
  proof
    assume l: "length a = 4"
    with n show ?thesis
      by (simp add: ParseCIDR_def takeWhile_notin dropWhile_notin a dtoi_dec CIDRMask_def As16_def
          IP_Mask_def Let_def)
  next
    assume l: "length a = 16"
    with n show ?thesis
      by (simp add: ParseCIDR_def takeWhile_notin dropWhile_notin a dtoi_dec CIDRMask_def As16_def
          IP_Mask_def Let_def)
  qed
qed

lemma networkNumberAndMask_v4:
  "length nip = 4 \<Longrightarrow> length m = 4 \<Longrightarrow>
   networkNumberAndMask \<lparr>net_ip = nip, net_mask = m\<rparr> = Some (nip, m)"
  by (simp add: networkNumberAndMask_def To4_def)

lemma IPNet_String_v4:
  assumes "length ip = 4" "n \<le> 32"
  shows "IPNet_String \<lparr>net_ip = ip, net_mask = CIDRMask_loop n 4\<rparr> = string4 ip @ ''/'' @ dec n"
  using assms
  by (simp add: IPNet_String_def networkNumberAndMask_v4 simpleMaskLength_CIDRMask_loop
      IP_String_def To4_def)

end
