(* ===== verification/Helpers.thy ===== *)
theory Helpers
  imports GoNet "HOL-Library.Monad_Syntax"
begin

unbundle bit_operations_syntax

text \<open>
  The pure helpers of \<open>src/src/helpers.go\<close>: conversion between dotted IPv4 text and
  32-bit words (the return codes of the blocklist), the etcd key of an address
  (\<open>rblKey\<close>, \<open>reverseKey\<close>), the IPv6 map key, validity tests, and the remaining life
  time of a block. Every conversion is translated with its buffer accesses and word
  arithmetic; the lemmas show that no access leaves the buffer, that the optimised printer
  agrees with the \<open>fmt.Sprintf\<close> one, and that parsing inverts printing.
\<close>

section \<open>Definitions\<close>

subsection \<open>Constants of the key layout\<close>

definition SKY_DNS_PREFIX :: string where
  "SKY_DNS_PREFIX = ''/skydns''"

definition RBL_ZONE :: string where
  "RBL_ZONE = ''open-blocklist''"

definition rblPrefix :: string where
  "rblPrefix = SKY_DNS_PREFIX @ ''/internal/'' @ RBL_ZONE"

definition rblPrefixScan :: string where
  "rblPrefixScan = rblPrefix @ ''/''"

subsection \<open>IPv4 text and words\<close>

text \<open>The loop of \<open>IPv4StrToUint32\<close>; the early \<open>return 0\<close> is \<open>None\<close>.\<close>

fun IPv4StrToUint32_loop :: "string \<Rightarrow> uint32 \<Rightarrow> uint32 \<Rightarrow> nat \<Rightarrow> (uint32 \<times> uint32 \<times> nat) option" where
  "IPv4StrToUint32_loop [] result octet dots = Some (result, octet, dots)"
| "IPv4StrToUint32_loop (c # cs) result octet dots =
     (if is_digit c then
        let octet' = octet * 10 + of_nat (digit_val c) in
        if octet' > 255 then None
        else IPv4StrToUint32_loop cs result octet' dots
      else if c = CHR ''.'' then
        if dots = 3 then None
        else IPv4StrToUint32_loop cs (push_bit 8 result OR octet) 0 (dots + 1)
      else None)"

definition IPv4StrToUint32 :: "string \<Rightarrow> uint32" where
  "IPv4StrToUint32 s =
     (case IPv4StrToUint32_loop s 0 0 0 of
        None \<Rightarrow> 0
      | Some (result, octet, dots) \<Rightarrow>
          if dots \<noteq> 3 then 0 else push_bit 8 result OR octet)"

definition Uint32ToIPv4 :: "uint32 \<Rightarrow> string" where
  "Uint32ToIPv4 v =
     dec (unat (ucast (drop_bit 24 v) :: byte)) @ ''.'' @
     dec (unat (ucast (drop_bit 16 v) :: byte)) @ ''.'' @
     dec (unat (ucast (drop_bit 8 v) :: byte)) @ ''.'' @
     dec (unat (ucast v :: byte))"

definition Uint32ToIPv4Bytes :: "uint32 \<Rightarrow> byte list" where
  "Uint32ToIPv4Bytes v =
     [ucast (drop_bit 24 v), ucast (drop_bit 16 v), ucast (drop_bit 8 v), ucast v]"

text \<open>Go's \<open>[4]byte\<close> argument is a list of four bytes here.\<close>

fun IPv4BytesToUint32 :: "byte list \<Rightarrow> uint32 option" where
  "IPv4BytesToUint32 [b0, b1, b2, b3] =
     Some (push_bit 24 (ucast b0) OR push_bit 16 (ucast b1) OR push_bit 8 (ucast b2) OR ucast b3)"
| "IPv4BytesToUint32 _ = None"

definition IsIPv4 :: "string \<Rightarrow> bool" where
  "IsIPv4 s \<longleftrightarrow> IPv4StrToUint32 s \<noteq> 0 \<or> s = ''0.0.0.0''"

text \<open>
  The allocation-free printer writes into a buffer of 15 bytes. A write outside the buffer
  would panic; it is \<open>None\<close>. \<open>appendUint8 buf pos v\<close> works on \<open>buf[pos:]\<close>.
\<close>

definition buf_write :: "byte list \<Rightarrow> nat \<Rightarrow> byte \<Rightarrow> byte list option" where
  "buf_write buf i v = (if i < length buf then Some (buf[i := v]) else None)"

definition appendUint8 :: "byte list \<Rightarrow> nat \<Rightarrow> byte \<Rightarrow> (byte list \<times> nat) option" where
  "appendUint8 buf pos v =
     (if v \<ge> 100 then do {
        b1 \<leftarrow> buf_write buf pos (48 + v div 100);
        b2 \<leftarrow> buf_write b1 (pos + 1) (48 + v div 10 mod 10);
        b3 \<leftarrow> buf_write b2 (pos + 2) (48 + v mod 10);
        Some (b3, 3)
      }
      else if v \<ge> 10 then do {
        b1 \<leftarrow> buf_write buf pos (48 + v div 10);
        b2 \<leftarrow> buf_write b1 (pos + 1) (48 + v mod 10);
        Some (b2, 2)
      }
      else do {
        b1 \<leftarrow> buf_write buf pos (48 + v);
        Some (b1, 1)
      })"

definition byte_char :: "byte \<Rightarrow> char" where
  "byte_char b = char_of (unat b)"

definition Uint32ToIPv4Str_buf :: "uint32 \<Rightarrow> string option" where
  "Uint32ToIPv4Str_buf n = do {
     (buf, k) \<leftarrow> appendUint8 (replicate 15 0) 0 (ucast (drop_bit 24 n));
     let pos = k;
     buf \<leftarrow> buf_write buf pos 46;
     let pos = pos + 1;
     (buf, k) \<leftarrow> appendUint8 buf pos (ucast (drop_bit 16 n));
     let pos = pos + k;
     buf \<leftarrow> buf_write buf pos 46;
     let pos = pos + 1;
     (buf, k) \<leftarrow> appendUint8 buf pos (ucast (drop_bit 8 n));
     let pos = pos + k;
     buf \<leftarrow> buf_write buf pos 46;
     let pos = pos + 1;
     (buf, k) \<leftarrow> appendUint8 buf pos (ucast n);
     let pos = pos + k;
     Some (map byte_char (take pos buf))
   }"

text \<open>The string the callers see; the lemma \<open>Uint32ToIPv4Str_no_panic\<close> shows that the
  second case never happens.\<close>

definition Uint32ToIPv4Str :: "uint32 \<Rightarrow> string" where
  "Uint32ToIPv4Str n = (case Uint32ToIPv4Str_buf n of Some s \<Rightarrow> s | None \<Rightarrow> [])"

subsection \<open>Address predicates and IPv6 keys\<close>

definition IsIPv6 :: "string \<Rightarrow> bool" where
  "IsIPv6 s = contains_byte s CHR '':''"

definition IsValidIP :: "string \<Rightarrow> bool" where
  "IsValidIP s \<longleftrightarrow> ParseIP s \<noteq> None"

type_synonym IPv6Key = "byte list"

text \<open>\<open>copy(key[:], ip)\<close> into a zeroed array of 16 bytes.\<close>

definition copy16 :: "byte list \<Rightarrow> IPv6Key" where
  "copy16 ip = take 16 ip @ replicate (16 - length ip) 0"

definition IPv6StringToKey :: "string \<Rightarrow> IPv6Key option" where
  "IPv6StringToKey s =
     (case ParseIP s of None \<Rightarrow> None
      | Some ip \<Rightarrow> (case To16 ip of None \<Rightarrow> None | Some ip16 \<Rightarrow> Some (copy16 ip16)))"

definition IPv6KeyToString :: "IPv6Key \<Rightarrow> string" where
  "IPv6KeyToString key = IP_String key"

definition KeyToIPv6 :: "IPv6Key \<Rightarrow> IP" where
  "KeyToIPv6 key = key"

definition IPv6ToKey :: "IP \<Rightarrow> IPv6Key" where
  "IPv6ToKey ip = (case To16 ip of None \<Rightarrow> replicate 16 0 | Some ip16 \<Rightarrow> copy16 ip16)"

subsection \<open>etcd keys of an address\<close>

text \<open>\<open>v4[0]\<close> on a nil slice panics: \<open>None\<close>. The callers test \<open>To4\<close> first.\<close>

definition ipv4Parts :: "IP \<Rightarrow> string list option" where
  "ipv4Parts ip = map_option (map (\<lambda>b. dec (unat b))) (To4 ip)"

definition ipv6Nibbles :: "IP \<Rightarrow> string list" where
  "ipv6Nibbles ip =
     (case To16 ip of None \<Rightarrow> [] | Some ip16 \<Rightarrow> map (\<lambda>c. [c]) (hex_encode ip16))"

definition rblKey :: "IP \<Rightarrow> string" where
  "rblKey ip =
     (case ipv4Parts ip of
        Some p \<Rightarrow> join_with ''/'' (rblPrefix # p)
      | None \<Rightarrow> rblPrefix @ ''/'' @ join_with ''/'' (ipv6Nibbles ip))"

definition reverseKey :: "IP \<Rightarrow> string" where
  "reverseKey ip =
     (case ipv4Parts ip of
        Some p \<Rightarrow> join_with ''/'' ((SKY_DNS_PREFIX @ ''/arpa/in-addr'') # p)
      | None \<Rightarrow> SKY_DNS_PREFIX @ ''/arpa/ip6/'' @ join_with ''/'' (ipv6Nibbles ip))"

subsection \<open>Remaining life time\<close>

text \<open>\<open>now\<close> is the reading of \<open>time.Now().Unix()\<close> the call makes.\<close>

definition remainingSeconds :: "int64 \<Rightarrow> int64 \<Rightarrow> int64" where
  "remainingSeconds now exp =
     (if exp = 0 then 0
      else let remaining = wrap64 (exp - now) in if remaining < 0 then 0 else remaining)"

subsection \<open>Small formatting helpers\<close>

definition formatStr :: "string \<Rightarrow> string" where
  "formatStr s = (if s = [] then ''[]'' else s)"

definition dashLine :: "nat \<Rightarrow> string" where
  "dashLine width = replicate width CHR ''-''"

section \<open>The printer stays inside its buffer\<close>

lemma byte_char_digit: "unat (d :: byte) < 10 \<Longrightarrow> byte_char (48 + d) = digit_char (unat d)"
  by (simp add: byte_char_def digit_char_def unat_word_ariths)

lemma byte_char_dot: "byte_char 46 = CHR ''.''"
  by (simp add: byte_char_def char_of_def bit_iff_odd)

lemma unat_byte_div_mod:
  "unat (v div 100 :: byte) = unat v div 100" "unat (v div 10 :: byte) = unat v div 10"
  "unat (v div 10 mod 10 :: byte) = unat v div 10 mod 10" "unat (v mod 10 :: byte) = unat v mod 10"
  by (simp_all add: unat_div unat_mod)

lemma dec_unat_byte:
  "map byte_char
     (if 100 \<le> v then [48 + v div 100, 48 + v div 10 mod 10, 48 + v mod 10]
      else if 10 \<le> v then [48 + v div 10, 48 + v mod 10] else [48 + v]) = dec (unat v)"
proof -
  have "unat v div 100 < 10" using unat_byte_less [of v] by linarith
  then show ?thesis
    by (auto simp: dec_byte byte_char_digit unat_byte_div_mod word_le_nat_alt)
qed

lemma buf_write_Some:
  "i < length buf \<Longrightarrow> buf_write buf i v = Some (buf[i := v])"
  by (simp add: buf_write_def)

lemma take_Suc_update: "i < length xs \<Longrightarrow> take (Suc i) (xs[i := v]) = take i xs @ [v]"
  by (simp add: take_Suc_conv_app_nth)

lemma appendUint8_spec:
  assumes "pos + 3 \<le> length buf"
  shows "\<exists>buf'. appendUint8 buf pos v = Some (buf', length (dec (unat v))) \<and>
    length buf' = length buf \<and>
    map byte_char (take (pos + length (dec (unat v))) buf') =
      map byte_char (take pos buf) @ dec (unat v)"
proof -
  have upd: "take (pos + 2) (xs[pos := a, Suc pos := b]) = take pos xs @ [a, b]"
    "take (pos + 3) (xs[pos := a, Suc pos := b, Suc (Suc pos) := c]) = take pos xs @ [a, b, c]"
    if "length xs = length buf" for xs :: "byte list" and a b c
    using that assms by (simp_all add: numeral_eq_Suc take_Suc_update)
  show ?thesis
    using assms upd [OF refl] take_Suc_update [of pos buf]
    unfolding dec_unat_byte [symmetric]
    by (auto simp: appendUint8_def buf_write_Some Let_def numeral_eq_Suc)
qed

lemma length_dec_byte: "length (dec (unat (v :: byte))) \<le> 3"
  by (simp add: dec_byte)

text \<open>One octet and the dot after it.\<close>

lemma appendUint8_dot:
  assumes "pos + 4 \<le> length buf"
  obtains buf1 buf2 where
    "appendUint8 buf pos v = Some (buf1, length (dec (unat v)))"
    "buf_write buf1 (pos + length (dec (unat v))) 46 = Some buf2"
    "length buf2 = length buf"
    "map byte_char (take (pos + length (dec (unat v)) + 1) buf2) =
       map byte_char (take pos buf) @ dec (unat v) @ ''.''"
proof -
  let ?k = "length (dec (unat v))"
  obtain buf1 where b: "appendUint8 buf pos v = Some (buf1, ?k)" "length buf1 = length buf"
      "map byte_char (take (pos + ?k) buf1) = map byte_char (take pos buf) @ dec (unat v)"
    using appendUint8_spec [of pos buf v] assms by auto
  have "pos + ?k < length buf1" using assms b(2) length_dec_byte [of v] by linarith
  then have "map byte_char (take (pos + ?k + 1) (buf1[pos + ?k := 46])) =
      map byte_char (take pos buf) @ dec (unat v) @ ''.''"
    using b(3) by (simp add: take_Suc_update byte_char_dot)
  with b \<open>pos + ?k < length buf1\<close> that show thesis by (simp add: buf_write_Some)
qed

lemma Uint32ToIPv4Str_buf_eq: "Uint32ToIPv4Str_buf n = Some (Uint32ToIPv4 n)"
proof -
  define a :: byte where "a = ucast (drop_bit 24 n)"
  define b :: byte where "b = ucast (drop_bit 16 n)"
  define c :: byte where "c = ucast (drop_bit 8 n)"
  define d :: byte where "d = ucast n"
  note la = length_dec_byte [of a] and lb = length_dec_byte [of b] and lc = length_dec_byte [of c]
  obtain a1 a2 where A: "appendUint8 (replicate 15 0) 0 a = Some (a1, length (dec (unat a)))"
      "buf_write a1 (0 + length (dec (unat a))) 46 = Some a2" "length a2 = 15"
      "map byte_char (take (0 + length (dec (unat a)) + 1) a2) = dec (unat a) @ ''.''"
    by (rule appendUint8_dot [of 0 "replicate 15 0" a]) simp_all
  let ?p = "length (dec (unat a)) + 1"
  obtain b1 b2 where B: "appendUint8 a2 ?p b = Some (b1, length (dec (unat b)))"
      "buf_write b1 (?p + length (dec (unat b))) 46 = Some b2" "length b2 = 15"
      "map byte_char (take (?p + length (dec (unat b)) + 1) b2) =
         map byte_char (take ?p a2) @ dec (unat b) @ ''.''"
    by (rule appendUint8_dot [of ?p a2 b]) (use A(3) la in simp_all)
  let ?q = "?p + length (dec (unat b)) + 1"
  obtain c1 c2 where C: "appendUint8 b2 ?q c = Some (c1, length (dec (unat c)))"
      "buf_write c1 (?q + length (dec (unat c))) 46 = Some c2" "length c2 = 15"
      "map byte_char (take (?q + length (dec (unat c)) + 1) c2) =
         map byte_char (take ?q b2) @ dec (unat c) @ ''.''"
    by (rule appendUint8_dot [of ?q b2 c]) (use B(3) la lb in simp_all)
  let ?r = "?q + length (dec (unat c)) + 1"
  obtain d1 where D: "appendUint8 c2 ?r d = Some (d1, length (dec (unat d)))"
      "map byte_char (take (?r + length (dec (unat d))) d1) = map byte_char (take ?r c2) @ dec (unat d)"
    using appendUint8_spec [of ?r c2 d] C(3) la lb lc by auto
  from A B C D show ?thesis
    by (simp add: Uint32ToIPv4Str_buf_def Uint32ToIPv4_def a_def b_def c_def d_def Let_def)
qed

lemma Uint32ToIPv4Str_eq: "Uint32ToIPv4Str n = Uint32ToIPv4 n"
  by (simp add: Uint32ToIPv4Str_def Uint32ToIPv4Str_buf_eq)

lemma Uint32ToIPv4_string4: "Uint32ToIPv4 n = string4 (Uint32ToIPv4Bytes n)"
  by (simp add: Uint32ToIPv4_def Uint32ToIPv4Bytes_def string4_def)

section \<open>Parsing inverts printing\<close>

text \<open>The loop reads one decimal octet of a byte as its value.\<close>

lemma octet_step:
  "d < 10 \<Longrightarrow> v * 10 + d \<le> 255 \<Longrightarrow>
   IPv4StrToUint32_loop (digit_char d # cs) result (of_nat v) dots =
   IPv4StrToUint32_loop cs result (of_nat (v * 10 + d)) dots"
proof -
  assume d: "d < 10" and v: "v * 10 + d \<le> 255"
  have e: "(of_nat v * 10 + of_nat d :: uint32) = of_nat (v * 10 + d)" by simp
  have "\<not> (of_nat (v * 10 + d) :: uint32) > 255"
    using v by (simp only: word_less_nat_alt unat_of_nat) simp
  with d e show ?thesis by (simp add: Let_def del: of_nat_add of_nat_mult)
qed

lemma IPv4StrToUint32_loop_octet:
  assumes n: "n < 256"
  shows "IPv4StrToUint32_loop (dec n @ rest) result 0 dots =
    IPv4StrToUint32_loop rest result (of_nat n) dots"
proof -
  have z: "(0 :: uint32) = of_nat 0" by simp
  consider "n < 10" | "10 \<le> n" "n < 100" | "100 \<le> n" by linarith
  then show ?thesis
  proof cases
    case 1
    with octet_step [of n 0 rest result dots] n show ?thesis
      by (simp add: dec_small del: IPv4StrToUint32_loop.simps(2))
  next
    case 2
    with octet_step [of "n div 10" 0 "digit_char (n mod 10) # rest" result dots]
      octet_step [of "n mod 10" "n div 10" rest result dots] n div_mult_mod_eq [of n 10]
    show ?thesis by (simp add: dec_byte del: IPv4StrToUint32_loop.simps(2) div_mult_mod_eq)
  next
    case 3
    have b: "n div 100 * 10 + n div 10 mod 10 \<le> 255" "n div 100 < 10"
      using 3 n decimal_digits [of n] by linarith+
    from 3 n b decimal_digits [of n]
      octet_step [of "n div 100" 0 "digit_char (n div 10 mod 10) # digit_char (n mod 10) # rest" result dots]
      octet_step [of "n div 10 mod 10" "n div 100" "digit_char (n mod 10) # rest" result dots]
      octet_step [of "n mod 10" "n div 100 * 10 + n div 10 mod 10" rest result dots]
    show ?thesis by (simp add: dec_byte del: IPv4StrToUint32_loop.simps(2))
  qed
qed

lemma IPv4StrToUint32_loop_dot:
  "dots \<noteq> 3 \<Longrightarrow> IPv4StrToUint32_loop (CHR ''.'' # cs) result octet dots =
   IPv4StrToUint32_loop cs (push_bit 8 result OR octet) 0 (dots + 1)"
  by simp

lemma IPv4StrToUint32_loop_dot3: "IPv4StrToUint32_loop (CHR ''.'' # cs) result octet 3 = None"
  by simp

lemma of_nat_unat_byte: "(of_nat (unat (b :: byte)) :: uint32) = ucast b"
  by (simp add: unsigned_ucast_eq flip: unsigned_of_nat)

lemma IPv4StrToUint32_string4:
  "IPv4StrToUint32 (string4 [a, b, c, d]) =
   push_bit 24 (ucast a) OR push_bit 16 (ucast b) OR push_bit 8 (ucast c) OR ucast d"
proof -
  have "IPv4StrToUint32 (string4 [a, b, c, d]) =
      push_bit 8 (push_bit 8 (push_bit 8 (push_bit 8 0 OR ucast a) OR ucast b) OR ucast c) OR ucast d"
    using IPv4StrToUint32_loop_octet [OF unat_byte_less [of d], of "[]"]
    by (simp add: IPv4StrToUint32_def string4_def IPv4StrToUint32_loop_octet of_nat_unat_byte
        IPv4StrToUint32_loop_dot del: IPv4StrToUint32_loop.simps(2))
  then show ?thesis by (simp add: push_bit_or or.assoc)
qed

lemma uint32_bytes:
  "push_bit 24 (ucast (ucast (drop_bit 24 n) :: byte)) OR
   push_bit 16 (ucast (ucast (drop_bit 16 n) :: byte)) OR
   push_bit 8 (ucast (ucast (drop_bit 8 n) :: byte)) OR
   ucast (ucast n :: byte) = (n :: uint32)" (is "?w = n")
proof (rule bit_word_eqI)
  fix i
  assume "i < LENGTH(32)"
  then consider "i < 8" | "8 \<le> i" "i < 16" | "16 \<le> i" "i < 24" | "24 \<le> i" "i < 32"
    by fastforce
  then show "bit ?w i = bit n i"
    by cases (auto simp: bit_or_iff bit_push_bit_iff bit_unsigned_iff bit_drop_bit_eq)
qed

lemma IPv4StrToUint32_Uint32ToIPv4: "IPv4StrToUint32 (Uint32ToIPv4 n) = n"
  by (simp add: Uint32ToIPv4_string4 Uint32ToIPv4Bytes_def IPv4StrToUint32_string4 uint32_bytes)

lemma IPv4BytesToUint32_bytes: "IPv4BytesToUint32 (Uint32ToIPv4Bytes n) = Some n"
  by (simp add: Uint32ToIPv4Bytes_def uint32_bytes)

section \<open>What \<open>IPv4StrToUint32\<close> accepts\<close>

text \<open>An octet is a possibly empty string of digits whose value fits a byte.\<close>

definition octet_ok :: "string \<Rightarrow> bool" where
  "octet_ok p \<longleftrightarrow> list_all is_digit p \<and> dec_value p \<le> 255"

lemma dec_value_snoc_le: "dec_value p \<le> dec_value (p @ q)"
proof (induction q rule: rev_induct)
  case (snoc c q)
  have "dec_value (p @ q) \<le> dec_value (p @ q @ [c])"
    using dec_value_append [of "p @ q" c] by simp
  with snoc show ?case by linarith
qed simp

lemma octet_ok_snoc: "octet_ok (p @ [c]) \<Longrightarrow> octet_ok p"
  using dec_value_snoc_le [of p "[c]"] by (simp add: octet_ok_def)

text \<open>After the digits \<open>p\<close> of the current octet, the loop goes on with the rest \<open>q\<close> of
  its part: it survives exactly when the whole part is an octet.\<close>

lemma IPv4StrToUint32_loop_part:
  "octet_ok p \<Longrightarrow> CHR ''.'' \<notin> set q \<Longrightarrow>
   IPv4StrToUint32_loop (q @ rest) result (of_nat (dec_value p)) dots =
   (if octet_ok (p @ q) then IPv4StrToUint32_loop rest result (of_nat (dec_value (p @ q))) dots else None)"
proof (induction q arbitrary: p)
  case Nil
  then show ?case by simp
next
  case (Cons c q)
  show ?case
  proof (cases "is_digit c")
    case False
    with Cons.prems show ?thesis by (auto simp: octet_ok_def)
  next
    case True
    let ?v = "dec_value p * 10 + digit_val c"
    have v: "dec_value (p @ [c]) = ?v" by (simp add: dec_value_append)
    have small: "dec_value p \<le> 255" "digit_val c < 10"
      using Cons.prems(1) True by (simp_all add: octet_ok_def digit_val_less)
    then have "?v < 2 ^ 32" by simp
    then have gt: "(of_nat ?v :: uint32) > 255 \<longleftrightarrow> 255 < ?v"
      by (simp only: word_less_nat_alt unat_of_nat) simp
    have e: "(of_nat (dec_value p) * 10 + of_nat (digit_val c) :: uint32) = of_nat ?v" by simp
    show ?thesis
    proof (cases "255 < ?v")
      case big: True
      then have "\<not> octet_ok ((p @ [c]) @ q)"
        using dec_value_snoc_le [of "p @ [c]" q] by (auto simp: octet_ok_def v)
      with True gt e big show ?thesis by (simp add: Let_def del: of_nat_add of_nat_mult)
    next
      case ok: False
      then have "octet_ok (p @ [c])" using Cons.prems(1) True v by (simp add: octet_ok_def)
      from Cons.IH [OF this] Cons.prems(2) True gt e ok v show ?thesis
        by (simp add: Let_def del: of_nat_add of_nat_mult)
    qed
  qed
qed

lemma octet_ok_Nil [simp]: "octet_ok []"
  by (simp add: octet_ok_def dec_value_def)

lemma IPv4StrToUint32_loop_join:
  assumes "ps \<noteq> []" "\<forall>p \<in> set ps. CHR ''.'' \<notin> set p" "dots \<le> 3"
  shows "IPv4StrToUint32_loop (join_with ''.'' ps) result 0 dots =
    (if list_all octet_ok ps \<and> dots + length ps \<le> 4
     then Some (foldl (\<lambda>r p. push_bit 8 r OR of_nat (dec_value p)) result (butlast ps),
                of_nat (dec_value (last ps)), dots + length ps - 1)
     else None)"
  using assms
proof (induction ps arbitrary: result dots)
  case (Cons p ps)
  have part: "IPv4StrToUint32_loop (p @ rest) result 0 dots =
      (if octet_ok p then IPv4StrToUint32_loop rest result (of_nat (dec_value p)) dots else None)" for rest
    using IPv4StrToUint32_loop_part [of "[]" p rest result dots] Cons.prems(2)
    by (simp add: dec_value_def)
  show ?case
  proof (cases "ps = []")
    case True
    with part [of "[]"] Cons.prems(3) show ?thesis by simp
  next
    case False
    with part Cons.prems Cons.IH [OF False, of "dots + 1"] show ?thesis
      by (cases "dots = 3")
         (auto simp: join_with_Cons IPv4StrToUint32_loop_dot neq_Nil_conv IPv4StrToUint32_loop_dot3
           simp del: IPv4StrToUint32_loop.simps(2))
  qed
qed simp

lemma IPv4StrToUint32_reject:
  "\<not> (length (split_on CHR ''.'' s) = 4 \<and> list_all octet_ok (split_on CHR ''.'' s)) \<Longrightarrow>
   IPv4StrToUint32 s = 0"
  using IPv4StrToUint32_loop_join [of "split_on CHR ''.'' s" 0 0]
  by (auto simp: IPv4StrToUint32_def join_split_on split_on_parts split: if_splits)

section \<open>Keys determine addresses\<close>

text \<open>The path components of an address below its prefix: four decimal octets, or 32 nibbles.\<close>

definition ip_parts :: "IP \<Rightarrow> string list" where
  "ip_parts ip = (case ipv4Parts ip of Some p \<Rightarrow> p | None \<Rightarrow> ipv6Nibbles ip)"

lemma of_char_hex_digit: "n < 16 \<Longrightarrow> of_char (hex_digit n) = (if n < 10 then 48 + n else 87 + n :: nat)"
  by (simp add: hex_digit_def)

lemma hex_digit_inj: "m < 16 \<Longrightarrow> n < 16 \<Longrightarrow> hex_digit m = hex_digit n \<longleftrightarrow> m = n"
proof
  assume "m < 16" "n < 16" "hex_digit m = hex_digit n"
  then have "(of_char (hex_digit m) :: nat) = of_char (hex_digit n)" by simp
  with \<open>m < 16\<close> \<open>n < 16\<close> show "m = n" by (simp add: of_char_hex_digit split: if_splits)
qed simp

lemma hex_digit_not_slash: "n < 16 \<Longrightarrow> hex_digit n \<noteq> CHR ''/''"
proof
  assume "n < 16" "hex_digit n = CHR ''/''"
  then have "(of_char (hex_digit n) :: nat) = of_char CHR ''/''" by simp
  with \<open>n < 16\<close> show False by (simp add: of_char_hex_digit split: if_splits)
qed

lemma unat_byte_nibbles: "unat (b :: byte) div 16 < 16" "unat b mod 16 < 16"
  using unat_byte_less [of b] by linarith+

lemma hex_encode_Nil [simp]: "hex_encode [] = []"
  by (simp add: hex_encode_def)

lemma hex_encode_Cons [simp]:
  "hex_encode (b # bs) = hex_digit (unat b div 16) # hex_digit (unat b mod 16) # hex_encode bs"
  by (simp add: hex_encode_def)

lemma length_hex_encode [simp]: "length (hex_encode bs) = 2 * length bs"
  by (induction bs) simp_all

lemma hex_encode_inj: "hex_encode a = hex_encode b \<Longrightarrow> a = b"
proof (induction a arbitrary: b)
  case Nil
  then show ?case by (cases b) simp_all
next
  case (Cons x a)
  then obtain y b' where b: "b = y # b'" by (cases b) simp_all
  with Cons.prems have "unat x div 16 = unat y div 16" "unat x mod 16 = unat y mod 16"
    by (simp_all add: hex_digit_inj unat_byte_nibbles)
  then have "unat x = unat y" by (metis div_mult_mod_eq)
  with Cons b show ?case by (simp add: unsigned_word_eqI)
qed

lemma slash_notin_hex_encode: "CHR ''/'' \<notin> set (hex_encode bs)"
  by (induction bs) (auto simp: hex_digit_not_slash unat_byte_nibbles dest: sym)

lemma ip_parts_v4: "To4 ip = Some p \<Longrightarrow> ip_parts ip = map (\<lambda>b. dec (unat b)) p"
  by (simp add: ip_parts_def ipv4Parts_def)

lemma ip_parts_v6:
  "length ip = 16 \<Longrightarrow> To4 ip = None \<Longrightarrow> ip_parts ip = map (\<lambda>c. [c]) (hex_encode ip)"
  by (simp add: ip_parts_def ipv4Parts_def ipv6Nibbles_def To16_def)

lemma ip_parts_no_slash: "length ip = 16 \<Longrightarrow> \<forall>p \<in> set (ip_parts ip). CHR ''/'' \<notin> set p"
  using slash_notin_hex_encode [of ip]
  by (cases "To4 ip") (auto simp: ip_parts_v4 ip_parts_v6)

lemma length_ip_parts:
  "length ip = 16 \<Longrightarrow> length (ip_parts ip) = (if To4 ip = None then 32 else 4)"
  by (cases "To4 ip") (auto simp: ip_parts_v4 ip_parts_v6 dest: To4_Some)

lemma ip_parts_nonempty: "length ip = 16 \<Longrightarrow> ip_parts ip \<noteq> []"
  using length_ip_parts [of ip] by (auto split: if_splits)

lemma map_dec_unat_inj: "map (\<lambda>b :: byte. dec (unat b)) p = map (\<lambda>b. dec (unat b)) q \<Longrightarrow> p = q"
  by (rule map_injective) (auto simp: inj_def intro: unsigned_word_eqI)

lemma ip_parts_inj:
  assumes a: "length a = 16" and b: "length b = 16" and eq: "ip_parts a = ip_parts b"
  shows "a = b"
proof (cases "To4 a")
  case None
  with a b eq length_ip_parts [of a] length_ip_parts [of b] have "To4 b = None"
    by (auto split: if_splits)
  with None a b eq have "map (\<lambda>c. [c]) (hex_encode a) = map (\<lambda>c. [c]) (hex_encode b)"
    by (simp add: ip_parts_v6)
  then have "hex_encode a = hex_encode b" by (rule map_injective) (simp add: inj_def)
  then show ?thesis by (rule hex_encode_inj)
next
  case (Some p)
  with a b eq length_ip_parts [of a] length_ip_parts [of b] obtain q where q: "To4 b = Some q"
    by (auto split: if_splits)
  with Some eq have "p = q" by (simp add: ip_parts_v4 map_dec_unat_inj)
  with Some q a b show ?thesis by (simp add: To4_16)
qed

lemma rblKey_parts: "length ip = 16 \<Longrightarrow> rblKey ip = rblPrefixScan @ join_with ''/'' (ip_parts ip)"
  using ip_parts_nonempty [of ip]
  by (auto simp: rblKey_def ip_parts_def rblPrefixScan_def join_with_Cons split: option.splits)

lemma join_slash_inj:
  assumes "length a = 16" "length b = 16"
    and "join_with ''/'' (ip_parts a) = join_with ''/'' (ip_parts b)"
  shows "a = b"
proof -
  have "split_on CHR ''/'' (join_with ''/'' (ip_parts a)) = ip_parts a"
    "split_on CHR ''/'' (join_with ''/'' (ip_parts b)) = ip_parts b"
    using assms(1,2) by (simp_all add: split_on_join ip_parts_nonempty ip_parts_no_slash)
  with assms(3) have "ip_parts a = ip_parts b" by metis
  with assms(1,2) show ?thesis by (rule ip_parts_inj)
qed

lemma rblKey_inj: "length a = 16 \<Longrightarrow> length b = 16 \<Longrightarrow> rblKey a = rblKey b \<longleftrightarrow> a = b"
  by (auto simp: rblKey_parts intro: join_slash_inj)

lemma reverseKey_v4:
  "length ip = 16 \<Longrightarrow> To4 ip \<noteq> None \<Longrightarrow>
   reverseKey ip = ''/skydns/arpa/in-addr/'' @ join_with ''/'' (ip_parts ip)"
  using ip_parts_nonempty [of ip]
  by (auto simp: reverseKey_def ip_parts_def ipv4Parts_def SKY_DNS_PREFIX_def join_with_Cons)

lemma reverseKey_v6:
  "To4 ip = None \<Longrightarrow> reverseKey ip = ''/skydns/arpa/ip6/'' @ join_with ''/'' (ip_parts ip)"
  by (auto simp: reverseKey_def ip_parts_def ipv4Parts_def SKY_DNS_PREFIX_def)

lemma reverseKey_inj: "length a = 16 \<Longrightarrow> length b = 16 \<Longrightarrow> reverseKey a = reverseKey b \<longleftrightarrow> a = b"
  by (cases "To4 a"; cases "To4 b")
     (auto simp: reverseKey_v4 reverseKey_v6 intro: join_slash_inj)

lemma rblKey_neq_reverseKey: "length a = 16 \<Longrightarrow> length b = 16 \<Longrightarrow> rblKey a \<noteq> reverseKey b"
  by (cases "To4 b")
     (auto simp: rblKey_parts reverseKey_v4 reverseKey_v6 rblPrefixScan_def rblPrefix_def SKY_DNS_PREFIX_def)

section \<open>Properties\<close>

text \<open>C26: The allocation-free printer \<open>Uint32ToIPv4Str\<close> is correct for all \<open>2 ^ 32\<close> values:
  it never writes outside its 15-byte buffer, prints what the formatting printer
  \<open>Uint32ToIPv4\<close> prints, and \<open>IPv4StrToUint32\<close> reads the value back.\<close>

theorem ipv4_print_parse:
  "Uint32ToIPv4Str_buf n = Some (Uint32ToIPv4 n) \<and> Uint32ToIPv4Str n = Uint32ToIPv4 n \<and>
   IPv4StrToUint32 (Uint32ToIPv4Str n) = n \<and> IPv4BytesToUint32 (Uint32ToIPv4Bytes n) = Some n"
  by (simp add: Uint32ToIPv4Str_buf_eq Uint32ToIPv4Str_eq IPv4StrToUint32_Uint32ToIPv4
      IPv4BytesToUint32_bytes)

text \<open>C34: What \<open>IPv4StrToUint32\<close> accepts, exactly. A text of four dot-separated parts, each a
  (possibly empty) run of digits with value at most 255, yields the four octets in network
  order; every other text yields 0. An empty part counts as octet 0, contrary to the comment
  of the function.\<close>

theorem ipv4_parse_exact:
  "IPv4StrToUint32 s =
   (case split_on CHR ''.'' s of
      [a, b, c, d] \<Rightarrow>
        if octet_ok a \<and> octet_ok b \<and> octet_ok c \<and> octet_ok d
        then push_bit 8 (push_bit 8 (push_bit 8 (of_nat (dec_value a)) OR of_nat (dec_value b))
               OR of_nat (dec_value c)) OR of_nat (dec_value d)
        else 0
    | _ \<Rightarrow> 0)"
proof -
  have parts: "\<forall>p \<in> set (split_on CHR ''.'' s). CHR ''.'' \<notin> set p" by (simp add: split_on_parts)
  note join = IPv4StrToUint32_loop_join [OF split_on_nonempty parts, of 0 0, unfolded join_split_on]
  show ?thesis
  proof (cases "length (split_on CHR ''.'' s) = 4")
    case True
    then obtain a b c d where "split_on CHR ''.'' s = [a, b, c, d]"
      by (auto simp: numeral_eq_Suc length_Suc_conv)
    with join show ?thesis by (auto simp: IPv4StrToUint32_def)
  next
    case False
    then have "IPv4StrToUint32 s = 0" by (simp add: IPv4StrToUint32_reject)
    moreover have "\<And>a b c d. split_on CHR ''.'' s \<noteq> [a, b, c, d]" using False by auto
    ultimately show ?thesis by (simp split: list.splits)
  qed
qed

end
