(* ===== verification/IpText.thy ===== *)
theory IpText
  imports Helpers
begin

text \<open>
  Canonical texts of addresses and networks. The tables are keyed by text, so the program
  depends on \<open>IP.String\<close> and \<open>IPNet.String\<close> being faithful: parsing the printed form of an
  address gives the address back, for both families, and the printed form of a parsed network
  parses to the same network. Membership in a network is equality of the leading bits.
\<close>

section \<open>Reading one group\<close>

lemma hex_val_hex_digit: "d < 16 \<Longrightarrow> hex_val (hex_digit d) = Some d"
  by (simp add: hex_val_def of_char_hex_digit Let_def)

lemma scan_hex_digit:
  "d < 16 \<Longrightarrow> off \<le> 3 \<Longrightarrow> acc * 16 + d \<le> 65535 \<Longrightarrow>
   scan_hex (hex_digit d # cs) off acc = scan_hex cs (Suc off) (acc * 16 + d)"
  by (simp add: hex_val_hex_digit)

definition no_hex :: "string \<Rightarrow> bool" where
  "no_hex rest \<longleftrightarrow> (case rest of [] \<Rightarrow> True | c # cs \<Rightarrow> hex_val c = None)"

lemma scan_hex_stop: "no_hex rest \<Longrightarrow> scan_hex rest off acc = Some (off, acc, rest)"
  by (cases rest) (simp_all add: no_hex_def)

lemma hex_digits_value:
  fixes g :: nat
  shows "((g div 4096 * 16 + g div 256 mod 16) * 16 + g div 16 mod 16) * 16 + g mod 16 = g"
    "(g div 256 * 16 + g div 16 mod 16) * 16 + g mod 16 = g"
    "g div 16 * 16 + g mod 16 = g"
    "g div 4096 * 16 + g div 256 mod 16 = g div 256"
    "g div 256 * 16 + g div 16 mod 16 = g div 16"
proof -
  show a: "g div 4096 * 16 + g div 256 mod 16 = g div 256"
    using div_mult_mod_eq [of "g div 256" 16] by (simp add: div_mult2_eq [symmetric])
  show b: "g div 256 * 16 + g div 16 mod 16 = g div 16"
    using div_mult_mod_eq [of "g div 16" 16] by (simp add: div_mult2_eq [symmetric])
  show "g div 16 * 16 + g mod 16 = g" by simp
  show "(g div 256 * 16 + g div 16 mod 16) * 16 + g mod 16 = g" by (simp only: b) simp
  show "((g div 4096 * 16 + g div 256 mod 16) * 16 + g div 16 mod 16) * 16 + g mod 16 = g"
    by (simp only: a b) simp
qed

lemma scan_hex_appendHex:
  assumes "g < 65536" "no_hex rest"
  shows "scan_hex (appendHex g @ rest) 0 0 = Some (length (appendHex g), g, rest)"
proof -
  have d: "g mod 16 < 16" "g div 16 mod 16 < 16" "g div 256 mod 16 < 16" by simp_all
  have le: "g div 256 \<le> 65535" "g div 16 \<le> 65535" "g div 4096 \<le> 65535" "g div 4096 < 16"
    using assms(1) by linarith+
  consider "g < 16" | "16 \<le> g" "g < 256" | "256 \<le> g" "g < 4096" | "4096 \<le> g" by linarith
  then show ?thesis
  proof cases
    case 1
    then show ?thesis
      using assms d by (simp add: appendHex_def scan_hex_digit scan_hex_stop del: scan_hex.simps(2))
  next
    case 2
    then have "g div 16 mod 16 = g div 16" by simp
    with 2 show ?thesis
      using assms d hex_digits_value(3) [of g]
      by (simp add: appendHex_def scan_hex_digit scan_hex_stop del: scan_hex.simps(2))
  next
    case 3
    then have "g div 256 mod 16 = g div 256" "g div 256 < 16" by simp_all
    with 3 show ?thesis
      using assms d le hex_digits_value(2,5) [of g]
      by (simp add: appendHex_def scan_hex_digit scan_hex_stop del: scan_hex.simps(2))
  next
    case 4
    have "scan_hex (hex_digit (g div 256 mod 16) # cs) (Suc 0) (g div 4096) =
        scan_hex cs (Suc (Suc 0)) (g div 256)"
      "scan_hex (hex_digit (g div 16 mod 16) # cs) (Suc (Suc 0)) (g div 256) =
        scan_hex cs (Suc (Suc (Suc 0))) (g div 16)"
      "scan_hex (hex_digit (g mod 16) # cs) (Suc (Suc (Suc 0))) (g div 16) =
        scan_hex cs (Suc (Suc (Suc (Suc 0)))) g" for cs
      using scan_hex_digit [of "g div 256 mod 16" "Suc 0" "g div 4096" cs, unfolded hex_digits_value(4)]
        scan_hex_digit [of "g div 16 mod 16" "Suc (Suc 0)" "g div 256" cs, unfolded hex_digits_value(5)]
        scan_hex_digit [of "g mod 16" "Suc (Suc (Suc 0))" "g div 16" cs, unfolded hex_digits_value(3)]
        d le assms(1)
      by (simp_all del: scan_hex.simps(2))
    with 4 le show ?thesis
      using assms(2) scan_hex_digit [of "g div 4096" 0 0]
      by (simp add: appendHex_def scan_hex_stop del: scan_hex.simps(2))
  qed
qed

section \<open>Reading the groups\<close>

definition group_bytes :: "nat list \<Rightarrow> byte list" where
  "group_bytes gs = concat (map (\<lambda>g. [of_nat (g div 256), of_nat g]) gs)"

lemma group_bytes_simps [simp]:
  "group_bytes [] = []"
  "group_bytes (g # gs) = of_nat (g div 256) # of_nat g # group_bytes gs"
  "group_bytes (gs @ hs) = group_bytes gs @ group_bytes hs"
  by (simp_all add: group_bytes_def)

lemma length_group_bytes [simp]: "length (group_bytes gs) = 2 * length gs"
  by (induction gs) simp_all

lemma appendHex_nonempty [simp]: "appendHex g \<noteq> []" "0 < length (appendHex g)"
  by (simp_all add: appendHex_def)

lemma colon_stops: "no_hex (CHR '':'' # cs)" "no_hex []"
  by (simp_all add: no_hex_def hex_val_def)

lemma parseIPv6_loop_group:
  assumes "g < 65536" "length ip < 16" "no_hex rest" "rest = [] \<or> hd rest \<noteq> CHR ''.''"
  shows "parseIPv6_loop (appendHex g @ rest) ip e =
    (let ip' = ip @ [of_nat (g div 256), of_nat g] in
     if rest = [] then Some ([], ip', e)
     else if hd rest \<noteq> CHR '':'' then None
     else if tl rest = [] then None
     else if hd (tl rest) = CHR '':'' then
       if e \<noteq> None then None
       else if tl (tl rest) = [] then Some ([], ip', Some (length ip'))
       else parseIPv6_loop (tl (tl rest)) ip' (Some (length ip'))
     else parseIPv6_loop (tl rest) ip' e)"
  using assms(2,4)
  by (subst parseIPv6_loop.simps) (auto simp: scan_hex_appendHex [OF assms(1,3)] Let_def)

lemma hd_appendHex_append: "hd (appendHex g @ s) = hd (appendHex g)"
  by simp

lemma hex_digit_not_punct: "n < 16 \<Longrightarrow> hex_digit n \<notin> {CHR '':'', CHR ''.'', CHR ''%'', CHR ''/'', CHR ''_''}"
proof
  assume "n < 16" "hex_digit n \<in> {CHR '':'', CHR ''.'', CHR ''%'', CHR ''/'', CHR ''_''}"
  then have "(of_char (hex_digit n) :: nat) \<in> {58, 46, 37, 47, 95}" by auto
  with \<open>n < 16\<close> show False by (auto simp: of_char_hex_digit split: if_splits)
qed

lemma set_appendHex: "g < 65536 \<Longrightarrow> set (appendHex g) \<subseteq> hex_digit ` {..<16}"
  by (auto simp: appendHex_def)

lemma punct_notin_appendHex:
  assumes "g < 65536"
  shows "CHR '':'' \<notin> set (appendHex g)" "CHR ''.'' \<notin> set (appendHex g)"
    "CHR ''%'' \<notin> set (appendHex g)" "CHR ''/'' \<notin> set (appendHex g)" "CHR ''_'' \<notin> set (appendHex g)"
  using set_appendHex [OF assms] hex_digit_not_punct by force+

lemma set_join_appendHex:
  assumes "\<forall>g \<in> set gs. g < 65536"
  shows "set (join_with '':'' (map appendHex gs)) \<subseteq> insert CHR '':'' (hex_digit ` {..<16})"
proof -
  have "\<Union> (set ` set (map appendHex gs)) \<subseteq> hex_digit ` {..<16}"
    using assms set_appendHex by (simp add: UN_subset_iff)
  with set_join_with [of "'':''" "map appendHex gs"] show ?thesis by auto
qed

lemma punct_notin_join:
  assumes "\<forall>g \<in> set gs. g < 65536"
  shows "CHR ''%'' \<notin> set (join_with '':'' (map appendHex gs))"
    "CHR ''.'' \<notin> set (join_with '':'' (map appendHex gs))"
    "CHR ''/'' \<notin> set (join_with '':'' (map appendHex gs))"
    "CHR ''_'' \<notin> set (join_with '':'' (map appendHex gs))"
proof -
  have "c \<notin> set (join_with '':'' (map appendHex gs))" if c: "c \<in> {CHR ''%'', CHR ''.'', CHR ''/'', CHR ''_''}" for c
  proof
    assume "c \<in> set (join_with '':'' (map appendHex gs))"
    with set_join_appendHex [OF assms] have "c = CHR '':'' \<or> (\<exists>n<16. c = hex_digit n)" by auto
    then have "c \<notin> {CHR ''%'', CHR ''.'', CHR ''/'', CHR ''_''}"
    proof
      assume "\<exists>n<16. c = hex_digit n"
      then obtain n where "n < 16" "c = hex_digit n" by blast
      with hex_digit_not_punct [of n] show ?thesis by simp
    qed simp
    with c show False by blast
  qed
  then show "CHR ''%'' \<notin> set (join_with '':'' (map appendHex gs))"
    "CHR ''.'' \<notin> set (join_with '':'' (map appendHex gs))"
    "CHR ''/'' \<notin> set (join_with '':'' (map appendHex gs))"
    "CHR ''_'' \<notin> set (join_with '':'' (map appendHex gs))"
    by simp_all
qed

lemma hd_join_appendHex:
  assumes "gs \<noteq> []" "\<forall>g \<in> set gs. g < 65536"
  shows "hd (join_with '':'' (map appendHex gs) @ s) \<noteq> CHR '':''"
proof -
  obtain g hs where gs: "gs = g # hs" using assms(1) by (cases gs) auto
  then have "hd (join_with '':'' (map appendHex gs) @ s) = hd (appendHex g)"
    by (cases hs) (simp_all add: join_with_Cons)
  then show ?thesis using punct_notin_appendHex(1) [of g] assms(2) gs by (metis appendHex_nonempty(1) hd_in_set list.set_intros(1))
qed

lemma join_appendHex_nonempty: "gs \<noteq> [] \<Longrightarrow> join_with '':'' (map appendHex gs) \<noteq> []"
  by (cases gs; cases "tl gs") (auto simp: join_with_Cons)

lemma parseIPv6_loop_groups:
  assumes "gs \<noteq> []" "\<forall>g \<in> set gs. g < 65536" "length ip + 2 * length gs \<le> 16"
  shows "parseIPv6_loop (join_with '':'' (map appendHex gs)) ip e = Some ([], ip @ group_bytes gs, e)"
  using assms
proof (induction gs arbitrary: ip)
  case (Cons g gs)
  show ?case
  proof (cases "gs = []")
    case True
    with Cons.prems parseIPv6_loop_group [of g ip "[]" e] show ?thesis
      by (simp add: colon_stops)
  next
    case False
    let ?t = "join_with '':'' (map appendHex gs)"
    have "parseIPv6_loop (appendHex g @ CHR '':'' # ?t) ip e =
        parseIPv6_loop ?t (ip @ [of_nat (g div 256), of_nat g]) e"
      using Cons.prems False hd_join_appendHex [of gs "[]"] join_appendHex_nonempty [of gs]
      by (subst parseIPv6_loop_group) (auto simp: colon_stops Let_def)
    with Cons.IH [OF False] Cons.prems False show ?thesis by (simp add: join_with_Cons)
  qed
qed simp

lemma parseIPv6_loop_ellipsis:
  assumes "gs \<noteq> []" "\<forall>g \<in> set gs. g < 65536" "length ip + 2 * length gs \<le> 16"
  shows "parseIPv6_loop (join_with '':'' (map appendHex gs) @ ''::'' @ t) ip None =
    (let ip' = ip @ group_bytes gs in
     if t = [] then Some ([], ip', Some (length ip'))
     else parseIPv6_loop t ip' (Some (length ip')))"
  using assms
proof (induction gs arbitrary: ip)
  case (Cons g gs)
  show ?case
  proof (cases "gs = []")
    case True
    with Cons.prems parseIPv6_loop_group [of g ip "CHR '':'' # CHR '':'' # t" None] show ?thesis
      by (simp add: colon_stops Let_def)
  next
    case False
    let ?t = "join_with '':'' (map appendHex gs) @ ''::'' @ t"
    have "parseIPv6_loop (appendHex g @ CHR '':'' # ?t) ip None =
        parseIPv6_loop ?t (ip @ [of_nat (g div 256), of_nat g]) None"
      using Cons.prems False hd_join_appendHex [of gs "''::'' @ t"]
      by (subst parseIPv6_loop_group) (auto simp: colon_stops Let_def)
    with Cons.IH [OF False, of "ip @ [of_nat (g div 256), of_nat g]"] Cons.prems False show ?thesis
      by (simp add: join_with_Cons Let_def)
  qed
qed simp

section \<open>Printing and parsing an IPv6 address\<close>

lemma groups16_less: "g \<in> set (groups16 ip) \<Longrightarrow> g < 65536"
proof (induction ip rule: groups16.induct)
  case (1 a b xs)
  have "unat a * 256 + unat b < 65536"
    using unat_byte_less [of a] unat_byte_less [of b] by linarith
  with 1 show ?case by auto
qed simp_all

lemma length_groups16: "length (groups16 ip) = length ip div 2"
  by (induction ip rule: groups16.induct) simp_all

lemma group_bytes_groups16: "even (length ip) \<Longrightarrow> group_bytes (groups16 ip) = ip"
proof (induction ip rule: groups16.induct)
  case (1 a b xs)
  have "(unat a * 256 + unat b) div 256 = unat a" using unat_byte_less [of b] by simp
  moreover have "(256 :: byte) = 0" by simp
  then have "of_nat (unat a * 256 + unat b) = b" by (simp only: of_nat_add of_nat_mult of_nat_numeral) simp
  ultimately show ?case using 1 by simp
qed simp_all

text \<open>The run the printer compresses consists of at least two zero groups.\<close>

definition zero_span :: "nat list \<Rightarrow> nat \<times> nat \<Rightarrow> bool" where
  "zero_span gs ab \<longleftrightarrow> (case ab of (a, b) \<Rightarrow>
     a + 2 \<le> b \<and> b \<le> length gs \<and> (\<forall>i. a \<le> i \<and> i < b \<longrightarrow> gs ! i = 0))"

lemma zero_run_span:
  assumes "i \<le> length gs" "i + 2 \<le> zero_run i gs"
  shows "zero_span gs (i, zero_run i gs)"
proof -
  let ?t = "takeWhile (\<lambda>g. g = 0) (drop i gs)"
  have "length ?t \<le> length gs - i" using length_takeWhile_le [of _ "drop i gs"] by simp
  moreover have "gs ! j = 0" if "i \<le> j" "j < i + length ?t" for j
  proof -
    from that have "j - i < length ?t" by simp
    then have "?t ! (j - i) = drop i gs ! (j - i)" "?t ! (j - i) \<in> set ?t"
      by (rule takeWhile_nth, intro nth_mem)
    moreover from this(2) have "?t ! (j - i) = 0" by (rule set_takeWhileD [THEN conjunct2])
    ultimately have "drop i gs ! (j - i) = 0" by simp
    with that assms(1) show ?thesis by simp
  qed
  ultimately show ?thesis using assms by (auto simp: zero_span_def zero_run_def)
qed

lemma longest_zeros_span:
  assumes "longest_zeros gs is best = Some ab" "\<forall>i \<in> set is. i \<le> length gs"
    "\<forall>p. best = Some p \<longrightarrow> zero_span gs p"
  shows "zero_span gs ab"
  using assms
proof (induction "is" arbitrary: best)
  case (Cons i "is")
  let ?best = "if 2 \<le> zero_run i gs - i \<and> (case best of None \<Rightarrow> 0 | Some (a, b) \<Rightarrow> b - a) < zero_run i gs - i
    then Some (i, zero_run i gs) else best"
  have "longest_zeros gs is ?best = Some ab" using Cons.prems(1) by (simp add: Let_def)
  moreover have "\<forall>p. ?best = Some p \<longrightarrow> zero_span gs p"
    using Cons.prems(2,3) zero_run_span [of i gs] by auto
  ultimately show ?case using Cons.IH Cons.prems(2) by simp
qed simp

lemma zero_span_split:
  assumes "zero_span gs (a, b)"
  shows "gs = take a gs @ replicate (b - a) 0 @ drop b gs"
proof -
  have ab: "a + 2 \<le> b" "b \<le> length gs" and z: "\<And>i. a \<le> i \<Longrightarrow> i < b \<Longrightarrow> gs ! i = 0"
    using assms by (simp_all add: zero_span_def)
  have "take (b - a) (drop a gs) = replicate (b - a) 0"
    by (rule nth_equalityI) (use ab z in auto)
  moreover have "gs = take a gs @ take (b - a) (drop a gs) @ drop b gs"
    using ab by (metis add_diff_inverse_nat append_take_drop_id drop_drop le_add1 le_trans not_le add.commute)
  ultimately show ?thesis by simp
qed

lemma group_bytes_zero: "group_bytes (replicate n 0) = replicate (2 * n) 0"
  by (induction n) simp_all

text \<open>The texts of the two halves around the ellipsis.\<close>

lemma parseIPv6_finish_ellipsis:
  assumes gs: "\<forall>g \<in> set (xs @ ys). g < 65536" "length xs + length ys < 8"
  shows "parseIPv6 (join_with '':'' (map appendHex xs) @ ''::'' @ join_with '':'' (map appendHex ys)) =
    Some (group_bytes xs @ replicate (16 - 2 * (length xs + length ys)) 0 @ group_bytes ys)"
proof -
  let ?x = "join_with '':'' (map appendHex xs)" and ?y = "join_with '':'' (map appendHex ys)"
  have pct: "CHR ''%'' \<notin> set (?x @ ''::'' @ ?y)"
    using punct_notin_join [of xs] punct_notin_join [of ys] gs(1) by simp
  have tail: "parseIPv6_loop ?y (group_bytes xs) (Some (2 * length xs)) =
      Some ([], group_bytes xs @ group_bytes ys, Some (2 * length xs))" if "ys \<noteq> []"
    using parseIPv6_loop_groups [OF that, of "group_bytes xs"] gs by auto
  show ?thesis
  proof (cases "xs = []")
    case True
    with gs pct tail show ?thesis
      by (cases "ys = []") (auto simp: parseIPv6_def parseIPv6_finish_def join_appendHex_nonempty)
  next
    case False
    have "hd (?x @ ''::'' @ ?y) \<noteq> CHR '':''" using hd_join_appendHex [of xs] False gs(1) by auto
    then have "take 2 (?x @ ''::'' @ ?y) \<noteq> ''::''"
      by (cases "?x @ ''::'' @ ?y") auto
    moreover have "parseIPv6_loop (?x @ ''::'' @ ?y) [] None =
        Some ([], group_bytes xs @ group_bytes ys, Some (2 * length xs))"
      using parseIPv6_loop_ellipsis [OF False, of "[]" ?y] gs tail join_appendHex_nonempty [of ys]
      by (cases "ys = []") (auto simp: Let_def)
    ultimately show ?thesis using pct gs(2) by (simp add: parseIPv6_def parseIPv6_finish_def)
  qed
qed

lemma parseIPv6_plain:
  assumes "length gs = 8" "\<forall>g \<in> set gs. g < 65536"
  shows "parseIPv6 (join_with '':'' (map appendHex gs)) = Some (group_bytes gs)"
proof -
  let ?s = "join_with '':'' (map appendHex gs)"
  have ne: "gs \<noteq> []" using assms(1) by auto
  have "CHR ''%'' \<notin> set ?s" using punct_notin_join [OF assms(2)] by simp
  moreover have "hd ?s \<noteq> CHR '':''" using hd_join_appendHex [OF ne assms(2), of "[]"] by simp
  then have "take 2 ?s \<noteq> ''::''" using join_appendHex_nonempty [OF ne] by (cases ?s) auto
  ultimately show ?thesis
    using parseIPv6_loop_groups [OF ne assms(2), of "[]" None] assms(1)
    by (simp add: parseIPv6_def parseIPv6_finish_def)
qed

lemma parseIPv6_string6:
  assumes "length ip = 16"
  shows "parseIPv6 (string6 ip) = Some ip"
proof (cases "longest_zeros (groups16 ip) [0..<8] None")
  case None
  with assms parseIPv6_plain [of "groups16 ip"] show ?thesis
    by (simp add: string6_def length_groups16 groups16_less group_bytes_groups16)
next
  case (Some ab)
  obtain a b where ab: "ab = (a, b)" by (cases ab)
  let ?gs = "groups16 ip"
  have len: "length ?gs = 8" using assms by (simp add: length_groups16)
  have span: "zero_span ?gs (a, b)"
    using longest_zeros_span [of ?gs "[0..<8]" None ab] Some ab len by auto
  then have "a + 2 \<le> b" "b \<le> 8" using len by (simp_all add: zero_span_def)
  moreover have "\<forall>g \<in> set (take a ?gs @ drop b ?gs). g < 65536"
    using groups16_less [of _ ip] by (auto dest: in_set_takeD in_set_dropD)
  ultimately have "parseIPv6 (string6 ip) =
      Some (group_bytes (take a ?gs) @ replicate (2 * (b - a)) 0 @ group_bytes (drop b ?gs))"
    using parseIPv6_finish_ellipsis [of "take a ?gs" "drop b ?gs"] len Some ab
    by (auto simp: string6_def min_def diff_mult_distrib2 Let_def)
  also have "group_bytes (take a ?gs) @ replicate (2 * (b - a)) 0 @ group_bytes (drop b ?gs) = group_bytes ?gs"
    by (subst (3) zero_span_split [OF span]) (simp only: group_bytes_simps(3) group_bytes_zero)
  finally show ?thesis using assms by (simp add: group_bytes_groups16)
qed

lemma parseAddr_scan_colon:
  "CHR '':'' \<in> set t \<Longrightarrow> CHR ''.'' \<notin> set t \<Longrightarrow> CHR ''%'' \<notin> set t \<Longrightarrow> parseAddr_scan s t = parseIPv6 s"
  by (induction t) auto

text \<open>The printed form of an IPv6 address uses hexadecimal digits and colons only.\<close>

lemma set_string6: "set (string6 ip) \<subseteq> insert CHR '':'' (hex_digit ` {..<16})"
proof -
  have "set (join_with '':'' (map appendHex gs)) \<subseteq> insert CHR '':'' (hex_digit ` {..<16})"
    if "set gs \<subseteq> set (groups16 ip)" for gs
    using set_join_appendHex [of gs] that groups16_less [of _ ip] by blast
  note this [of "groups16 ip"] this [of "take a (groups16 ip)" for a] this [of "drop b (groups16 ip)" for b]
  then show ?thesis
    using set_take_subset [of _ "groups16 ip"] set_drop_subset [of _ "groups16 ip"]
    by (simp add: string6_def Let_def split: option.splits) blast
qed

lemma punct_notin_string6:
  "CHR ''.'' \<notin> set (string6 ip)" "CHR ''%'' \<notin> set (string6 ip)" "CHR ''/'' \<notin> set (string6 ip)"
  "CHR ''_'' \<notin> set (string6 ip)"
proof -
  have "c \<notin> set (string6 ip)" if "c \<in> {CHR ''%'', CHR ''.'', CHR ''/'', CHR ''_''}" for c
  proof
    assume "c \<in> set (string6 ip)"
    with set_string6 [of ip] have "c = CHR '':'' \<or> (\<exists>n<16. c = hex_digit n)" by auto
    then show False
    proof
      assume "\<exists>n<16. c = hex_digit n"
      then obtain n where "n < 16" "c = hex_digit n" by blast
      with hex_digit_not_punct [of n] that show ?thesis by simp
    qed (use that in simp)
  qed
  then show "CHR ''.'' \<notin> set (string6 ip)" "CHR ''%'' \<notin> set (string6 ip)"
    "CHR ''/'' \<notin> set (string6 ip)" "CHR ''_'' \<notin> set (string6 ip)"
    by simp_all
qed

lemma colon_in_string6:
  assumes "length ip = 16"
  shows "CHR '':'' \<in> set (string6 ip)"
proof -
  obtain g h hs where "groups16 ip = g # h # hs"
    using length_groups16 [of ip] assms by (cases "groups16 ip"; cases "tl (groups16 ip)") auto
  then show ?thesis by (simp add: string6_def Let_def split: option.splits)
qed

lemma ParseAddr_string6: "length ip = 16 \<Longrightarrow> ParseAddr (string6 ip) = Some ip"
  by (simp add: ParseAddr_def parseAddr_scan_colon colon_in_string6 punct_notin_string6 parseIPv6_string6)

lemma ParseAddr_IP_String:
  "length a = 4 \<or> length a = 16 \<and> To4 a = None \<Longrightarrow> ParseAddr (IP_String a) = Some a"
  by (auto simp: IP_String_def ParseAddr_string6) (simp add: To4_def ParseAddr_string4)

lemma ParseIP_IP_String: "length ip = 16 \<Longrightarrow> ParseIP (IP_String ip) = Some ip"
  by (cases "To4 ip")
     (auto simp: IP_String_def ParseIP_def ParseAddr_string6 ParseAddr_string4 As16_def To4_16)

lemma punct_notin_string4: "CHR ''_'' \<notin> set (string4 ip)" "CHR '':'' \<notin> set (string4 ip)"
  using set_join_with [of "''.''" "map (\<lambda>b. dec (unat b)) ip"] by (auto simp: string4_def)

lemma punct_notin_IP_String: "CHR ''/'' \<notin> set (IP_String ip)" "CHR ''_'' \<notin> set (IP_String ip)"
  by (auto simp: IP_String_def slash_notin_string4 punct_notin_string4 punct_notin_string6 split: option.splits)

section \<open>Parsed networks\<close>

lemma drop_CIDRMask_loop: "drop k (CIDRMask_loop n (k + j)) = CIDRMask_loop (n - 8 * k) j"
proof (induction k arbitrary: n)
  case (Suc k)
  show ?case
  proof (cases "8 \<le> n")
    case True
    with Suc [of "n - 8"] show ?thesis by simp
  next
    case False
    with Suc [of 0] show ?thesis by simp
  qed
qed simp

lemma ParseCIDR_Some:
  assumes "ParseCIDR s = Some net"
  obtains a n where "length a = 4 \<or> length a = 16" "n \<le> 8 * length a"
    "net = \<lparr>net_ip = mask_bytes a (CIDRMask_loop n (length a)), net_mask = CIDRMask_loop n (length a)\<rparr>"
proof -
  from assms obtain a n where a: "ParseAddr (takeWhile (\<lambda>c. c \<noteq> CHR ''/'') s) = Some a"
    and n: "n \<le> 8 * length a"
    and net: "IP_Mask (As16 a) (CIDRMask n (8 * length a)) = Some (net_ip net)"
      "net_mask net = CIDRMask n (8 * length a)"
    by (fastforce simp: ParseCIDR_def Let_def not_less split: if_splits option.splits)
  from length_ParseAddr [OF a] have "net_ip net = mask_bytes a (CIDRMask_loop n (length a))"
    using net(1) by (auto simp: CIDRMask_def IP_Mask_def As16_def Let_def split: if_splits)
  with net(2) have "net = \<lparr>net_ip = mask_bytes a (CIDRMask_loop n (length a)), net_mask = CIDRMask_loop n (length a)\<rparr>"
    by (simp add: CIDRMask_def)
  with that length_ParseAddr [OF a] n show thesis by blast
qed

text \<open>The normal form behind \<open>String\<close> and \<open>Contains\<close>: a masked network number of one of the
  two families and a prefix length.\<close>

definition net_normal :: "IPNet \<Rightarrow> byte list \<Rightarrow> nat \<Rightarrow> bool" where
  "net_normal net nn l \<longleftrightarrow>
     networkNumberAndMask net = Some (nn, CIDRMask_loop l (length nn)) \<and> l \<le> 8 * length nn \<and>
     (length nn = 4 \<or> length nn = 16 \<and> To4 nn = None) \<and>
     mask_bytes nn (CIDRMask_loop l (length nn)) = nn"

lemma mask_bytes_append:
  "length a = length m \<Longrightarrow> mask_bytes (a @ b) (m @ n) = mask_bytes a m @ mask_bytes b n"
  by (simp add: mask_bytes_def)

lemma drop_mask_bytes: "drop k (mask_bytes a m) = mask_bytes (drop k a) (drop k m)"
  by (simp add: mask_bytes_def drop_map drop_zip)

lemma ParseCIDR_normal:
  assumes "ParseCIDR s = Some net"
  obtains nn l where "net_normal net nn l"
proof -
  from ParseCIDR_Some [OF assms] obtain a n where a: "length a = 4 \<or> length a = 16" "n \<le> 8 * length a"
    and net: "net = \<lparr>net_ip = mask_bytes a (CIDRMask_loop n (length a)), net_mask = CIDRMask_loop n (length a)\<rparr>"
    by blast
  let ?m = "mask_bytes a (CIDRMask_loop n (length a))"
  consider (v4) "length a = 4" | (v6) "length a = 16" "To4 ?m = None"
    | (mapped) p where "length a = 16" "To4 ?m = Some p"
    using a(1) by (cases "To4 ?m") auto
  then show thesis
  proof cases
    case v4
    with a net have "net_normal net ?m n"
      by (simp add: net_normal_def networkNumberAndMask_v4 mask_bytes_idem)
    then show thesis by (rule that)
  next
    case v6
    with a net have "net_normal net ?m n"
      by (simp add: net_normal_def networkNumberAndMask_def mask_bytes_idem Let_def)
    then show thesis by (rule that)
  next
    case (mapped p)
    then have p: "?m = v4InV6Prefix @ p" "length p = 4" by (simp_all add: To4_16)
    then have "p = drop 12 ?m" by simp
    also have "\<dots> = mask_bytes (drop 12 a) (CIDRMask_loop (n - 96) 4)"
      using drop_CIDRMask_loop [of 12 n 4] mapped(1) by (simp add: drop_mask_bytes)
    finally have "mask_bytes p (CIDRMask_loop (n - 96) 4) = p" by (simp add: mask_bytes_idem)
    with mapped p a net have "net_normal net p (n - 96)"
      using drop_CIDRMask_loop [of 12 n 4]
      by (simp add: net_normal_def networkNumberAndMask_def Let_def)
    then show thesis by (rule that)
  qed
qed

lemma IPNet_String_normal: "net_normal net nn l \<Longrightarrow> IPNet_String net = IP_String nn @ ''/'' @ dec l"
  by (simp add: net_normal_def IPNet_String_def simpleMaskLength_CIDRMask_loop)

lemma Contains_normal:
  assumes "net_normal net nn l" "length ip = 16"
  defines "x \<equiv> (case To4 ip of Some p \<Rightarrow> p | None \<Rightarrow> ip)"
  shows "Contains net ip \<longleftrightarrow> length x = length nn \<and> take l (ip_bits nn) = take l (ip_bits x)"
  using assms mask_bytes_eq_iff [of nn "length nn" x l]
  by (auto simp: Contains_def net_normal_def Let_def)

lemma ParseCIDR_IPNet_String:
  assumes "net_normal net nn l"
  shows "ParseCIDR (IPNet_String net) = Some \<lparr>net_ip = nn, net_mask = CIDRMask_loop l (length nn)\<rparr>"
  using ParseCIDR_parts [OF ParseAddr_IP_String punct_notin_IP_String(1), of nn l] assms
  by (auto simp: IPNet_String_normal [OF assms] net_normal_def)

lemma net_normal_canonical:
  "net_normal net nn l \<Longrightarrow> net_normal \<lparr>net_ip = nn, net_mask = CIDRMask_loop l (length nn)\<rparr> nn l"
  by (auto simp: net_normal_def networkNumberAndMask_def To4_def)

lemma underscore_notin_IPNet_String: "net_normal net nn l \<Longrightarrow> CHR ''_'' \<notin> set (IPNet_String net)"
  by (simp add: IPNet_String_normal punct_notin_IP_String)

section \<open>Membership by leading bits\<close>

text \<open>An address in the form of its family: four bytes, or sixteen that are not IPv4-mapped.\<close>

definition family_form :: "byte list \<Rightarrow> bool" where
  "family_form a \<longleftrightarrow> length a = 4 \<or> length a = 16 \<and> To4 a = None"

lemma and_byte_ff: "a AND m = (0xff :: byte) \<Longrightarrow> m = 0xff"
proof -
  assume *: "a AND m = 0xff"
  have "m = m AND (a AND m)" by (simp only: * and_ff_byte)
  also have "\<dots> = a AND m" by (simp only: and.left_commute and.idem)
  finally show "m = 0xff" using * by simp
qed

lemma take_CIDRMask_loop: "8 * k \<le> n \<Longrightarrow> take k (CIDRMask_loop n (k + j)) = replicate k 0xff"
  by (induction k arbitrary: n) simp_all

lemma mask_bytes_ones: "mask_bytes a (replicate (length a) 0xff) = a"
  by (induction a) (simp_all add: and_ff_byte)

lemma take_mask_bytes: "take k (mask_bytes a m) = mask_bytes (take k a) (take k m)"
  by (simp add: mask_bytes_def take_map take_zip)

lemma CIDRMask_loop_ff:
  assumes "CIDRMask_loop n (i + Suc j) ! i = 0xff"
  shows "8 * Suc i \<le> n"
proof (rule ccontr)
  assume "\<not> 8 * Suc i \<le> n"
  then have "n - 8 * i < 8" by simp
  moreover have "CIDRMask_loop n (i + Suc j) ! i = hd (CIDRMask_loop (n - 8 * i) (Suc j))"
    using hd_drop_conv_nth [of i "CIDRMask_loop n (i + Suc j)"]
    by (simp only: drop_CIDRMask_loop length_CIDRMask_loop)
  ultimately have "CIDRMask_loop n (i + Suc j) ! i = NOT (drop_bit (n - 8 * i) 0xff)" by simp
  with assms prefix_mask_not_ff [OF \<open>n - 8 * i < 8\<close>] show False by simp
qed

lemma nth_mask_bytes: "i < length a \<Longrightarrow> i < length m \<Longrightarrow> mask_bytes a m ! i = a ! i AND m ! i"
  by (simp add: mask_bytes_def)

text \<open>Masking never turns an IPv6 address into an IPv4-mapped one.\<close>

lemma To4_mask_bytes:
  assumes "length a = 16" "To4 a = None"
  shows "To4 (mask_bytes a (CIDRMask_loop n 16)) = None"
proof (rule ccontr)
  let ?m = "CIDRMask_loop n 16"
  assume "To4 (mask_bytes a ?m) \<noteq> None"
  with assms(1) have t: "take 12 (mask_bytes a ?m) = v4InV6Prefix" by (auto simp: To4_def split: if_splits)
  have "mask_bytes a ?m ! 11 = take 12 (mask_bytes a ?m) ! 11" by simp
  then have "a ! 11 AND ?m ! 11 = 0xff" using assms(1) by (simp add: t v4InV6Prefix_eq nth_mask_bytes)
  then have "?m ! 11 = 0xff" by (rule and_byte_ff)
  then have "96 \<le> n" using CIDRMask_loop_ff [of n 11 4] by simp
  then have "take 12 ?m = replicate (length (take 12 a)) 0xff"
    using take_CIDRMask_loop [of 12 n 4] assms(1) by simp
  with t have "take 12 a = v4InV6Prefix" using mask_bytes_ones [of "take 12 a"] by (simp add: take_mask_bytes)
  with assms show False by (simp add: To4_def)
qed

lemma ParseIP_family: "family_form a \<Longrightarrow> ParseIP (IP_String a) = Some (As16 a)"
  by (simp add: family_form_def ParseIP_def ParseAddr_IP_String)

lemma As16_family:
  "family_form a \<Longrightarrow> length (As16 a) = 16"
  "family_form a \<Longrightarrow> (case To4 (As16 a) of Some p \<Rightarrow> p | None \<Rightarrow> As16 a) = a"
  by (auto simp: family_form_def As16_def)

lemma ParseCIDR_family:
  assumes "family_form a" "n \<le> 8 * length a"
  obtains net where "ParseCIDR (IP_String a @ ''/'' @ dec n) = Some net"
    "net_normal net (mask_bytes a (CIDRMask_loop n (length a))) n"
proof
  let ?nn = "mask_bytes a (CIDRMask_loop n (length a))"
  let ?net = "\<lparr>net_ip = ?nn, net_mask = CIDRMask_loop n (length a)\<rparr>"
  show "ParseCIDR (IP_String a @ ''/'' @ dec n) = Some ?net"
    using ParseCIDR_parts [OF ParseAddr_IP_String punct_notin_IP_String(1)] assms
    by (simp add: family_form_def)
  show "net_normal ?net ?nn n"
    using assms To4_mask_bytes [of a n]
    by (auto simp: family_form_def net_normal_def networkNumberAndMask_def mask_bytes_idem To4_def Let_def)
qed

lemma Contains_family:
  assumes "family_form a" "family_form q" "n \<le> 8 * length a"
    "net_normal net (mask_bytes a (CIDRMask_loop n (length a))) n"
  shows "Contains net (As16 q) \<longleftrightarrow> length q = length a \<and> take n (ip_bits q) = take n (ip_bits a)"
proof -
  let ?nn = "mask_bytes a (CIDRMask_loop n (length a))"
  have "take n (ip_bits ?nn) = take n (ip_bits a)"
    using mask_bytes_eq_iff [of ?nn "length a" a n] by (simp add: mask_bytes_idem)
  with Contains_normal [OF assms(4) As16_family(1) [OF assms(2)]] As16_family(2) [OF assms(2)]
  show ?thesis by auto
qed

section \<open>Properties\<close>

text \<open>The IPv6 key and its text determine each other: printing a 16-byte key with
  \<open>IPv6KeyToString\<close> (zero compression, IPv4-mapped form included) and reading the text with
  \<open>IPv6StringToKey\<close> returns the key, for all \<open>2 ^ 128\<close> keys.\<close>

theorem ipv6_key_roundtrip:
  "length key = 16 \<Longrightarrow> IPv6StringToKey (IPv6KeyToString key) = Some key"
  by (simp add: IPv6StringToKey_def IPv6KeyToString_def ParseIP_IP_String To16_def copy16_def)

theorem ipv6_key_roundtrip_witness:
  "IPv6StringToKey (IPv6KeyToString ([0x20, 1, 0xd, 0xb8] @ replicate 12 7)) =
     Some ([0x20, 1, 0xd, 0xb8] @ replicate 12 7)"
  by (rule ipv6_key_roundtrip) simp

end
