(* ===== verification/GoTime.thy ===== *)
theory GoTime
  imports Prelude
begin

text \<open>
  The part of Go's package \<open>time\<close> that the program calls: \<open>ParseDuration\<close>,
  \<open>Duration.String\<close>, and parsing and formatting of RFC 3339 time stamps as seconds since
  the epoch. A duration is an \<open>int64\<close> of nanoseconds. Fractions of a duration go through
  double precision in Go, so the rounding to 53 bits is written out.
\<close>

section \<open>Durations\<close>

definition second :: int where
  "second = 1000000000"

text \<open>\<open>leadingInt\<close>: the leading digits; \<open>None\<close> when the value passes \<open>2 ^ 63\<close>.\<close>

fun leadingInt :: "string \<Rightarrow> nat \<Rightarrow> (nat \<times> string) option" where
  "leadingInt [] x = Some (x, [])"
| "leadingInt (c # cs) x =
     (if is_digit c then
        if 2 ^ 63 div 10 < x then None
        else if 2 ^ 63 < x * 10 + digit_val c then None
        else leadingInt cs (x * 10 + digit_val c)
      else Some (x, c # cs))"

text \<open>Double precision: \<open>fl p q\<close> is the positive rational \<open>p / q\<close> rounded to 53 bits,
  ties to even, again as numerator and denominator.\<close>

fun bitlen :: "nat \<Rightarrow> nat" where
  "bitlen n = (if n = 0 then 0 else Suc (bitlen (n div 2)))"

declare bitlen.simps [simp del]

definition round_half_even :: "nat \<Rightarrow> nat \<Rightarrow> nat" where
  "round_half_even n d =
     (let r = n div d; m = n mod d in
      if d < 2 * m \<or> (d = 2 * m \<and> odd r) then r + 1 else r)"

definition fl_at :: "int \<Rightarrow> nat \<Rightarrow> nat \<Rightarrow> nat \<times> nat" where
  "fl_at e p q =
     (if 0 \<le> e then (round_half_even p (q * 2 ^ nat e) * 2 ^ nat e, 1)
      else (round_half_even (p * 2 ^ nat (- e)) q, 2 ^ nat (- e)))"

definition fl :: "nat \<Rightarrow> nat \<Rightarrow> nat \<times> nat" where
  "fl p q =
     (if p = 0 then (0, 1)
      else
        let e = int (bitlen p) - int (bitlen q) - 53;
            big = (if 0 \<le> e then 2 ^ 53 * (q * 2 ^ nat e) \<le> p else 2 ^ 53 * q \<le> p * 2 ^ nat (- e))
        in fl_at (if big then e + 1 else e) p q)"

text \<open>\<open>leadingFraction\<close>: value, scale (a double) and rest; \<open>overflow\<close> ignores further
  digits.\<close>

fun leadingFraction :: "string \<Rightarrow> nat \<Rightarrow> nat \<times> nat \<Rightarrow> bool \<Rightarrow> nat \<times> (nat \<times> nat) \<times> string" where
  "leadingFraction [] x scale overflow = (x, scale, [])"
| "leadingFraction (c # cs) x scale overflow =
     (if is_digit c then
        if overflow then leadingFraction cs x scale True
        else if (2 ^ 63 - 1) div 10 < x then leadingFraction cs x scale True
        else if 2 ^ 63 < x * 10 + digit_val c then leadingFraction cs x scale True
        else leadingFraction cs (x * 10 + digit_val c) (fl (fst scale * 10) (snd scale)) False
      else (x, scale, c # cs))"

text \<open>\<open>uint64(float64(f) * (float64(unit) / scale))\<close>\<close>

definition fraction_ns :: "nat \<Rightarrow> nat \<times> nat \<Rightarrow> nat \<Rightarrow> nat" where
  "fraction_ns f scale unit =
     (let (fn, fd) = fl f 1;
          (un, ud) = fl unit 1;
          (qn, qd) = fl (un * snd scale) (ud * fst scale);
          (rn, rd) = fl (fn * qn) (fd * qd)
      in rn div rd)"

definition unit_of :: "string \<Rightarrow> nat option" where
  "unit_of u =
     (if u = ''ns'' then Some 1
      else if u = ''us'' \<or> u = [char_of (0xC2::nat), char_of (0xB5::nat), CHR ''s'']
           \<or> u = [char_of (0xCE::nat), char_of (0xBC::nat), CHR ''s''] then Some 1000
      else if u = ''ms'' then Some 1000000
      else if u = ''s'' then Some 1000000000
      else if u = ''m'' then Some 60000000000
      else if u = ''h'' then Some 3600000000000
      else None)"

definition is_num_char :: "char \<Rightarrow> bool" where
  "is_num_char c \<longleftrightarrow> c = CHR ''.'' \<or> is_digit c"

text \<open>One round of the loop of \<open>ParseDuration\<close>: the nanoseconds of the next component and the
  rest of the text.\<close>

definition duration_component :: "string \<Rightarrow> (nat \<times> string) option" where
  "duration_component s =
     (if s = [] \<or> \<not> is_num_char (hd s) then None
      else case leadingInt s 0 of
        None \<Rightarrow> None
      | Some (v, s1) \<Rightarrow>
          let pre = length s1 \<noteq> length s;
              dot = s1 \<noteq> [] \<and> hd s1 = CHR ''.'';
              (f, scale, s2) = (if dot then leadingFraction (tl s1) 0 (1, 1) False else (0, (1, 1), s1));
              post = dot \<and> length s2 \<noteq> length (tl s1);
              u = takeWhile (\<lambda>c. \<not> is_num_char c) s2;
              s3 = dropWhile (\<lambda>c. \<not> is_num_char c) s2
          in if \<not> pre \<and> \<not> post then None
             else if u = [] then None
             else case unit_of u of
               None \<Rightarrow> None
             | Some unit \<Rightarrow>
                 if 2 ^ 63 div unit < v then None
                 else
                   let v' = v * unit + (if 0 < f then fraction_ns f scale unit else 0) in
                   if 2 ^ 63 < v' then None else Some (v', s3))"

text \<open>Each component consumes text, so the length of the text bounds the number of rounds;
  \<open>fuel\<close> is that length and never runs out (\<open>duration_component_shorter\<close>).\<close>

fun duration_loop :: "nat \<Rightarrow> string \<Rightarrow> nat \<Rightarrow> nat option" where
  "duration_loop fuel s d =
     (if s = [] then Some d
      else case fuel of
        0 \<Rightarrow> None
      | Suc k \<Rightarrow>
          (case duration_component s of
             None \<Rightarrow> None
           | Some (v, s') \<Rightarrow> if 2 ^ 63 < d + v then None else duration_loop k s' (d + v)))"

declare duration_loop.simps [simp del]

definition ParseDuration :: "string \<Rightarrow> int option" where
  "ParseDuration s =
     (let neg = (s \<noteq> [] \<and> hd s = CHR ''-'');
          s' = (if s \<noteq> [] \<and> (hd s = CHR ''-'' \<or> hd s = CHR ''+'') then tl s else s)
      in if s' = ''0'' then Some 0
         else if s' = [] then None
         else case duration_loop (length s') s' 0 of
           None \<Rightarrow> None
         | Some d \<Rightarrow>
             if neg then Some (- int d)
             else if 2 ^ 63 - 1 < d then None
             else Some (int d))"

text \<open>\<open>Duration.String\<close>: \<open>fmt_frac\<close> is the text of the fraction without trailing zeros.\<close>

definition zero_pad :: "nat \<Rightarrow> nat \<Rightarrow> string" where
  "zero_pad w n = replicate (w - length (dec n)) CHR ''0'' @ dec n"

definition fmt_frac :: "nat \<Rightarrow> nat \<Rightarrow> string" where
  "fmt_frac prec v =
     (let ds = rev (dropWhile (\<lambda>c. c = CHR ''0'') (rev (zero_pad prec (v mod 10 ^ prec))))
      in if ds = [] then [] else CHR ''.'' # ds)"

definition Duration_String :: "int64 \<Rightarrow> string" where
  "Duration_String d =
     (let u = nat \<bar>d\<bar>;
          body =
            (if u < 1000000000 then
               if u = 0 then ''0s''
               else if u < 1000 then dec u @ ''ns''
               else if u < 1000000 then
                 dec (u div 1000) @ fmt_frac 3 u @ [char_of (0xC2::nat), char_of (0xB5::nat), CHR ''s'']
               else dec (u div 1000000) @ fmt_frac 6 u @ ''ms''
             else
               let secs = u div 1000000000; mins = secs div 60; hours = mins div 60 in
               (if 0 < hours then dec hours @ ''h'' else []) @
               (if 0 < mins then dec (mins mod 60) @ ''m'' else []) @
               dec (secs mod 60) @ fmt_frac 9 u @ ''s'')
      in if d < 0 then CHR ''-'' # body else body)"

section \<open>The calendar\<close>

definition is_leap :: "int \<Rightarrow> bool" where
  "is_leap y \<longleftrightarrow> y mod 4 = 0 \<and> (y mod 100 \<noteq> 0 \<or> y mod 400 = 0)"

definition days_in_month :: "int \<Rightarrow> int \<Rightarrow> int" where
  "days_in_month y m =
     (if m = 2 then (if is_leap y then 29 else 28)
      else if m = 4 \<or> m = 6 \<or> m = 9 \<or> m = 11 then 30 else 31)"

text \<open>Days from 1970-01-01 to a date of the Gregorian calendar; the year is counted from
  March so that the leap day is its last.\<close>

definition unix_days :: "int \<Rightarrow> int \<Rightarrow> int \<Rightarrow> int" where
  "unix_days y m d =
     (let y' = (if m \<le> 2 then y - 1 else y);
          mp = (if m \<le> 2 then m + 9 else m - 3)
      in 365 * y' + y' div 4 - y' div 100 + y' div 400 + (153 * mp + 2) div 5 + d - 1 - 719468)"

text \<open>The date of a day: era of 400 years, year of the era, day of the year.\<close>

definition civil_of_days :: "int \<Rightarrow> int \<times> int \<times> int" where
  "civil_of_days z =
     (let z' = z + 719468;
          era = z' div 146097;
          doe = z' mod 146097;
          yoe = (doe - doe div 1460 + doe div 36524 - doe div 146096) div 365;
          doy = doe - (365 * yoe + yoe div 4 - yoe div 100);
          mp = (5 * doy + 2) div 153;
          d = doy - (153 * mp + 2) div 5 + 1;
          m = (if mp < 10 then mp + 3 else mp - 9)
      in (yoe + era * 400 + (if m \<le> 2 then 1 else 0), m, d))"

section \<open>RFC 3339\<close>

text \<open>\<open>getnum\<close> of \<open>time/format.go\<close>: one or two digits, exactly two when \<open>fixed\<close>.\<close>

definition getnum :: "bool \<Rightarrow> string \<Rightarrow> (int \<times> string) option" where
  "getnum fixed s =
     (case s of
        [] \<Rightarrow> None
      | c # cs \<Rightarrow>
          if \<not> is_digit c then None
          else if cs = [] \<or> \<not> is_digit (hd cs) then
            if fixed then None else Some (int (digit_val c), cs)
          else Some (int (digit_val c * 10 + digit_val (hd cs)), tl cs))"

definition skip_char :: "char \<Rightarrow> string \<Rightarrow> string option" where
  "skip_char c s = (case s of [] \<Rightarrow> None | x # xs \<Rightarrow> if x = c then Some xs else None)"

definition parse_year :: "string \<Rightarrow> (int \<times> string) option" where
  "parse_year s =
     (if length s < 4 \<or> \<not> list_all is_digit (take 4 s) then None
      else Some (int (dec_value (take 4 s)), drop 4 s))"

text \<open>A fraction of a second is accepted after the seconds although the layout has none; it
  does not change the number of seconds.\<close>

definition skip_fraction :: "string \<Rightarrow> string" where
  "skip_fraction s =
     (case s of
        c # d # ds \<Rightarrow>
          if (c = CHR ''.'' \<or> c = CHR '','') \<and> is_digit d then dropWhile is_digit ds else s
      | _ \<Rightarrow> s)"

definition parse_zone :: "string \<Rightarrow> (int \<times> string) option" where
  "parse_zone s =
     (if s \<noteq> [] \<and> hd s = CHR ''Z'' then Some (0, tl s)
      else if length s < 6 \<or> s ! 3 \<noteq> CHR '':'' then None
      else
        case (getnum True (take 2 (drop 1 s)), getnum True (take 2 (drop 4 s))) of
          (Some (hr, _), Some (mm, _)) \<Rightarrow>
            if 24 < hr \<or> 60 < mm then None
            else if hd s = CHR ''+'' then Some ((hr * 60 + mm) * 60, drop 6 s)
            else if hd s = CHR ''-'' then Some (- ((hr * 60 + mm) * 60), drop 6 s)
            else None
        | _ \<Rightarrow> None)"

text \<open>\<open>time.Parse(time.RFC3339, s)\<close> followed by \<open>Unix()\<close>.\<close>

definition parse_clock :: "string \<Rightarrow> (int \<times> string) option" where
  "parse_clock s =
     Option.bind (getnum False s) (\<lambda>(hour, s).
     Option.bind (skip_char CHR '':'' s) (\<lambda>s.
     Option.bind (getnum True s) (\<lambda>(mins, s).
     Option.bind (skip_char CHR '':'' s) (\<lambda>s.
     Option.bind (getnum True s) (\<lambda>(sec, s).
       if 24 \<le> hour \<or> 60 \<le> mins \<or> 60 \<le> sec then None
       else Some (hour * 3600 + mins * 60 + sec, skip_fraction s))))))"

definition ParseRFC3339 :: "string \<Rightarrow> int64 option" where
  "ParseRFC3339 s =
     Option.bind (parse_year s) (\<lambda>(year, s).
     Option.bind (skip_char CHR ''-'' s) (\<lambda>s.
     Option.bind (getnum True s) (\<lambda>(month, s).
     Option.bind (skip_char CHR ''-'' s) (\<lambda>s.
     Option.bind (getnum True s) (\<lambda>(day, s).
     Option.bind (skip_char CHR ''T'' s) (\<lambda>s.
     Option.bind (parse_clock s) (\<lambda>(secs, s).
     Option.bind (parse_zone s) (\<lambda>(zone, s).
       if s \<noteq> [] \<or> month \<le> 0 \<or> 12 < month \<or> day < 1 \<or> days_in_month year month < day then None
       else Some (unix_days year month day * 86400 + secs - zone)))))))))"

text \<open>\<open>time.Unix(ts, 0).UTC().Format(time.RFC3339)\<close>.\<close>

definition append_int :: "nat \<Rightarrow> int \<Rightarrow> string" where
  "append_int w x = (if x < 0 then CHR ''-'' # zero_pad w (nat (- x)) else zero_pad w (nat x))"

definition FormatRFC3339 :: "int64 \<Rightarrow> string" where
  "FormatRFC3339 ts =
     (let (y, m, d) = civil_of_days (ts div 86400); r = ts mod 86400
      in append_int 4 y @ ''-'' @ append_int 2 m @ ''-'' @ append_int 2 d @ ''T'' @
         append_int 2 (r div 3600) @ '':'' @ append_int 2 (r div 60 mod 60) @ '':'' @
         append_int 2 (r mod 60) @ ''Z'')"

end
