(* ===== verification/GoJson.thy ===== *)
theory GoJson
  imports GoNet
begin

text \<open>
  Encoding of values by Go's \<open>encoding/json\<close> (\<open>Marshal\<close> and \<open>Encoder.Encode\<close>, both with
  HTML escaping): a value is a tree, an object keeps the order in which Go emits its fields
  (declaration order for a struct, sorted keys for a map). Also \<open>encoding/base64\<close> with the
  standard alphabet, in which keys and values travel to etcd.
\<close>

section \<open>JSON text\<close>

datatype json =
    JBool bool
  | JInt int
  | JStr string
  | JArr "json list"
  | JObj "(string \<times> json) list"

text \<open>The number of bytes of the valid UTF-8 sequence of a non-ASCII character at the front of
  a text (\<open>utf8.DecodeRuneInString\<close>); \<open>None\<close> for a broken one.\<close>

definition byte_in :: "nat \<Rightarrow> nat \<Rightarrow> string \<Rightarrow> nat \<Rightarrow> bool" where
  "byte_in lo hi s i \<longleftrightarrow> i < length s \<and> lo \<le> of_char (s ! i) \<and> of_char (s ! i) \<le> hi"

definition utf8_2 :: "string \<Rightarrow> bool" where
  "utf8_2 s \<longleftrightarrow> byte_in 0xC2 0xDF s 0 \<and> byte_in 0x80 0xBF s 1"

definition utf8_3 :: "string \<Rightarrow> bool" where
  "utf8_3 s \<longleftrightarrow>
     ((byte_in 0xE0 0xE0 s 0 \<and> byte_in 0xA0 0xBF s 1) \<or>
      (byte_in 0xE1 0xEC s 0 \<and> byte_in 0x80 0xBF s 1) \<or>
      (byte_in 0xED 0xED s 0 \<and> byte_in 0x80 0x9F s 1) \<or>
      (byte_in 0xEE 0xEF s 0 \<and> byte_in 0x80 0xBF s 1)) \<and> byte_in 0x80 0xBF s 2"

definition utf8_4 :: "string \<Rightarrow> bool" where
  "utf8_4 s \<longleftrightarrow>
     ((byte_in 0xF0 0xF0 s 0 \<and> byte_in 0x90 0xBF s 1) \<or>
      (byte_in 0xF1 0xF3 s 0 \<and> byte_in 0x80 0xBF s 1) \<or>
      (byte_in 0xF4 0xF4 s 0 \<and> byte_in 0x80 0x8F s 1)) \<and>
     byte_in 0x80 0xBF s 2 \<and> byte_in 0x80 0xBF s 3"

definition utf8_len :: "string \<Rightarrow> nat option" where
  "utf8_len s =
     (if utf8_2 s then Some 2 else if utf8_3 s then Some 3 else if utf8_4 s then Some 4 else None)"

definition bslash :: char where
  "bslash = char_of (92::nat)"

definition escape_ascii :: "char \<Rightarrow> string" where
  "escape_ascii c =
     (let b = (of_char c :: nat) in
      if b = 92 \<or> b = 34 then [bslash, c]
      else if b = 8 then [bslash, CHR ''b'']
      else if b = 12 then [bslash, CHR ''f'']
      else if b = 10 then [bslash, CHR ''n'']
      else if b = 13 then [bslash, CHR ''r'']
      else if b = 9 then [bslash, CHR ''t'']
      else if b < 32 \<or> b = 60 \<or> b = 62 \<or> b = 38
        then bslash # ''u00'' @ [hex_digit (b div 16), hex_digit (b mod 16)]
      else [c])"

text \<open>U+2028 and U+2029 are the sequences E2 80 A8 and E2 80 A9.\<close>

definition line_separator :: "string \<Rightarrow> bool" where
  "line_separator s \<longleftrightarrow> byte_in 0xE2 0xE2 s 0 \<and> byte_in 0x80 0x80 s 1 \<and> byte_in 0xA8 0xA9 s 2"

function json_chars :: "string \<Rightarrow> string" where
  "json_chars [] = []"
| "json_chars (c # cs) =
     (if (of_char c :: nat) < 128 then escape_ascii c @ json_chars cs
      else case utf8_len (c # cs) of
        None \<Rightarrow> bslash # ''ufffd'' @ json_chars cs
      | Some k \<Rightarrow>
          (if line_separator (c # cs)
           then bslash # ''u202'' @ [hex_digit (of_char (cs ! 1) mod 16)]
           else take k (c # cs)) @ json_chars (drop (k - 1) cs))"
  by pat_completeness auto
termination
  by (relation "measure length") (auto intro: le_imp_less_Suc)

definition json_string :: "string \<Rightarrow> string" where
  "json_string s = CHR 0x22 # json_chars s @ [CHR 0x22]"

fun json_encode :: "json \<Rightarrow> string" where
  "json_encode (JBool b) = (if b then ''true'' else ''false'')"
| "json_encode (JInt i) = dec_int i"
| "json_encode (JStr s) = json_string s"
| "json_encode (JArr xs) = ''['' @ join_with '','' (map json_encode xs) @ '']''"
| "json_encode (JObj kvs) =
     ''{'' @ join_with '','' (map (\<lambda>(k, v). json_string k @ '':'' @ json_encode v) kvs) @ ''}''"

text \<open>\<open>Encoder.Encode\<close> ends the value with a newline.\<close>

definition json_line :: "json \<Rightarrow> string" where
  "json_line v = json_encode v @ [CHR 0x0A]"

section \<open>Base 64\<close>

definition b64_char :: "nat \<Rightarrow> char" where
  "b64_char n =
     char_of (if n < 26 then 65 + n
              else if n < 52 then 97 + (n - 26)
              else if n < 62 then 48 + (n - 52)
              else if n = 62 then 43 else 47)"

text \<open>\<open>base64.StdEncoding.EncodeToString\<close>.\<close>

fun base64_encode :: "string \<Rightarrow> string" where
  "base64_encode [] = []"
| "base64_encode [a] =
     (let x = of_char a * 65536
      in [b64_char (x div 262144), b64_char (x div 4096 mod 64), CHR ''='', CHR ''=''])"
| "base64_encode [a, b] =
     (let x = of_char a * 65536 + of_char b * 256
      in [b64_char (x div 262144), b64_char (x div 4096 mod 64), b64_char (x div 64 mod 64), CHR ''=''])"
| "base64_encode (a # b # c # s) =
     (let x = of_char a * 65536 + of_char b * 256 + of_char c
      in b64_char (x div 262144) # b64_char (x div 4096 mod 64) #
         b64_char (x div 64 mod 64) # b64_char (x mod 64) # base64_encode s)"

end
