(* ===== verification/Store.thy ===== *)
theory Store
  imports Prelude
begin

text \<open>
  The contract of the two in-memory tables. The table of blocked addresses and the table of
  blocked networks are both keyed stores: an entry carries its own key, a store holds at
  most one entry per key, writing replaces, deleting removes. The locale \<open>keyed_store\<close>
  states what their clients (the handlers, the expiration worker, the watchers, the CrowdSec
  bouncer) rely on; the facts about runs of deletions are proved here once, and
  \<open>IpTable\<close> and \<open>CidrTable\<close> interpret the locale on the operations of the program. The locale
  \<open>step_order\<close> is the contract of the workers, which run over lists of items.
\<close>

locale keyed_store =
  fixes lookup :: "'s \<Rightarrow> 'k \<Rightarrow> 'v option"
    and put :: "'v \<Rightarrow> 's \<Rightarrow> 's"
    and del :: "'k \<Rightarrow> 's \<Rightarrow> 's"
    and entries :: "'s \<Rightarrow> 'v list"
    and key_of :: "'v \<Rightarrow> 'k"
    and invar :: "'s \<Rightarrow> bool"
  assumes lookup_put: "invar s \<Longrightarrow> lookup (put v s) = (lookup s)(key_of v \<mapsto> v)"
    and lookup_del: "invar s \<Longrightarrow> lookup (del k s) = (lookup s)(k := None)"
    and lookup_key: "invar s \<Longrightarrow> lookup s k = Some v \<Longrightarrow> key_of v = k"
    and entries_lookup: "invar s \<Longrightarrow> v \<in> set (entries s) \<longleftrightarrow> lookup s (key_of v) = Some v"
    and invar_put: "invar s \<Longrightarrow> invar (put v s)"
    and invar_del: "invar s \<Longrightarrow> invar (del k s)"
begin

text \<open>Deleting a list of keys.\<close>

lemma invar_dels: "invar s \<Longrightarrow> invar (fold del ks s)"
  by (induction ks arbitrary: s) (simp_all add: invar_del)

lemma lookup_dels:
  "invar s \<Longrightarrow> lookup (fold del ks s) k = (if k \<in> set ks then None else lookup s k)"
  by (induction ks arbitrary: s) (auto simp: invar_del lookup_del)

text \<open>
  Collecting the keys of all entries that satisfy a condition and deleting them, which is
  how expired and stale entries leave both tables: exactly those entries go.
\<close>

lemma lookup_purge:
  assumes "invar s"
  shows "lookup (fold del (map key_of (filter P (entries s))) s) k =
    (case lookup s k of None \<Rightarrow> None | Some v \<Rightarrow> if P v then None else Some v)"
proof (cases "lookup s k")
  case None
  with assms show ?thesis by (simp add: lookup_dels)
next
  case (Some v)
  have "k \<in> set (map key_of (filter P (entries s))) \<longleftrightarrow> P v"
  proof
    assume "k \<in> set (map key_of (filter P (entries s)))"
    then obtain w where "w \<in> set (entries s)" "P w" "key_of w = k" by auto
    with assms Some show "P v" by (simp add: entries_lookup)
  next
    assume "P v"
    moreover have "key_of v = k" using assms Some by (rule lookup_key)
    ultimately show "k \<in> set (map key_of (filter P (entries s)))"
      using assms Some by (force simp: entries_lookup)
  qed
  with assms Some show ?thesis by (simp add: lookup_dels)
qed

text \<open>Writing a list of entries: the last entry written for a key is found.\<close>

lemma invar_puts: "invar s \<Longrightarrow> invar (fold put vs s)"
  by (induction vs arbitrary: s) (simp_all add: invar_put)

lemma lookup_puts_other:
  "invar s \<Longrightarrow> k \<notin> key_of ` set vs \<Longrightarrow> lookup (fold put vs s) k = lookup s k"
  by (induction vs arbitrary: s) (auto simp: invar_put lookup_put)

lemma lookup_puts:
  "invar s \<Longrightarrow> lookup (fold put vs s) = lookup s ++ map_of (rev (map (\<lambda>v. (key_of v, v)) vs))"
  by (induction vs arbitrary: s) (simp_all add: invar_put lookup_put)

lemma lookup_puts_last:
  "invar s \<Longrightarrow> key_of v \<notin> key_of ` set ws \<Longrightarrow>
   lookup (fold put (vs @ v # ws) s) (key_of v) = Some v"
  by (simp add: invar_puts invar_put lookup_puts_other lookup_put)

text \<open>A written entry is found, and nothing else changes.\<close>

lemma lookup_put_same: "invar s \<Longrightarrow> lookup (put v s) (key_of v) = Some v"
  by (simp add: lookup_put)

lemma lookup_put_other: "invar s \<Longrightarrow> k \<noteq> key_of v \<Longrightarrow> lookup (put v s) k = lookup s k"
  by (simp add: lookup_put)

end

section \<open>Workers\<close>

text \<open>
  The workers of the process (the expiration worker, the watchers, the bouncer) run one
  operation for each item of a list. What every operation promises about the state before
  and after it, the whole run promises, when the promise is reflexive and transitive: an
  invariant that is kept, a field that stays, a revision that never goes back.
\<close>

locale step_order =
  fixes R :: "'s \<Rightarrow> 's \<Rightarrow> bool"
  assumes refl: "R s s"
    and trans: "R s s' \<Longrightarrow> R s' s'' \<Longrightarrow> R s s''"
begin

lemma fold_ordered: "(\<And>x s. x \<in> set xs \<Longrightarrow> R s (f x s)) \<Longrightarrow> R s (fold f xs s)"
proof (induction xs arbitrary: s)
  case (Cons x xs)
  then have "R s (f x s)" "R (f x s) (fold f xs (f x s))" by simp_all
  then show ?case by (simp add: trans)
qed (simp add: refl)

end

end
