(* ===== verification/Server.thy ===== *)
theory Server
  imports IpText GoTime GoJson Store
begin

text \<open>
  The state of the service: the records of \<open>src/src/main.go\<close> and \<open>src/src/cidr.go\<close>, the
  request counters, and the global variables the request handlers share. What a handler
  does to the outside world is recorded in the state as well: the HTTP requests it sends to
  etcd, the goroutines it starts and the log statements it executes, each as a list in
  program order. A log statement is identified by its level and format string (or its
  request name and status).
\<close>

section \<open>Records\<close>

record BlockRecord =
  br_Version :: int
  br_TTL :: int
  br_Host :: string
  br_Source :: string
  br_Scenario :: string
  br_Action :: string
  br_FirstSeen :: int64
  br_LastSeen :: int64
  br_Expiration :: int64
  br_CreateRevision :: int64
  br_ModRevision :: int64

record PTRRecord =
  pr_Host :: string
  pr_TTL :: int

record BlockEntry =
  be_IP :: string
  be_Source :: string
  be_Scenario :: string
  be_Action :: string
  be_CreateRevision :: int64
  be_ModRevision :: int64
  be_FirstSeen :: int64
  be_LastSeen :: int64
  be_Expiration :: int64
  be_ReturnCode :: uint32

record CIDREntry =
  ce_CIDR :: string
  ce_Net :: IPNet
  ce_Source :: string
  ce_Scenario :: string
  ce_Action :: string
  ce_ReturnCode :: uint32
  ce_FirstSeen :: int64
  ce_LastSeen :: int64
  ce_Expiration :: int64

text \<open>The atomic counters of the struct \<open>Stats\<close>, by name.\<close>

datatype counter =
    RequestsLookup | RequestsAuth | RequestsPut | RequestsDelete | RequestsList
  | RequestsHealth | MetricsRequests | RequestsWriteActive
  | InvalidEndpointRequests | ConfigErrors
  | HealthSuccess | HealthFailure | LivenessSuccess | LivenessFailure
  | ReadinessFailure | ReadinessSuccess
  | ReqDnsInvalidQuery | ReqDnsWrongZone | ReqDnsBlocked | ReqDnsNotListed
  | ReqDnsOtherQueryType | LogDropped

type_synonym Stats = "counter \<Rightarrow> int64"

datatype LogLevel = LOG_NONE | LOG_ERROR | LOG_INFO | LOG_VERBOSE | LOG_DEBUG

datatype log_call =
    LogMsg LogLevel string
  | LogHttpReq string string
  | LogDnsReq string

text \<open>A request to the etcd gateway: the path below the endpoint and the JSON body.\<close>

datatype etcd_request = EtcdRequest string json

text \<open>The goroutines the request handlers start.\<close>

datatype task = DeleteExpiredIP string | DeleteExpiredCIDR string

record server =
  ipTable :: "(string \<times> BlockEntry) list"
  cidrTable :: "CIDREntry list"
  stats :: Stats
  gMultiInstanceMode :: bool
  gEtcdRevision :: int64
  etcd_requests :: "etcd_request list"
  goroutines :: "task list"
  log_calls :: "log_call list"

section \<open>Constants\<close>

definition defaultSource :: string where
  "defaultSource = ''openbl''"

definition defaultReturn :: string where
  "defaultReturn = ''127.0.0.2''"

definition gReverseHost :: string where
  "gReverseHost = ''blocked.internal''"

definition gPtrTTL :: int where
  "gPtrTTL = 120"

definition gRecordTTL :: int where
  "gRecordTTL = 120"

definition gRBLZone :: string where
  "gRBLZone = ''open-blocklist.internal.''"

definition allowedPutParams :: "string list" where
  "allowedPutParams =
     [''duration'', ''expiration'', ''source'', ''return_code'', ''scenario'', ''action'', ''last_seen'']"

text \<open>The variables of \<open>main.go\<close> before the first request: empty tables, zero counters.\<close>

definition initial_server :: "bool \<Rightarrow> server" where
  "initial_server multi =
     \<lparr>ipTable = [], cidrTable = [], stats = (\<lambda>_. 0), gMultiInstanceMode = multi,
      gEtcdRevision = 0, etcd_requests = [], goroutines = [], log_calls = []\<rparr>"

section \<open>Primitive effects\<close>

definition stats_add :: "counter \<Rightarrow> int64 \<Rightarrow> server \<Rightarrow> server" where
  "stats_add c d st = st\<lparr>stats := (stats st)(c := wrap64 (stats st c + d))\<rparr>"

definition log_call :: "log_call \<Rightarrow> server \<Rightarrow> server" where
  "log_call l st = st\<lparr>log_calls := log_calls st @ [l]\<rparr>"

definition spawn :: "task \<Rightarrow> server \<Rightarrow> server" where
  "spawn t st = st\<lparr>goroutines := goroutines st @ [t]\<rparr>"

definition send_etcd :: "etcd_request \<Rightarrow> server \<Rightarrow> server" where
  "send_etcd r st = st\<lparr>etcd_requests := etcd_requests st @ [r]\<rparr>"

text \<open>\<open>b64\<close> of \<open>helpers.go\<close>.\<close>

definition b64 :: "string \<Rightarrow> string" where
  "b64 s = base64_encode s"

section \<open>The JSON form of the persisted records\<close>

text \<open>\<open>omitempty\<close> drops a zero number and an empty string.\<close>

definition omit_int :: "string \<Rightarrow> int \<Rightarrow> (string \<times> json) list" where
  "omit_int k i = (if i = 0 then [] else [(k, JInt i)])"

definition omit_str :: "string \<Rightarrow> string \<Rightarrow> (string \<times> json) list" where
  "omit_str k s = (if s = [] then [] else [(k, JStr s)])"

definition BlockRecord_json :: "BlockRecord \<Rightarrow> json" where
  "BlockRecord_json r =
     JObj ([(''v'', JInt (br_Version r))] @ omit_int ''ttl'' (br_TTL r) @
       omit_str ''host'' (br_Host r) @ omit_str ''source'' (br_Source r) @
       omit_str ''scenario'' (br_Scenario r) @ omit_str ''action'' (br_Action r) @
       omit_int ''first_seen'' (br_FirstSeen r) @ omit_int ''last_seen'' (br_LastSeen r) @
       omit_int ''expiration'' (br_Expiration r))"

definition PTRRecord_json :: "PTRRecord \<Rightarrow> json" where
  "PTRRecord_json r = JObj [(''host'', JStr (pr_Host r)), (''ttl'', JInt (pr_TTL r))]"

section \<open>Writing to etcd\<close>

text \<open>
  \<open>etcdPut\<close> marshals the value, encodes key and value in base 64 and posts both. Its error
  depends on the reply of the gateway (\<open>None\<close> when the connection fails), and every caller
  drops it, so the effect and the result are separate definitions.
\<close>

definition etcdPut :: "string \<Rightarrow> json \<Rightarrow> server \<Rightarrow> server" where
  "etcdPut key value =
     send_etcd (EtcdRequest ''/v3/kv/put''
       (JObj [(''key'', JStr (b64 key)), (''value'', JStr (b64 (json_encode value)))]))"

datatype etcd_error = ConnectionFailed | PutFailed

definition etcdPut_result :: "nat option \<Rightarrow> etcd_error option" where
  "etcdPut_result status =
     (case status of None \<Rightarrow> Some ConnectionFailed
      | Some code \<Rightarrow> if code \<noteq> 200 then Some PutFailed else None)"

definition etcdDelete :: "string \<Rightarrow> server \<Rightarrow> server" where
  "etcdDelete key =
     send_etcd (EtcdRequest ''/v3/kv/deleterange'' (JObj [(''key'', JStr (b64 key))]))"

definition cidrPrefix :: string where
  "cidrPrefix = SKY_DNS_PREFIX @ ''/internal/'' @ RBL_ZONE @ ''-cidr''"

definition cidrPrefixScan :: string where
  "cidrPrefixScan = cidrPrefix @ ''/''"

definition cidrToEtcdKey :: "string \<Rightarrow> string" where
  "cidrToEtcdKey cidr = cidrPrefix @ ''/'' @ replace_byte CHR ''/'' CHR ''_'' cidr"

definition cidrFromEtcdKey :: "string \<Rightarrow> string" where
  "cidrFromEtcdKey key =
     (let prefix = cidrPrefix @ ''/'' in
      if \<not> has_prefix key prefix then []
      else replace_byte CHR ''_'' CHR ''/'' (drop (length prefix) key))"

definition etcdPutCIDR :: "string \<Rightarrow> BlockRecord \<Rightarrow> server \<Rightarrow> server" where
  "etcdPutCIDR cidr rec = etcdPut (cidrToEtcdKey cidr) (BlockRecord_json rec)"

definition etcdDeleteCIDR :: "string \<Rightarrow> server \<Rightarrow> server" where
  "etcdDeleteCIDR cidr = etcdDelete (cidrToEtcdKey cidr)"

section \<open>How the effects act on the fields\<close>

lemma stats_add_simps [simp, state_simps]:
  "ipTable (stats_add c d st) = ipTable st" "cidrTable (stats_add c d st) = cidrTable st"
  "gMultiInstanceMode (stats_add c d st) = gMultiInstanceMode st"
  "gEtcdRevision (stats_add c d st) = gEtcdRevision st"
  "etcd_requests (stats_add c d st) = etcd_requests st"
  "goroutines (stats_add c d st) = goroutines st" "log_calls (stats_add c d st) = log_calls st"
  "stats (stats_add c d st) = (stats st)(c := wrap64 (stats st c + d))"
  by (simp_all add: stats_add_def)

lemma log_call_simps [simp, state_simps]:
  "ipTable (log_call l st) = ipTable st" "cidrTable (log_call l st) = cidrTable st"
  "gMultiInstanceMode (log_call l st) = gMultiInstanceMode st"
  "gEtcdRevision (log_call l st) = gEtcdRevision st"
  "etcd_requests (log_call l st) = etcd_requests st"
  "goroutines (log_call l st) = goroutines st" "stats (log_call l st) = stats st"
  "log_calls (log_call l st) = log_calls st @ [l]"
  by (simp_all add: log_call_def)

lemma spawn_simps [simp, state_simps]:
  "ipTable (spawn t st) = ipTable st" "cidrTable (spawn t st) = cidrTable st"
  "gMultiInstanceMode (spawn t st) = gMultiInstanceMode st"
  "gEtcdRevision (spawn t st) = gEtcdRevision st"
  "etcd_requests (spawn t st) = etcd_requests st" "log_calls (spawn t st) = log_calls st"
  "stats (spawn t st) = stats st" "goroutines (spawn t st) = goroutines st @ [t]"
  by (simp_all add: spawn_def)

lemma send_etcd_simps [simp, state_simps]:
  "ipTable (send_etcd r st) = ipTable st" "cidrTable (send_etcd r st) = cidrTable st"
  "gMultiInstanceMode (send_etcd r st) = gMultiInstanceMode st"
  "gEtcdRevision (send_etcd r st) = gEtcdRevision st"
  "goroutines (send_etcd r st) = goroutines st" "log_calls (send_etcd r st) = log_calls st"
  "stats (send_etcd r st) = stats st" "etcd_requests (send_etcd r st) = etcd_requests st @ [r]"
  by (simp_all add: send_etcd_def)

lemma initial_server_simps [simp]:
  "ipTable (initial_server multi) = []" "cidrTable (initial_server multi) = []"
  "gMultiInstanceMode (initial_server multi) = multi" "stats (initial_server multi) = (\<lambda>_. 0)"
  "etcd_requests (initial_server multi) = []" "goroutines (initial_server multi) = []"
  "log_calls (initial_server multi) = []" "gEtcdRevision (initial_server multi) = 0"
  by (simp_all add: initial_server_def)

lemmas etcd_defs [handler_defs] =
  etcdPut_def etcdDelete_def etcdPutCIDR_def etcdDeleteCIDR_def

section \<open>Keys of networks\<close>

lemma cidr_key_roundtrip:
  "CHR ''_'' \<notin> set cidr \<Longrightarrow> cidrFromEtcdKey (cidrToEtcdKey cidr) = cidr"
  by (simp add: cidrFromEtcdKey_def cidrToEtcdKey_def Let_def replace_byte_inverse has_prefix_def)

lemma cidrToEtcdKey_inj:
  "CHR ''_'' \<notin> set a \<Longrightarrow> CHR ''_'' \<notin> set b \<Longrightarrow> cidrToEtcdKey a = cidrToEtcdKey b \<longleftrightarrow> a = b"
  by (metis cidr_key_roundtrip)

lemma cidrToEtcdKey_not_rbl: "length ip = 16 \<Longrightarrow> cidrToEtcdKey cidr \<noteq> rblKey ip"
  by (simp add: cidrToEtcdKey_def rblKey_parts cidrPrefix_def rblPrefixScan_def rblPrefix_def)

lemma cidrToEtcdKey_not_reverse: "length ip = 16 \<Longrightarrow> cidrToEtcdKey cidr \<noteq> reverseKey ip"
  by (cases "To4 ip")
     (simp_all add: cidrToEtcdKey_def reverseKey_v4 reverseKey_v6 cidrPrefix_def SKY_DNS_PREFIX_def)

section \<open>Properties\<close>

lemma network_key_facts:
  assumes "ParseCIDR s = Some net"
  shows "cidrFromEtcdKey (cidrToEtcdKey (IPNet_String net)) = IPNet_String net \<and>
    (\<exists>net'. ParseCIDR (IPNet_String net) = Some net' \<and> IPNet_String net' = IPNet_String net \<and>
      (\<forall>ip. length ip = 16 \<longrightarrow> Contains net' ip = Contains net ip))"
proof -
  obtain nn l where n: "net_normal net nn l" using ParseCIDR_normal [OF assms] by blast
  note n' = net_normal_canonical [OF n]
  have "IPNet_String \<lparr>net_ip = nn, net_mask = CIDRMask_loop l (length nn)\<rparr> = IPNet_String net"
    by (simp add: IPNet_String_normal [OF n] IPNet_String_normal [OF n'])
  with ParseCIDR_IPNet_String [OF n] Contains_normal [OF n] Contains_normal [OF n']
    cidr_key_roundtrip [OF underscore_notin_IPNet_String [OF n]]
  show ?thesis by simp
qed

text \<open>C27: The etcd key of a network loses nothing. For every text that \<open>net.ParseCIDR\<close>
  accepts, the canonical text \<open>network.String()\<close> comes back from its etcd key, parses
  again, prints as itself, and the network read back has the same members: what
  \<open>loadCIDRFromEtcd\<close> and the watcher rebuild from a key is the network that was blocked.\<close>

theorem network_key_roundtrip:
  assumes "ParseCIDR s = Some net"
  shows "cidrFromEtcdKey (cidrToEtcdKey (IPNet_String net)) = IPNet_String net \<and>
    (\<exists>net'. ParseCIDR (IPNet_String net) = Some net' \<and> IPNet_String net' = IPNet_String net \<and>
      (\<forall>ip. length ip = 16 \<longrightarrow> Contains net' ip = Contains net ip))"
  using network_key_facts [OF assms] by blast

theorem network_key_roundtrip_witness:
  "\<exists>net. ParseCIDR ''10.1.2.3/8'' = Some net \<and>
     cidrFromEtcdKey (cidrToEtcdKey (IPNet_String net)) = IPNet_String net"
proof -
  obtain net where "ParseCIDR ''10.1.2.3/8'' = Some net" by (simp add: net_eval)
  with network_key_roundtrip [OF this] show ?thesis by blast
qed

text \<open>C28: Keys of different addresses never collide, and the three key spaces of etcd are
  disjoint: forward keys and reverse keys are injective on 16-byte addresses, a forward key is
  never a reverse key, and neither is ever the key of a network.\<close>

theorem etcd_keys_separate:
  assumes "length a = 16" "length b = 16"
  shows "(rblKey a = rblKey b \<longleftrightarrow> a = b) \<and> (reverseKey a = reverseKey b \<longleftrightarrow> a = b) \<and>
    rblKey a \<noteq> reverseKey b \<and> cidrToEtcdKey cidr \<noteq> rblKey a \<and> cidrToEtcdKey cidr \<noteq> reverseKey a"
  using assms
  by (simp add: rblKey_inj reverseKey_inj rblKey_neq_reverseKey cidrToEtcdKey_not_rbl
      cidrToEtcdKey_not_reverse)

theorem etcd_keys_separate_witness:
  "rblKey (v4InV6Prefix @ [1, 2, 3, 4]) \<noteq> rblKey (v4InV6Prefix @ [1, 2, 3, 5])"
  using etcd_keys_separate [of "v4InV6Prefix @ [1, 2, 3, 4]" "v4InV6Prefix @ [1, 2, 3, 5]" "[]"] by simp

end
