(* ===== verification/GoDecode.thy ===== *)
theory GoDecode
  imports GoJson
begin

text \<open>
  Decoding by the Go library: \<open>strconv.ParseInt\<close>, \<open>base64.StdEncoding.DecodeString\<close> with the
  error dropped (the bytes decoded so far remain), and \<open>json.Unmarshal\<close>: the text is checked
  as a whole first, then the value tree is stored into a struct field by field, a mismatch of
  types being remembered while the other fields are still stored. The recursion depth of the
  parser is bounded by fuel; \<open>json_fuel\<close> is enough for every text of its length.
\<close>

section \<open>Integers\<close>

text \<open>\<open>strconv.ParseInt(s, 10, 64)\<close>: the value and whether there was an error. A value out of
  range is clamped, bad syntax gives 0.\<close>

definition ParseInt :: "string \<Rightarrow> int64 \<times> bool" where
  "ParseInt s =
     (let (neg, ds) = (case s of
            [] \<Rightarrow> (False, [])
          | c # cs \<Rightarrow> if c = CHR ''-'' then (True, cs) else if c = CHR ''+'' then (False, cs) else (False, c # cs))
      in if ds = [] \<or> \<not> list_all is_digit ds then (0, True)
         else let n = int (dec_value ds) in
           if neg then (if n > 2 ^ 63 then (- (2 ^ 63), True) else (- n, False))
           else (if n \<ge> 2 ^ 63 then (2 ^ 63 - 1, True) else (n, False)))"

section \<open>Base 64\<close>

definition b64_val :: "char \<Rightarrow> nat option" where
  "b64_val c =
     (let n = (of_char c :: nat) in
      if 65 \<le> n \<and> n \<le> 90 then Some (n - 65)
      else if 97 \<le> n \<and> n \<le> 122 then Some (n - 97 + 26)
      else if 48 \<le> n \<and> n \<le> 57 then Some (n - 48 + 52)
      else if n = 43 then Some 62
      else if n = 47 then Some 63
      else None)"

text \<open>One quantum of four characters after another; a broken quantum ends the output.\<close>

fun base64_quanta :: "string \<Rightarrow> string" where
  "base64_quanta (a # b # c # d # s) =
     (case (b64_val a, b64_val b) of
        (Some va, Some vb) \<Rightarrow>
          if c = CHR ''='' then
            (if d = CHR ''='' then [char_of ((va * 64 + vb) div 16)] else [])
          else (case b64_val c of
                  None \<Rightarrow> []
                | Some vc \<Rightarrow>
                    if d = CHR ''='' then
                      (let x = (va * 64 + vb) * 64 + vc in [char_of (x div 1024), char_of (x div 4 mod 256)])
                    else (case b64_val d of
                            None \<Rightarrow> []
                          | Some vd \<Rightarrow>
                              let x = ((va * 64 + vb) * 64 + vc) * 64 + vd in
                              char_of (x div 65536) # char_of (x div 256 mod 256) # char_of (x mod 256) #
                              base64_quanta s))
      | _ \<Rightarrow> [])"
| "base64_quanta _ = []"

definition base64_decode :: "string \<Rightarrow> string" where
  "base64_decode s = base64_quanta (filter (\<lambda>c. c \<noteq> CHR 0x0A \<and> c \<noteq> CHR 0x0D) s)"

section \<open>JSON values\<close>

datatype jvalue =
    VNull
  | VBool bool
  | VNum string
  | VStr string
  | VArr "jvalue list"
  | VObj "(string \<times> jvalue) list"

definition is_ws :: "char \<Rightarrow> bool" where
  "is_ws c \<longleftrightarrow> c = CHR '' '' \<or> c = CHR 0x09 \<or> c = CHR 0x0A \<or> c = CHR 0x0D"

definition skip_ws :: "string \<Rightarrow> string" where
  "skip_ws s = dropWhile is_ws s"

subsection \<open>Strings\<close>

definition hex4 :: "string \<Rightarrow> nat option" where
  "hex4 s = (case s of
     a # b # c # d # _ \<Rightarrow>
       (case (hex_val a, hex_val b, hex_val c, hex_val d) of
          (Some x, Some y, Some z, Some w) \<Rightarrow> Some (((x * 16 + y) * 16 + z) * 16 + w)
        | _ \<Rightarrow> None)
   | _ \<Rightarrow> None)"

definition replacement :: string where
  "replacement = [CHR 0xEF, CHR 0xBF, CHR 0xBD]"

text \<open>\<open>utf8.EncodeRune\<close> of a code point that is not a surrogate.\<close>

definition utf8_encode :: "nat \<Rightarrow> string" where
  "utf8_encode r =
     (if r < 0x80 then [char_of r]
      else if r < 0x800 then [char_of (0xC0 + r div 64), char_of (0x80 + r mod 64)]
      else if r < 0x10000 then
        [char_of (0xE0 + r div 4096), char_of (0x80 + r div 64 mod 64), char_of (0x80 + r mod 64)]
      else [char_of (0xF0 + r div 262144), char_of (0x80 + r div 4096 mod 64),
            char_of (0x80 + r div 64 mod 64), char_of (0x80 + r mod 64)])"

definition simple_escape :: "char \<Rightarrow> char option" where
  "simple_escape c =
     (if c = CHR 0x22 \<or> c = bslash \<or> c = CHR ''/'' then Some c
      else if c = CHR ''b'' then Some (CHR 0x08)
      else if c = CHR ''f'' then Some (CHR 0x0C)
      else if c = CHR ''n'' then Some (CHR 0x0A)
      else if c = CHR ''r'' then Some (CHR 0x0D)
      else if c = CHR ''t'' then Some (CHR 0x09)
      else None)"

text \<open>The code point of \<open>\u\<close> escapes at the front of a text (after the first \<open>\u\<close>) and how
  much is consumed: a surrogate pair is one code point, a lone surrogate is U+FFFD.\<close>

definition unicode_escape :: "string \<Rightarrow> (string \<times> nat) option" where
  "unicode_escape s =
     (case hex4 s of
        None \<Rightarrow> None
      | Some r \<Rightarrow>
          if r < 0xD800 \<or> 0xE000 \<le> r then Some (utf8_encode r, 4)
          else
            (let t = drop 4 s;
                 low = (if take 2 t = [bslash, CHR ''u''] then hex4 (drop 2 t) else None)
             in case low of
                  Some r2 \<Rightarrow>
                    if r < 0xDC00 \<and> 0xDC00 \<le> r2 \<and> r2 < 0xE000
                    then Some (utf8_encode ((r - 0xD800) * 1024 + (r2 - 0xDC00) + 0x10000), 10)
                    else Some (replacement, 4)
                | None \<Rightarrow> Some (replacement, 4)))"

text \<open>The characters of a string literal after its opening quote: the unescaped text and what
  follows the closing quote.\<close>

function jstring :: "string \<Rightarrow> (string \<times> string) option" where
  "jstring [] = None"
| "jstring (c # cs) =
     (if c = CHR 0x22 then Some ([], cs)
      else if (of_char c :: nat) < 32 then None
      else if c = bslash then
        (case cs of
           [] \<Rightarrow> None
         | e # es \<Rightarrow>
             if e = CHR ''u'' then
               (case unicode_escape es of
                  None \<Rightarrow> None
                | Some (u, k) \<Rightarrow> map_option (\<lambda>(t, r). (u @ t, r)) (jstring (drop k es)))
             else
               (case simple_escape e of
                  None \<Rightarrow> None
                | Some x \<Rightarrow> map_option (\<lambda>(t, r). (x # t, r)) (jstring es)))
      else if (of_char c :: nat) < 128 then map_option (\<lambda>(t, r). (c # t, r)) (jstring cs)
      else
        (case utf8_len (c # cs) of
           None \<Rightarrow> map_option (\<lambda>(t, r). (replacement @ t, r)) (jstring cs)
         | Some k \<Rightarrow> map_option (\<lambda>(t, r). (take k (c # cs) @ t, r)) (jstring (drop (k - 1) cs))))"
  by pat_completeness auto
termination
  by (relation "measure length") (auto intro: le_imp_less_Suc)

subsection \<open>Numbers\<close>

definition jnum_int :: "string \<Rightarrow> (string \<times> string) option" where
  "jnum_int s = (case s of
     [] \<Rightarrow> None
   | c # cs \<Rightarrow>
       if c = CHR ''0'' then Some ([c], cs)
       else if is_digit c then Some (takeWhile is_digit s, dropWhile is_digit s)
       else None)"

definition jnum_frac :: "string \<Rightarrow> (string \<times> string) option" where
  "jnum_frac s = (case s of
     c # cs \<Rightarrow>
       if c = CHR ''.'' then
         (if takeWhile is_digit cs = [] then None
          else Some (c # takeWhile is_digit cs, dropWhile is_digit cs))
       else Some ([], s)
   | [] \<Rightarrow> Some ([], []))"

definition jnum_exp :: "string \<Rightarrow> (string \<times> string) option" where
  "jnum_exp s = (case s of
     c # cs \<Rightarrow>
       if c = CHR ''e'' \<or> c = CHR ''E'' then
         (let (sg, ds) = (case cs of
              x # xs \<Rightarrow> if x = CHR ''+'' \<or> x = CHR ''-'' then ([x], xs) else ([], cs)
            | [] \<Rightarrow> ([], []))
          in if takeWhile is_digit ds = [] then None
             else Some (c # sg @ takeWhile is_digit ds, dropWhile is_digit ds))
       else Some ([], s)
   | [] \<Rightarrow> Some ([], []))"

definition jnumber :: "string \<Rightarrow> (string \<times> string) option" where
  "jnumber s =
     (let (sg, t) = (case s of c # cs \<Rightarrow> if c = CHR ''-'' then ([c], cs) else ([], s) | [] \<Rightarrow> ([], []))
      in case jnum_int t of
           None \<Rightarrow> None
         | Some (i, t) \<Rightarrow>
             (case jnum_frac t of
                None \<Rightarrow> None
              | Some (f, t) \<Rightarrow>
                  (case jnum_exp t of
                     None \<Rightarrow> None
                   | Some (e, t) \<Rightarrow> Some (sg @ i @ f @ e, t))))"

subsection \<open>Values\<close>

definition jliteral :: "string \<Rightarrow> jvalue \<Rightarrow> string \<Rightarrow> (jvalue \<times> string) option" where
  "jliteral word v s = (if take (length word) s = word then Some (v, drop (length word) s) else None)"

fun jparse :: "nat \<Rightarrow> string \<Rightarrow> (jvalue \<times> string) option"
and jparse_array :: "nat \<Rightarrow> string \<Rightarrow> (jvalue list \<times> string) option"
and jparse_object :: "nat \<Rightarrow> string \<Rightarrow> ((string \<times> jvalue) list \<times> string) option" where
  "jparse 0 s = None"
| "jparse (Suc n) s =
     (case skip_ws s of
        [] \<Rightarrow> None
      | c # cs \<Rightarrow>
          if c = CHR 0x22 then map_option (\<lambda>(t, r). (VStr t, r)) (jstring cs)
          else if c = CHR ''{'' then
            (case skip_ws cs of
               [] \<Rightarrow> None
             | d # ds \<Rightarrow>
                 if d = CHR ''}'' then Some (VObj [], ds)
                 else map_option (\<lambda>(kvs, r). (VObj kvs, r)) (jparse_object n cs))
          else if c = CHR ''['' then
            (case skip_ws cs of
               [] \<Rightarrow> None
             | d # ds \<Rightarrow>
                 if d = CHR '']'' then Some (VArr [], ds)
                 else map_option (\<lambda>(vs, r). (VArr vs, r)) (jparse_array n cs))
          else if c = CHR ''t'' then jliteral ''true'' (VBool True) (c # cs)
          else if c = CHR ''f'' then jliteral ''false'' (VBool False) (c # cs)
          else if c = CHR ''n'' then jliteral ''null'' VNull (c # cs)
          else map_option (\<lambda>(t, r). (VNum t, r)) (jnumber (c # cs)))"
| "jparse_array 0 s = None"
| "jparse_array (Suc n) s =
     (case jparse n s of
        None \<Rightarrow> None
      | Some (v, r) \<Rightarrow>
          (case skip_ws r of
             [] \<Rightarrow> None
           | c # cs \<Rightarrow>
               if c = CHR '','' then map_option (\<lambda>(vs, r). (v # vs, r)) (jparse_array n cs)
               else if c = CHR '']'' then Some ([v], cs)
               else None))"
| "jparse_object 0 s = None"
| "jparse_object (Suc n) s =
     (case skip_ws s of
        [] \<Rightarrow> None
      | q # qs \<Rightarrow>
          if q \<noteq> CHR 0x22 then None
          else (case jstring qs of
             None \<Rightarrow> None
           | Some (k, r) \<Rightarrow>
               (case skip_ws r of
                  [] \<Rightarrow> None
                | c # cs \<Rightarrow>
                    if c \<noteq> CHR '':'' then None
                    else (case jparse n cs of
                       None \<Rightarrow> None
                     | Some (v, r) \<Rightarrow>
                         (case skip_ws r of
                            [] \<Rightarrow> None
                          | c # cs \<Rightarrow>
                              if c = CHR '','' then map_option (\<lambda>(kvs, r). ((k, v) # kvs, r)) (jparse_object n cs)
                              else if c = CHR ''}'' then Some ([(k, v)], cs)
                              else None)))))"

definition json_fuel :: "string \<Rightarrow> nat" where
  "json_fuel s = 2 * length s + 2"

text \<open>The whole text: one value with white space around it; \<open>None\<close> is a syntax error.\<close>

definition json_parse :: "string \<Rightarrow> jvalue option" where
  "json_parse s =
     (case jparse (json_fuel s) s of
        Some (v, r) \<Rightarrow> if skip_ws r = [] then Some v else None
      | None \<Rightarrow> None)"

section \<open>Storing into a struct\<close>

text \<open>Keys match a field name exactly or under case folding, in which the long s (U+017F) and
  the Kelvin sign (U+212A) fold to \<open>S\<close> and \<open>K\<close>.\<close>

fun fold_name :: "string \<Rightarrow> string" where
  "fold_name [] = []"
| "fold_name (c # cs) =
     (if c = CHR 0xC5 \<and> take 1 cs = [CHR 0xBF] then CHR ''S'' # fold_name (tl cs)
      else if c = CHR 0xE2 \<and> take 2 cs = [CHR 0x84, CHR 0xAA] then CHR ''K'' # fold_name (tl (tl cs))
      else (let n = (of_char c :: nat) in if 97 \<le> n \<and> n \<le> 122 then char_of (n - 32) else c) # fold_name cs)"

definition key_matches :: "string \<Rightarrow> string \<Rightarrow> bool" where
  "key_matches key name \<longleftrightarrow> key = name \<or> fold_name key = fold_name name"

text \<open>A field of type \<open>string\<close> or \<open>int64\<close>: the new value and whether there is a type error; null
  leaves the field alone.\<close>

definition store_string :: "jvalue \<Rightarrow> string \<Rightarrow> string \<times> bool" where
  "store_string v old = (case v of VStr s \<Rightarrow> (s, False) | VNull \<Rightarrow> (old, False) | _ \<Rightarrow> (old, True))"

definition store_int :: "jvalue \<Rightarrow> int64 \<Rightarrow> int64 \<times> bool" where
  "store_int v old =
     (case v of
        VNum t \<Rightarrow> (case ParseInt t of (n, err) \<Rightarrow> if err then (old, True) else (n, False))
      | VNull \<Rightarrow> (old, False)
      | _ \<Rightarrow> (old, True))"

text \<open>A field with the option \<open>,string\<close>: a quoted integer literal.\<close>

definition store_quoted_int :: "jvalue \<Rightarrow> int64 \<Rightarrow> int64 \<times> bool" where
  "store_quoted_int v old =
     (case v of
        VStr t \<Rightarrow>
          if t = ''null'' then (old, False)
          else if t = [] \<or> \<not> (hd t = CHR ''-'' \<or> is_digit (hd t)) then (old, True)
          else (case ParseInt t of (n, err) \<Rightarrow> if err then (old, True) else (n, False))
      | VNull \<Rightarrow> (old, False)
      | _ \<Rightarrow> (old, True))"

definition store_bool :: "jvalue \<Rightarrow> bool \<Rightarrow> bool \<times> bool" where
  "store_bool v old = (case v of VBool b \<Rightarrow> (b, False) | VNull \<Rightarrow> (old, False) | _ \<Rightarrow> (old, True))"

text \<open>A struct: the fields of the object are stored one after the other by \<open>store\<close>, which
  ignores unknown keys; the flag collects the type errors.\<close>

definition store_fields ::
  "(string \<Rightarrow> jvalue \<Rightarrow> 'r \<Rightarrow> 'r \<times> bool) \<Rightarrow> (string \<times> jvalue) list \<Rightarrow> 'r \<times> bool \<Rightarrow> 'r \<times> bool" where
  "store_fields store kvs acc =
     foldl (\<lambda>(r, err) (k, v). case store k v r of (r', e) \<Rightarrow> (r', err \<or> e)) acc kvs"

definition store_struct ::
  "(string \<Rightarrow> jvalue \<Rightarrow> 'r \<Rightarrow> 'r \<times> bool) \<Rightarrow> jvalue \<Rightarrow> 'r \<Rightarrow> 'r \<times> bool" where
  "store_struct store v r =
     (case v of VObj kvs \<Rightarrow> store_fields store kvs (r, False) | VNull \<Rightarrow> (r, False) | _ \<Rightarrow> (r, True))"

text \<open>\<open>json.Unmarshal\<close> into a struct.\<close>

definition Unmarshal ::
  "(string \<Rightarrow> jvalue \<Rightarrow> 'r \<Rightarrow> 'r \<times> bool) \<Rightarrow> string \<Rightarrow> 'r \<Rightarrow> 'r \<times> bool" where
  "Unmarshal store s r = (case json_parse s of None \<Rightarrow> (r, True) | Some v \<Rightarrow> store_struct store v r)"

section \<open>Base 64 round trip\<close>

lemma of_char_b64_char:
  "n < 64 \<Longrightarrow> of_char (b64_char n) =
    (if n < 26 then 65 + n else if n < 52 then 71 + n else if n < 62 then n - 4 else if n = 62 then 43 else 47 :: nat)"
  by (auto simp: b64_char_def)

lemma b64_val_b64_char: "n < 64 \<Longrightarrow> b64_val (b64_char n) = Some n"
  by (auto simp: b64_val_def of_char_b64_char Let_def)

lemma b64_char_not:
  assumes "n < 64"
  shows "b64_char n \<noteq> CHR ''=''" "b64_char n \<noteq> CHR 0x0A" "b64_char n \<noteq> CHR 0x0D"
proof -
  have "(of_char (b64_char n) :: nat) \<notin> {61, 10, 13}"
    using assms by (auto simp: of_char_b64_char)
  then show "b64_char n \<noteq> CHR ''=''" "b64_char n \<noteq> CHR 0x0A" "b64_char n \<noteq> CHR 0x0D" by auto
qed

lemma sextets:
  fixes x :: nat
  shows "((x div 262144 * 64 + x div 4096 mod 64) * 64 + x div 64 mod 64) * 64 + x mod 64 = x"
    "(x div 262144 * 64 + x div 4096 mod 64) * 64 + x div 64 mod 64 = x div 64"
    "x div 262144 * 64 + x div 4096 mod 64 = x div 4096"
proof -
  show a: "x div 262144 * 64 + x div 4096 mod 64 = x div 4096"
    using div_mult_mod_eq [of "x div 4096" 64] by (simp add: div_mult2_eq [symmetric])
  show b: "(x div 262144 * 64 + x div 4096 mod 64) * 64 + x div 64 mod 64 = x div 64"
    unfolding a using div_mult_mod_eq [of "x div 64" 64] by (simp add: div_mult2_eq [symmetric])
  show "((x div 262144 * 64 + x div 4096 mod 64) * 64 + x div 64 mod 64) * 64 + x mod 64 = x"
    unfolding b by simp
qed

lemma of_char_less [simp]: "of_char (c :: char) < (256 :: nat)"
  using of_char_mod_256 [of c, where 'a = nat] by (metis mod_less_divisor zero_less_numeral)

lemma octets:
  fixes a b c :: nat
  assumes "b < 256" "c < 256"
  shows "(a * 65536 + b * 256 + c) div 65536 = a" "(a * 65536 + b * 256 + c) div 256 mod 256 = b mod 256"
    "(a * 65536 + b * 256 + c) mod 256 = c"
proof -
  obtain k where k: "k = a * 256 + b" by blast
  then have "a * 65536 + b * 256 + c = k * 256 + c" by simp
  then have d: "(a * 65536 + b * 256 + c) div 256 = a * 256 + b" "(a * 65536 + b * 256 + c) mod 256 = c"
    using assms(2) by (simp_all add: k [symmetric])
  then show "(a * 65536 + b * 256 + c) mod 256 = c" by simp
  show "(a * 65536 + b * 256 + c) div 256 mod 256 = b mod 256" unfolding d(1) by simp
  have "(a * 65536 + b * 256 + c) div 65536 = (a * 65536 + b * 256 + c) div 256 div 256"
    by (simp only: div_mult2_eq [symmetric]) simp
  then show "(a * 65536 + b * 256 + c) div 65536 = a" unfolding d(1) using assms(1) by simp
qed

lemma base64_encode_clean: "c \<in> set (base64_encode s) \<Longrightarrow> c \<noteq> CHR 0x0A \<and> c \<noteq> CHR 0x0D"
proof (induction s rule: base64_encode.induct)
  case (4 a b c s)
  have "x div 262144 < 64" if "x = of_char a * 65536 + of_char b * 256 + (of_char c :: nat)" for x
    using of_char_less [of a] of_char_less [of b] of_char_less [of c] that by linarith
  with 4 show ?case by (auto simp: Let_def b64_char_not)
next
  case (3 a b)
  have "x div 262144 < 64" if "x = of_char a * 65536 + (of_char b * 256 :: nat)" for x
    using of_char_less [of a] of_char_less [of b] that by linarith
  with 3 show ?case by (auto simp: Let_def b64_char_not)
next
  case (2 a)
  have "x div 262144 < 64" if "x = of_char a * (65536 :: nat)" for x
    using of_char_less [of a] that by linarith
  with 2 show ?case by (auto simp: Let_def b64_char_not)
qed simp

lemma base64_quanta_full:
  assumes "x div 262144 < 64"
  shows "base64_quanta (b64_char (x div 262144) # b64_char (x div 4096 mod 64) # b64_char (x div 64 mod 64) #
      b64_char (x mod 64) # s) =
    char_of (x div 65536) # char_of (x div 256 mod 256) # char_of (x mod 256) # base64_quanta s"
proof -
  have "base64_quanta (b64_char a # b64_char b # b64_char c # b64_char d # s) =
      (let x = ((a * 64 + b) * 64 + c) * 64 + d in
       char_of (x div 65536) # char_of (x div 256 mod 256) # char_of (x mod 256) # base64_quanta s)"
    if "a < 64" "b < 64" "c < 64" "d < 64" for a b c d
    using that by (simp add: b64_val_b64_char b64_char_not)
  from this [of "x div 262144" "x div 4096 mod 64" "x div 64 mod 64" "x mod 64"] assms
  show ?thesis unfolding sextets(1) Let_def by simp
qed

lemma base64_quanta_encode: "base64_quanta (base64_encode s) = s"
proof (induction s rule: base64_encode.induct)
  case (2 a)
  let ?x = "of_char a * 65536 :: nat"
  have "?x div 262144 < 64" using of_char_less [of a] by linarith
  moreover have "(?x div 262144 * 64 + ?x div 4096 mod 64) div 16 = of_char a"
    unfolding sextets(3) by (simp add: div_mult2_eq [symmetric])
  ultimately show ?case by (simp add: Let_def b64_val_b64_char del: div_mult_self3)
next
  case (3 a b)
  let ?x = "of_char a * 65536 + of_char b * 256 :: nat"
  have lt: "?x div 262144 < 64" using of_char_less [of a] of_char_less [of b] by linarith
  let ?y = "(?x div 262144 * 64 + ?x div 4096 mod 64) * 64 + ?x div 64 mod 64"
  have y: "?y div 1024 = of_char a" "?y div 4 mod 256 = of_char b"
    unfolding sextets(2) using octets(1,2) [of "of_char b" 0 "of_char a"]
    by (simp_all add: div_mult2_eq [symmetric])
  have "(char_of (?y div 4) :: char) = char_of (?y div 4 mod 256)" by simp
  also have "\<dots> = b" by (simp only: y(2)) simp
  finally have "char_of (?y div 4) = b" .
  with lt y(1) show ?case by (simp add: Let_def b64_val_b64_char b64_char_not)
next
  case (4 a b c s)
  let ?x = "of_char a * 65536 + of_char b * 256 + of_char c :: nat"
  have lt: "?x div 262144 < 64"
    using of_char_less [of a] of_char_less [of b] of_char_less [of c] by linarith
  have "?x div 65536 = of_char a" "?x div 256 mod 256 = of_char b" "?x mod 256 = of_char c"
    using octets [of "of_char b" "of_char c" "of_char a"] by simp_all
  then have "base64_quanta (base64_encode (a # b # c # s)) = char_of (of_char a :: nat) #
      char_of (of_char b :: nat) # char_of (of_char c :: nat) # base64_quanta (base64_encode s)"
    using base64_quanta_full [OF lt] by (simp only: base64_encode.simps Let_def)
  with 4 show ?case by simp
qed simp

lemma base64_decode_encode [simp]: "base64_decode (base64_encode s) = s"
proof -
  have "filter (\<lambda>c. c \<noteq> CHR 0x0A \<and> c \<noteq> CHR 0x0D) (base64_encode s) = base64_encode s"
    by (simp add: filter_id_conv base64_encode_clean)
  then show ?thesis by (simp add: base64_decode_def base64_quanta_encode)
qed

end
