(* ===== verification/JsonRoundTrip.thy ===== *)
theory JsonRoundTrip
  imports GoDecode
begin

text \<open>
  What \<open>json.Marshal\<close> writes, \<open>json.Unmarshal\<close> reads back: for every tree whose strings are
  valid UTF-8, the parser returns the tree, with the fuel the decoder uses. With the round trip
  of base 64 this is the ground on which the etcd traffic between two instances stands.
\<close>

section \<open>Strings\<close>

function valid_utf8 :: "string \<Rightarrow> bool" where
  "valid_utf8 [] = True"
| "valid_utf8 (c # cs) =
     (if (of_char c :: nat) < 128 then valid_utf8 cs
      else case utf8_len (c # cs) of None \<Rightarrow> False | Some k \<Rightarrow> valid_utf8 (drop (k - 1) cs))"
  by pat_completeness auto
termination
  by (relation "measure length") (auto intro: le_imp_less_Suc)

lemma hex_val_digit [simp]: "n < 16 \<Longrightarrow> hex_val (hex_digit n) = Some n"
  by (simp add: hex_val_def hex_digit_def Let_def)

lemma hex4_digits:
  "a < 16 \<Longrightarrow> b < 16 \<Longrightarrow> c < 16 \<Longrightarrow> d < 16 \<Longrightarrow>
   hex4 (hex_digit a # hex_digit b # hex_digit c # hex_digit d # t) = Some (((a * 16 + b) * 16 + c) * 16 + d)"
  by (simp add: hex4_def)

lemma hex4_00:
  "b < 256 \<Longrightarrow> hex4 (CHR ''0'' # CHR ''0'' # hex_digit (b div 16) # hex_digit (b mod 16) # t) = Some b"
  using hex4_digits [of 0 0 "b div 16" "b mod 16" t] by (simp add: hex_digit_numeral)

lemma of_char_bslash: "of_char bslash = (92 :: nat)"
  by (simp add: bslash_def)

lemma char_eqI: "(of_char c :: nat) = of_char d \<Longrightarrow> (c :: char) = d"
  by simp

lemma not_special:
  "(of_char c :: nat) \<noteq> 34 \<Longrightarrow> c \<noteq> CHR 0x22" "(of_char c :: nat) \<noteq> 92 \<Longrightarrow> c \<noteq> bslash"
  by (auto simp: bslash_def)

lemma bslash_not [simp]: "bslash \<noteq> CHR 0x22" "bslash \<noteq> CHR ''u''" "\<not> (of_char bslash :: nat) < 32"
  by (simp_all add: bslash_def char_of_def bit_iff_odd)

lemma jstring_simple_escape:
  "e \<noteq> CHR ''u'' \<Longrightarrow> simple_escape e = Some x \<Longrightarrow>
   jstring (bslash # e # t) = map_option (\<lambda>(s, r). (x # s, r)) (jstring t)"
  by simp

lemma jstring_unicode_escape:
  "unicode_escape es = Some (u, k) \<Longrightarrow>
   jstring (bslash # CHR ''u'' # es) = map_option (\<lambda>(s, r). (u @ s, r)) (jstring (drop k es))"
  by simp

lemma jstring_plain:
  "(of_char c :: nat) \<notin> {34, 92} \<Longrightarrow> 32 \<le> (of_char c :: nat) \<Longrightarrow> (of_char c :: nat) < 128 \<Longrightarrow>
   jstring (c # t) = map_option (\<lambda>(s, r). (c # s, r)) (jstring t)"
  using not_special [of c] by simp

lemma simple_escape_simps:
  "simple_escape bslash = Some bslash" "simple_escape (CHR 0x22) = Some (CHR 0x22)"
  "simple_escape (CHR ''b'') = Some (CHR 0x08)" "simple_escape (CHR ''f'') = Some (CHR 0x0C)"
  "simple_escape (CHR ''n'') = Some (CHR 0x0A)" "simple_escape (CHR ''r'') = Some (CHR 0x0D)"
  "simple_escape (CHR ''t'') = Some (CHR 0x09)"
  by (simp_all add: simple_escape_def bslash_def char_of_def bit_iff_odd)

lemma jstring_escape_ascii:
  assumes "(of_char c :: nat) < 128"
  shows "jstring (escape_ascii c @ t) = map_option (\<lambda>(x, r). (c # x, r)) (jstring t)"
proof -
  define b where "b = (of_char c :: nat)"
  consider (simple) e where "escape_ascii c = [bslash, e]" "e \<noteq> CHR ''u''" "simple_escape e = Some c"
    | (u) "escape_ascii c = bslash # ''u00'' @ [hex_digit (b div 16), hex_digit (b mod 16)]"
    | (plain) "escape_ascii c = [c]" "b \<notin> {34, 92}" "32 \<le> b"
  proof -
    have s: "thesis" if "escape_ascii c = [bslash, e]" "e \<noteq> CHR ''u''" "simple_escape e = Some c"
      for e using simple that by blast
    have q: "b = 92 \<Longrightarrow> c = bslash" "b = 34 \<Longrightarrow> c = CHR 0x22" "b = 8 \<Longrightarrow> c = CHR 0x08"
      "b = 12 \<Longrightarrow> c = CHR 0x0C" "b = 10 \<Longrightarrow> c = CHR 0x0A" "b = 13 \<Longrightarrow> c = CHR 0x0D" "b = 9 \<Longrightarrow> c = CHR 0x09"
      by (rule char_eqI, simp add: b_def [symmetric] of_char_bslash)+
    show thesis
    proof (cases "b \<in> {92, 34, 8, 12, 10, 13, 9}")
      case True
      then show thesis
        using s [of c] s [of "CHR ''b''"] s [of "CHR ''f''"] s [of "CHR ''n''"] s [of "CHR ''r''"] s [of "CHR ''t''"]
        by (elim insertE emptyE) (simp_all add: q simple_escape_simps escape_ascii_def of_char_bslash)
    next
      case False
      then show thesis
        using u plain
        by (cases "b < 32 \<or> b = 60 \<or> b = 62 \<or> b = 38") (simp_all add: escape_ascii_def Let_def b_def [symmetric])
    qed
  qed
  then show ?thesis
  proof cases
    case (simple e)
    then show ?thesis by (simp add: jstring_simple_escape del: jstring.simps)
  next
    case u
    have "utf8_encode b = [c]" "hex4 (CHR ''0'' # CHR ''0'' # hex_digit (b div 16) # hex_digit (b mod 16) # t) = Some b"
      using assms by (simp_all add: utf8_encode_def hex4_00 b_def)
    then have "unicode_escape (CHR ''0'' # CHR ''0'' # hex_digit (b div 16) # hex_digit (b mod 16) # t) = Some ([c], 4)"
      using assms by (simp add: unicode_escape_def b_def)
    from jstring_unicode_escape [OF this] u show ?thesis by (simp del: jstring.simps)
  next
    case plain
    with assms show ?thesis by (simp add: jstring_plain b_def del: jstring.simps)
  qed
qed

lemma byte_in_prefix:
  "i < k \<Longrightarrow> k \<le> length s \<Longrightarrow> byte_in lo hi (take k s @ t) i \<longleftrightarrow> byte_in lo hi s i"
  by (simp add: byte_in_def nth_append)

lemma utf8_len_bounds: "utf8_len s = Some k \<Longrightarrow> 2 \<le> k \<and> k \<le> length s"
  by (auto simp: utf8_len_def utf8_2_def utf8_3_def utf8_4_def byte_in_def split: if_splits)

lemma utf8_prefix:
  "2 \<le> k \<Longrightarrow> k \<le> length s \<Longrightarrow> utf8_2 (take k s @ t) = utf8_2 s"
  "3 \<le> k \<Longrightarrow> k \<le> length s \<Longrightarrow> utf8_3 (take k s @ t) = utf8_3 s"
  "4 \<le> k \<Longrightarrow> k \<le> length s \<Longrightarrow> utf8_4 (take k s @ t) = utf8_4 s"
  by (simp_all add: utf8_2_def utf8_3_def utf8_4_def byte_in_prefix)

lemma utf8_len_prefix:
  assumes "utf8_len s = Some k"
  shows "utf8_len (take k s @ t) = Some k"
  using assms utf8_len_bounds [OF assms]
  by (auto simp: utf8_len_def utf8_prefix split: if_splits)

lemma utf8_len_first: "utf8_len (c # cs) = Some k \<Longrightarrow> 194 \<le> (of_char c :: nat)"
proof -
  have first: "byte_in lo hi (c # cs) 0 \<Longrightarrow> lo \<le> (of_char c :: nat)" for lo hi by (simp add: byte_in_def)
  have "utf8_2 (c # cs) \<Longrightarrow> 194 \<le> (of_char c :: nat)" "utf8_3 (c # cs) \<Longrightarrow> 194 \<le> (of_char c :: nat)"
    "utf8_4 (c # cs) \<Longrightarrow> 194 \<le> (of_char c :: nat)"
    unfolding utf8_2_def utf8_3_def utf8_4_def by (elim conjE disjE; drule first; linarith)+
  then show "utf8_len (c # cs) = Some k \<Longrightarrow> 194 \<le> (of_char c :: nat)"
    by (auto simp: utf8_len_def split: if_splits)
qed

lemma jstring_utf8:
  assumes "utf8_len (c # cs) = Some k"
  shows "jstring (take k (c # cs) @ t) = map_option (\<lambda>(x, r). (take k (c # cs) @ x, r)) (jstring t)"
proof -
  have k: "2 \<le> k" "k \<le> Suc (length cs)" using utf8_len_bounds [OF assms] by simp_all
  have c: "c \<noteq> CHR 0x22" "c \<noteq> bslash" "\<not> (of_char c :: nat) < 128" "\<not> (of_char c :: nat) < 32"
    using utf8_len_first [OF assms] by (auto simp: bslash_def)
  have t: "take k (c # cs) @ t = c # take (k - 1) cs @ t" using k by (simp add: take_Cons')
  have "take k (c # take (k - 1) cs @ t) = take k (c # cs)" using k by (simp add: take_Cons')
  moreover have "utf8_len (c # take (k - 1) cs @ t) = Some k" using utf8_len_prefix [OF assms, of t] t by simp
  ultimately show ?thesis using c k unfolding t by simp
qed

lemma jstring_line_separator:
  assumes "utf8_len (c # cs) = Some k" "line_separator (c # cs)"
  shows "jstring (bslash # ''u202'' @ [hex_digit (of_char (cs ! 1) mod 16)] @ t) =
    map_option (\<lambda>(x, r). (take k (c # cs) @ x, r)) (jstring t)"
proof -
  obtain a b ds where cs: "cs = a # b # ds" and n: "(of_char c :: nat) = 0xE2" "(of_char a :: nat) = 0x80"
      "0xA8 \<le> (of_char b :: nat)" "(of_char b :: nat) \<le> 0xA9"
    using assms(2) by (cases cs; cases "tl cs") (auto simp: line_separator_def byte_in_def)
  then have "(of_char b :: nat) = 0xA8 \<or> (of_char b :: nat) = 0xA9" by linarith
  then obtain d where d: "of_char b mod 16 = (d :: nat)" "d = 8 \<or> d = 9" "(of_char b :: nat) = 0xA0 + d" by auto
  have k: "k = 3" using assms(1) n d
    by (auto simp: cs utf8_len_def utf8_2_def utf8_3_def byte_in_def split: if_splits)
  have "hex4 (CHR ''2'' # CHR ''0'' # CHR ''2'' # hex_digit d # t) = Some (0x2020 + d)"
    using hex4_digits [of 2 0 2 d t] d(2) by (auto simp: hex_digit_numeral)
  moreover have "utf8_encode (0x2020 + d) = [char_of (0xE2 :: nat), char_of (0x80 :: nat), char_of (0xA0 + d)]"
    using d(2) by (auto simp: utf8_encode_def)
  moreover have "char_of (0xE2 :: nat) = c" "char_of (0x80 :: nat) = a" "char_of (0xA0 + d) = b"
    using n(1,2) d(3) by (metis char_of_char)+
  ultimately have "unicode_escape (CHR ''2'' # CHR ''0'' # CHR ''2'' # hex_digit d # t) = Some ([c, a, b], 4)"
    using d(2) by (auto simp: unicode_escape_def)
  from jstring_unicode_escape [OF this] show ?thesis by (simp add: cs k d(1) del: jstring.simps)
qed

lemma jstring_json_chars:
  "valid_utf8 s \<Longrightarrow> jstring (json_chars s @ CHR 0x22 # r) = Some (s, r)"
proof (induction s rule: json_chars.induct)
  case (2 c cs)
  show ?case
  proof (cases "(of_char c :: nat) < 128")
    case True
    with 2 show ?thesis by (simp add: jstring_escape_ascii del: jstring.simps)
  next
    case False
    with "2.prems" obtain k where k: "utf8_len (c # cs) = Some k" "valid_utf8 (drop (k - 1) cs)"
      by (auto split: option.splits)
    have IH: "jstring (json_chars (drop (k - 1) cs) @ CHR 0x22 # r) = Some (drop (k - 1) cs, r)"
      using "2.IH"(3) [OF False k(1)] k(2) by blast
    have split: "take k (c # cs) @ drop (k - 1) cs = c # cs"
      using utf8_len_bounds [OF k(1)] by (simp add: take_Cons')
    show ?thesis
    proof (cases "line_separator (c # cs)")
      case True
      with False k(1) jstring_line_separator [OF k(1) True] IH split show ?thesis
        by (simp del: jstring.simps)
    next
      case no: False
      with False k(1) jstring_utf8 [OF k(1)] IH split show ?thesis
        by (simp del: jstring.simps)
    qed
  qed
qed simp

section \<open>Numbers\<close>

text \<open>A number ends before any character that cannot continue it.\<close>

definition num_stop :: "string \<Rightarrow> bool" where
  "num_stop r \<longleftrightarrow> (case r of [] \<Rightarrow> True
     | c # cs \<Rightarrow> \<not> is_digit c \<and> c \<noteq> CHR ''.'' \<and> c \<noteq> CHR ''e'' \<and> c \<noteq> CHR ''E'')"

lemma num_stop_simps [simp]:
  "num_stop []" "num_stop (CHR '','' # r)" "num_stop (CHR ''}'' # r)" "num_stop (CHR '']'' # r)"
  by (simp_all add: num_stop_def is_digit_def)

lemma takeWhile_digits:
  assumes "list_all is_digit ds" "num_stop r"
  shows "takeWhile is_digit (ds @ r) = ds" "dropWhile is_digit (ds @ r) = r"
proof -
  have "takeWhile is_digit r = []" "dropWhile is_digit r = r"
    using assms(2) by (cases r; simp add: num_stop_def)+
  with assms(1) show "takeWhile is_digit (ds @ r) = ds" "dropWhile is_digit (ds @ r) = r"
    by (auto simp: list_all_iff takeWhile_append2 dropWhile_append2)
qed

lemma jnum_rest: "num_stop r \<Longrightarrow> jnum_frac r = Some ([], r)" "num_stop r \<Longrightarrow> jnum_exp r = Some ([], r)"
  by (cases r; simp add: num_stop_def jnum_frac_def jnum_exp_def)+

lemma jnum_int_dec:
  assumes "num_stop r"
  shows "jnum_int (dec n @ r) = Some (dec n, r)"
proof (cases "n = 0")
  case True
  then show ?thesis by (simp add: jnum_int_def dec_small)
next
  case False
  obtain c cs where d: "dec n = c # cs" by (cases "dec n") auto
  have "c \<noteq> CHR ''0''" "is_digit c"
    using dec_no_leading_zero [of n] dec_digits [of c n] False d by auto
  with d takeWhile_digits [OF dec_all_digits assms, of n] show ?thesis by (simp add: jnum_int_def)
qed

lemma hd_dec: "hd (dec n) \<noteq> CHR ''-''"
proof -
  have "is_digit (hd (dec n))" by (rule dec_digits [of _ n]) simp
  then show ?thesis by auto
qed

lemma jnumber_dec_int:
  assumes "num_stop r"
  shows "jnumber (dec_int i @ r) = Some (dec_int i, r)"
proof (cases "i < 0")
  case True
  with assms show ?thesis by (simp add: jnumber_def dec_int_def jnum_int_dec jnum_rest)
next
  case False
  obtain c cs where d: "dec (nat i) = c # cs" by (cases "dec (nat i)") auto
  with hd_dec [of "nat i"] have "c \<noteq> CHR ''-''" by simp
  with False assms d jnum_int_dec [OF assms, of "nat i"] show ?thesis
    by (simp add: jnumber_def dec_int_def jnum_rest)
qed

lemma ParseInt_dec_int:
  assumes "int64_range i"
  shows "ParseInt (dec_int i) = (i, False)"
proof (cases "i < 0")
  case True
  with assms dec_all_digits [of "nat (- i)"] show ?thesis
    by (simp add: ParseInt_def dec_int_def int64_range_def Let_def)
next
  case False
  obtain c cs where d: "dec (nat i) = c # cs" by (cases "dec (nat i)") auto
  have dig: "is_digit c" using dec_digits [of c "nat i"] d by simp
  then have "c \<noteq> CHR ''-''" "c \<noteq> CHR ''+''" by (auto simp: is_digit_def)
  moreover have "dec_value (c # cs) = nat i" "list_all is_digit (c # cs)"
    using dec_value_dec [of "nat i"] dec_all_digits [of "nat i"] d by simp_all
  ultimately show ?thesis
    using False assms d by (simp add: ParseInt_def dec_int_def int64_range_def)
qed

section \<open>Trees\<close>

text \<open>The tree the parser builds from an encoded value.\<close>

fun jvalue_of :: "json \<Rightarrow> jvalue" where
  "jvalue_of (JBool b) = VBool b"
| "jvalue_of (JInt i) = VNum (dec_int i)"
| "jvalue_of (JStr s) = VStr s"
| "jvalue_of (JArr xs) = VArr (map jvalue_of xs)"
| "jvalue_of (JObj kvs) = VObj (map (\<lambda>(k, v). (k, jvalue_of v)) kvs)"

fun valid_json :: "json \<Rightarrow> bool" where
  "valid_json (JStr s) = valid_utf8 s"
| "valid_json (JArr xs) = list_all valid_json xs"
| "valid_json (JObj kvs) = list_all (\<lambda>(k, v). valid_utf8 k \<and> valid_json v) kvs"
| "valid_json _ = True"

fun fuel_of :: "json \<Rightarrow> nat" where
  "fuel_of (JArr xs) = 2 + sum_list (map (\<lambda>x. Suc (fuel_of x)) xs)"
| "fuel_of (JObj kvs) = 2 + sum_list (map (\<lambda>(k, v). Suc (fuel_of v)) kvs)"
| "fuel_of _ = 1"

lemma skip_ws_Cons [simp]: "\<not> is_ws c \<Longrightarrow> skip_ws (c # cs) = c # cs"
  by (simp add: skip_ws_def)

lemma is_ws_simps [simp]:
  "\<not> is_ws CHR 0x22" "\<not> is_ws CHR ''{''" "\<not> is_ws CHR ''['' " "\<not> is_ws CHR ''t''" "\<not> is_ws CHR ''f''"
  "\<not> is_ws CHR '':''" "\<not> is_ws CHR '',''" "\<not> is_ws CHR ''}''" "\<not> is_ws CHR '']''" "\<not> is_ws CHR ''-''"
  by (simp_all add: is_ws_def)

lemma is_ws_digit: "is_digit c \<Longrightarrow> \<not> is_ws c"
  by (auto simp: is_ws_def is_digit_def)

text \<open>The first character of an encoded value is never white space, a closing bracket or brace.\<close>

lemma json_encode_first:
  obtains c cs where "json_encode j = c # cs" "\<not> is_ws c" "c \<noteq> CHR '']''" "c \<noteq> CHR ''}''"
proof (cases j)
  case (JBool b)
  with that show thesis by (cases b) auto
next
  case (JInt i)
  obtain c cs where d: "dec (nat i) = c # cs" by (cases "dec (nat i)") auto
  have "is_digit c" using dec_digits [of c "nat i"] d by simp
  then have "\<not> is_ws c" "c \<noteq> CHR '']''" "c \<noteq> CHR ''}''" by (auto simp: is_ws_digit is_digit_def)
  with JInt d that show thesis by (cases "i < 0") (auto simp: dec_int_def)
qed (use that in \<open>auto simp: json_string_def\<close>)

lemma jparse_int:
  assumes "num_stop r"
  shows "jparse (Suc n) (dec_int i @ r) = Some (VNum (dec_int i), r)"
proof -
  obtain c cs where d: "dec_int i = c # cs" by (cases "dec_int i") (auto simp: dec_int_def split: if_splits)
  have "c = CHR ''-'' \<or> is_digit c"
    using d dec_digits [of c "nat i"] by (auto simp: dec_int_def split: if_splits)
  then have "\<not> is_ws c" "c \<noteq> CHR 0x22" "c \<noteq> CHR ''{''" "c \<noteq> CHR ''[''" "c \<noteq> CHR ''t''" "c \<noteq> CHR ''f''" "c \<noteq> CHR ''n''"
    by (auto simp: is_ws_digit is_digit_def)
  with jnumber_dec_int [OF assms, of i] d show ?thesis by simp
qed

lemma jparse_elements:
  assumes "xs \<noteq> []" "list_all valid_json xs"
    and IH: "\<And>x n r. x \<in> set xs \<Longrightarrow> valid_json x \<Longrightarrow> fuel_of x \<le> n \<Longrightarrow> num_stop r \<Longrightarrow>
      jparse n (json_encode x @ r) = Some (jvalue_of x, r)"
    and "1 + sum_list (map (\<lambda>x. Suc (fuel_of x)) xs) \<le> n"
  shows "jparse_array n (join_with '','' (map json_encode xs) @ CHR '']'' # r) = Some (map jvalue_of xs, r)"
  using assms
proof (induction xs arbitrary: n)
  case (Cons x xs)
  then obtain m where n: "n = Suc m" by (cases n) auto
  show ?case
  proof (cases "xs = []")
    case True
    with Cons.prems n show ?thesis by simp
  next
    case False
    with Cons.prems n have "jparse_array m (join_with '','' (map json_encode xs) @ CHR '']'' # r) = Some (map jvalue_of xs, r)"
      by (intro Cons.IH) auto
    moreover have "jparse m (json_encode x @ CHR '','' # join_with '','' (map json_encode xs) @ CHR '']'' # r) =
        Some (jvalue_of x, CHR '','' # join_with '','' (map json_encode xs) @ CHR '']'' # r)"
      using Cons.prems n by (intro Cons.prems(3)) auto
    ultimately show ?thesis using False n by (simp add: join_with_Cons)
  qed
qed simp

abbreviation encode_field :: "string \<times> json \<Rightarrow> string" where
  "encode_field \<equiv> \<lambda>(k, v). json_string k @ '':'' @ json_encode v"

lemma jparse_fields:
  assumes "kvs \<noteq> []" "list_all (\<lambda>(k, v). valid_utf8 k \<and> valid_json v) kvs"
    and IH: "\<And>k v n r. (k, v) \<in> set kvs \<Longrightarrow> valid_json v \<Longrightarrow> fuel_of v \<le> n \<Longrightarrow> num_stop r \<Longrightarrow>
      jparse n (json_encode v @ r) = Some (jvalue_of v, r)"
    and "1 + sum_list (map (\<lambda>(k, v). Suc (fuel_of v)) kvs) \<le> n"
  shows "jparse_object n (join_with '','' (map encode_field kvs) @ CHR ''}'' # r) =
    Some (map (\<lambda>(k, v). (k, jvalue_of v)) kvs, r)"
  using assms
proof (induction kvs arbitrary: n)
  case (Cons kv kvs)
  obtain k v where kv: "kv = (k, v)" by (cases kv)
  from Cons.prems(4) obtain m where n: "n = Suc m" by (cases n) auto
  have key: "jstring (json_chars k @ CHR 0x22 # t) = Some (k, t)" for t
    using Cons.prems(2) kv by (simp add: jstring_json_chars)
  have val: "jparse m (json_encode v @ t) = Some (jvalue_of v, t)" if "num_stop t" for t
    using Cons.prems n kv that by (intro Cons.prems(3)) auto
  show ?case
  proof (cases "kvs = []")
    case True
    with n kv key val show ?thesis by (simp add: json_string_def)
  next
    case False
    with Cons.prems n kv have "jparse_object m (join_with '','' (map encode_field kvs) @ CHR ''}'' # r) =
        Some (map (\<lambda>(k, v). (k, jvalue_of v)) kvs, r)"
      by (intro Cons.IH) auto
    with False n kv key val show ?thesis by (simp add: join_with_Cons json_string_def)
  qed
qed simp

lemma jparse_json_encode:
  "valid_json j \<Longrightarrow> fuel_of j \<le> n \<Longrightarrow> num_stop r \<Longrightarrow> jparse n (json_encode j @ r) = Some (jvalue_of j, r)"
proof (induction j arbitrary: n r)
  case (JBool b)
  then show ?case by (cases n) (auto simp: jliteral_def)
next
  case (JInt i)
  then show ?case by (cases n) (simp_all add: jparse_int del: jparse.simps)
next
  case (JStr s)
  then show ?case by (cases n) (simp_all add: json_string_def jstring_json_chars)
next
  case (JArr xs)
  then obtain m where n: "n = Suc m" by (cases n) auto
  show ?case
  proof (cases "xs = []")
    case True
    with n show ?thesis by simp
  next
    case False
    then obtain x ys where xs: "xs = x # ys" by (cases xs) auto
    obtain c cs where c: "json_encode x = c # cs" "\<not> is_ws c" "c \<noteq> CHR '']''" by (rule json_encode_first)
    have "\<exists>t. join_with '','' (map json_encode xs) @ CHR '']'' # r = c # t"
      using xs c by (cases ys) (auto simp: join_with_Cons)
    then obtain t where t: "join_with '','' (map json_encode xs) @ CHR '']'' # r = c # t" by blast
    have "jparse_array m (join_with '','' (map json_encode xs) @ CHR '']'' # r) = Some (map jvalue_of xs, r)"
      using JArr n False by (intro jparse_elements) auto
    with n t c show ?thesis by simp
  qed
next
  case (JObj kvs)
  then obtain m where n: "n = Suc m" by (cases n) auto
  show ?case
  proof (cases "kvs = []")
    case True
    with n show ?thesis by simp
  next
    case False
    have "\<exists>t. join_with '','' (map encode_field kvs) @ CHR ''}'' # r = CHR 0x22 # t"
      using False by (cases kvs; cases "tl kvs") (auto simp: join_with_Cons json_string_def)
    then obtain t where t: "join_with '','' (map encode_field kvs) @ CHR ''}'' # r = CHR 0x22 # t" by blast
    have "jparse_object m (join_with '','' (map encode_field kvs) @ CHR ''}'' # r) =
        Some (map (\<lambda>(k, v). (k, jvalue_of v)) kvs, r)"
      using JObj n False by (intro jparse_fields) (auto simp: snds.intros)
    with n t show ?thesis by simp
  qed
qed

section \<open>The fuel of the decoder\<close>

lemma length_join_with:
  "length (join_with sep ys) + length sep \<ge> sum_list (map (\<lambda>y. length y + length sep) ys)"
  by (induction sep ys rule: join_with.induct) simp_all

lemma sum_list_double: "sum_list (map (\<lambda>x. 2 * f x) xs) = 2 * sum_list (map f xs :: nat list)"
  by (induction xs) simp_all

lemma fuel_of_le: "fuel_of j \<le> 2 * length (json_encode j)"
proof (induction j)
  case (JInt i)
  have "dec_int i \<noteq> []" by (simp add: dec_int_def)
  then show ?case by (cases "dec_int i") auto
next
  case (JArr xs)
  have "sum_list (map (\<lambda>x. Suc (fuel_of x)) xs) \<le> sum_list (map (\<lambda>x. 2 * (length (json_encode x) + 1)) xs)"
    by (rule sum_list_mono) (use JArr in fastforce)
  also have "\<dots> = 2 * sum_list (map (\<lambda>y. length y + 1) (map json_encode xs))"
    by (simp only: sum_list_double map_map comp_def)
  also have "\<dots> \<le> 2 * (length (join_with '','' (map json_encode xs)) + 1)"
    using length_join_with [where sep = "'',''" and ys = "map json_encode xs"] by simp
  finally show ?case by simp
next
  case (JObj kvs)
  have "sum_list (map (\<lambda>(k, v). Suc (fuel_of v)) kvs) \<le> sum_list (map (\<lambda>x. 2 * (length (encode_field x) + 1)) kvs)"
    by (rule sum_list_mono) (use JObj in \<open>force simp: snds.intros\<close>)
  also have "\<dots> = 2 * sum_list (map (\<lambda>y. length y + 1) (map encode_field kvs))"
    by (simp only: sum_list_double map_map comp_def)
  also have "\<dots> \<le> 2 * (length (join_with '','' (map encode_field kvs)) + 1)"
    using length_join_with [where sep = "'',''" and ys = "map encode_field kvs"] by simp
  finally show ?case by simp
qed (simp_all add: json_string_def)

lemma json_parse_encode:
  assumes "valid_json j"
  shows "json_parse (json_encode j) = Some (jvalue_of j)"
proof -
  have "jparse (json_fuel (json_encode j)) (json_encode j @ []) = Some (jvalue_of j, [])"
    using fuel_of_le [of j] by (intro jparse_json_encode [OF assms]) (simp_all add: json_fuel_def)
  then show ?thesis by (simp add: json_parse_def skip_ws_def)
qed

text \<open>For every text, more fuel than \<open>json_fuel\<close> does not change the result: the parser never
  runs out. Every value consumes at least one character, so each pair of nested calls works on a
  shorter text.\<close>

lemma skip_ws_shorter: "skip_ws s = c # cs \<Longrightarrow> length cs < length s"
  using length_dropWhile_le [of is_ws s] by (simp add: skip_ws_def)

lemma jstring_shorter: "jstring s = Some (t, r) \<Longrightarrow> length r < length s"
proof (induction s arbitrary: t r rule: length_induct)
  case (1 s)
  have IH: "length r < length u" if "length u < length s" "jstring u = Some (t', r)" for u t'
    using 1 that by blast
  obtain c cs where s: "s = c # cs" using "1.prems" by (cases s) auto
  have "r = cs \<or> (\<exists>u t'. length u \<le> length cs \<and> jstring u = Some (t', r))"
    using "1.prems"
    by (auto simp: s split: if_splits list.splits option.splits)
  then show ?case
  proof
    assume "\<exists>u t'. length u \<le> length cs \<and> jstring u = Some (t', r)"
    then obtain u t' where u: "length u \<le> length cs" "jstring u = Some (t', r)" by blast
    then have "length r < length u" using s by (intro IH) auto
    with u s show ?thesis by simp
  qed (simp add: s)
qed

lemma jnumber_shorter:
  assumes "jnumber s = Some (t, r)"
  shows "length r < length s"
proof -
  have int: "jnum_int u = Some (i, v) \<Longrightarrow> length v < length u" for u i v
    using length_dropWhile_le [of is_digit "tl u"]
    by (cases u) (auto simp: jnum_int_def split: if_splits)
  have frac: "jnum_frac u = Some (i, v) \<Longrightarrow> length v \<le> length u" for u i v
    using length_dropWhile_le [of is_digit "tl u"]
    by (cases u) (auto simp: jnum_frac_def split: if_splits)
  have exp: "jnum_exp u = Some (i, v) \<Longrightarrow> length v \<le> length u" for u i v
    using length_dropWhile_le [of is_digit "tl u"] length_dropWhile_le [of is_digit "tl (tl u)"]
    by (cases u; cases "tl u") (auto simp: jnum_exp_def split: if_splits)
  define u where "u = (case s of c # cs \<Rightarrow> if c = CHR ''-'' then cs else s | [] \<Rightarrow> [])"
  have u: "length u \<le> length s" by (cases s) (auto simp: u_def)
  from assms obtain i v f w e where num: "jnum_int u = Some (i, v)" "jnum_frac v = Some (f, w)" "jnum_exp w = Some (e, r)"
    by (cases s) (auto simp: jnumber_def u_def split: if_splits option.splits)
  show ?thesis using u int [OF num(1)] frac [OF num(2)] exp [OF num(3)] by linarith
qed

lemma jliteral_shorter: "word \<noteq> [] \<Longrightarrow> jliteral word v s = Some (x, r) \<Longrightarrow> length r < length s"
  by (cases s; cases word) (auto simp: jliteral_def split: if_splits)

lemma jparse_shorter:
  "jparse n s = Some (v, r) \<Longrightarrow> length r < length s"
  "jparse_array n s = Some (vs, r) \<Longrightarrow> length r < length s"
  "jparse_object n s = Some (kvs, r) \<Longrightarrow> length r < length s"
proof (induction n arbitrary: s v vs kvs r)
  case (Suc n)
  {
    case 1
    then obtain c cs where c: "skip_ws s = c # cs" by (cases "skip_ws s") auto
    note l = skip_ws_shorter [OF c]
    from 1 c consider "\<exists>t. jstring cs = Some (t, r)" | d where "skip_ws cs = d # r"
      | "\<exists>kvs. jparse_object n cs = Some (kvs, r)" | "\<exists>vs. jparse_array n cs = Some (vs, r)"
      | "jliteral ''true'' (VBool True) (c # cs) = Some (v, r)" | "jliteral ''false'' (VBool False) (c # cs) = Some (v, r)"
      | "jliteral ''null'' VNull (c # cs) = Some (v, r)" | "\<exists>t. jnumber (c # cs) = Some (t, r)"
      by (auto split: if_splits list.splits)
    then show ?case
      using l Suc.IH(2,3) [of cs _ r] jstring_shorter skip_ws_shorter jliteral_shorter jnumber_shorter
      by cases (fastforce dest: jstring_shorter skip_ws_shorter jliteral_shorter jnumber_shorter)+
  next
    case 2
    then obtain v' r' c cs where *: "jparse n s = Some (v', r')" "skip_ws r' = c # cs"
      "r = cs \<or> (\<exists>vs'. jparse_array n cs = Some (vs', r))"
      by (auto split: option.splits list.splits if_splits)
    then show ?case using Suc.IH(1) [OF *(1)] skip_ws_shorter [OF *(2)] Suc.IH(2) [of cs _ r] by fastforce
  next
    case 3
    then obtain q qs k r1 c cs v' r2 d ds where *: "skip_ws s = q # qs" "jstring qs = Some (k, r1)"
      "skip_ws r1 = c # cs" "jparse n cs = Some (v', r2)" "skip_ws r2 = d # ds"
      "r = ds \<or> (\<exists>kvs'. jparse_object n ds = Some (kvs', r))"
      by (auto split: option.splits list.splits if_splits)
    then show ?case
      using skip_ws_shorter [OF *(1)] jstring_shorter [OF *(2)] skip_ws_shorter [OF *(3)] Suc.IH(1) [OF *(4)]
        skip_ws_shorter [OF *(5)] Suc.IH(3) [of ds _ r] by fastforce
  }
qed simp_all

lemma jparse_more_fuel:
  "2 * length s + 1 \<le> n \<Longrightarrow> jparse (Suc n) s = jparse n s"
  "2 * length s + 2 \<le> n \<Longrightarrow> jparse_array (Suc n) s = jparse_array n s"
  "2 * length s + 2 \<le> n \<Longrightarrow> jparse_object (Suc n) s = jparse_object n s"
proof (induction n arbitrary: s)
  case (Suc n)
  {
    case 1
    show ?case
    proof (cases "skip_ws s")
      case Nil
      then show ?thesis by simp
    next
      case (Cons c cs)
      have "2 * length cs + 2 \<le> n" using skip_ws_shorter [OF Cons] 1 by simp
      note inner = Suc.IH(2,3) [OF this]
      show ?thesis
        by (simp only: jparse.simps(2) [of n] jparse.simps(2) [of "Suc n"] Cons list.case inner)
    qed
  next
    case 2
    have v: "jparse (Suc n) s = jparse n s" using 2 by (intro Suc.IH(1)) simp
    have "jparse_array (Suc n) cs = jparse_array n cs" if "jparse n s = Some (x, r)" "skip_ws r = c # cs" for x r c cs
      using 2 skip_ws_shorter [OF that(2)] jparse_shorter(1) [OF that(1)] by (intro Suc.IH(2)) simp
    then show ?case
      by (simp only: jparse_array.simps(2) [of n s] jparse_array.simps(2) [of "Suc n" s] v)
         (auto simp only: split: option.splits list.splits)
  next
    case 3
    show ?case
    proof (cases "skip_ws s")
      case Nil
      then show ?thesis by simp
    next
      case q: (Cons q qs)
      show ?thesis
      proof (cases "jstring qs")
        case None
        with q show ?thesis by simp
      next
        case (Some kr)
        obtain k r where kr: "kr = (k, r)" by (cases kr)
        show ?thesis
        proof (cases "skip_ws r")
          case Nil
          with q Some kr show ?thesis by simp
        next
          case (Cons c cs)
          have l: "length cs + 2 < length s"
            using skip_ws_shorter [OF q] jstring_shorter [of qs k r] skip_ws_shorter [OF Cons] Some kr by simp
          have v: "jparse (Suc n) cs = jparse n cs" using 3 l by (intro Suc.IH(1)) simp
          have "jparse_object (Suc n) ds = jparse_object n ds" if "jparse n cs = Some (x, u)" "skip_ws u = d # ds" for x u d ds
            using 3 l skip_ws_shorter [OF that(2)] jparse_shorter(1) [OF that(1)] by (intro Suc.IH(3)) simp
          with q Some kr Cons v show ?thesis
            by (simp only: jparse_object.simps(2) [of n s] jparse_object.simps(2) [of "Suc n" s] list.case option.case prod.case)
               (auto simp only: split: option.splits list.splits)
        qed
      qed
    qed
  }
qed simp_all

lemma json_fuel_enough: "json_fuel s \<le> n \<Longrightarrow> jparse n s = jparse (json_fuel s) s"
proof (induction n)
  case (Suc n)
  then show ?case
    using jparse_more_fuel(1) [of s n] by (cases "json_fuel s = Suc n") (auto simp: json_fuel_def simp del: jparse.simps)
qed (simp add: json_fuel_def)

end
