(* ===== verification/Log.thy ===== *)
theory Log
  imports Server JsonRoundTrip
begin

text \<open>
  The logger of \<open>src/src/log.go\<close>: the text of a line in both formats, the pool of scratch
  buffers, the channel to the writing goroutine with its synchronous fallback, and flushing.
  A format string with its arguments arrives as the text \<open>fmt.Sprintf\<close> makes of them. A
  send on a closed channel panics, which is the result \<open>None\<close>.
\<close>

section \<open>Levels\<close>

definition level_number :: "LogLevel \<Rightarrow> nat" where
  "level_number l =
     (case l of LOG_NONE \<Rightarrow> 0 | LOG_ERROR \<Rightarrow> 1 | LOG_INFO \<Rightarrow> 2 | LOG_VERBOSE \<Rightarrow> 3 | LOG_DEBUG \<Rightarrow> 4)"

lemma level_number_inj: "level_number a = level_number b \<longleftrightarrow> a = b"
  by (cases a; cases b) (simp_all add: level_number_def)

instantiation LogLevel :: linorder
begin

definition less_eq_LogLevel :: "LogLevel \<Rightarrow> LogLevel \<Rightarrow> bool" where
  "less_eq_LogLevel a b \<longleftrightarrow> level_number a \<le> level_number b"

definition less_LogLevel :: "LogLevel \<Rightarrow> LogLevel \<Rightarrow> bool" where
  "less_LogLevel a b \<longleftrightarrow> level_number a < level_number b"

instance
  by standard (auto simp: less_eq_LogLevel_def less_LogLevel_def level_number_inj)

end

definition LogLevel_String :: "LogLevel \<Rightarrow> string" where
  "LogLevel_String l =
     (case l of LOG_NONE \<Rightarrow> ''NONE'' | LOG_ERROR \<Rightarrow> ''ERROR'' | LOG_INFO \<Rightarrow> ''INFO''
      | LOG_VERBOSE \<Rightarrow> ''VERBOSE'' | LOG_DEBUG \<Rightarrow> ''DEBUG'')"

definition LowerCaseStr :: "LogLevel \<Rightarrow> string" where
  "LowerCaseStr l =
     (case l of LOG_NONE \<Rightarrow> ''none'' | LOG_ERROR \<Rightarrow> ''error'' | LOG_INFO \<Rightarrow> ''info''
      | LOG_VERBOSE \<Rightarrow> ''verbose'' | LOG_DEBUG \<Rightarrow> ''debug'')"

section \<open>Texts\<close>

definition appendTimestamp :: "string \<Rightarrow> int64 \<Rightarrow> string" where
  "appendTimestamp b t = b @ FormatRFC3339 t"

fun quoted_chars :: "string \<Rightarrow> string" where
  "quoted_chars [] = []"
| "quoted_chars (c # cs) =
     (if c = CHR 0x22 then [bslash, CHR 0x22]
      else if c = bslash then [bslash, bslash]
      else if c = CHR 0x0A then [bslash, CHR ''n'']
      else if c = CHR 0x0D then [bslash, CHR ''r'']
      else if c = CHR 0x09 then [bslash, CHR ''t'']
      else if (of_char c :: nat) < 0x20
        then [bslash, CHR ''u'', CHR ''0'', CHR ''0'', hex_digit (of_char c div 16), hex_digit (of_char c mod 16)]
      else [c]) @ quoted_chars cs"

definition appendQuoted :: "string \<Rightarrow> string \<Rightarrow> string" where
  "appendQuoted b s = b @ CHR 0x22 # quoted_chars s @ [CHR 0x22]"

text \<open>\<open>Duration.Seconds\<close> in double precision and its text with six decimals.\<close>

definition Seconds :: "nat \<Rightarrow> nat \<times> nat" where
  "Seconds d =
     (let sec = d div 1000000000; nsec = d mod 1000000000; (n, q) = fl nsec 1000000000
      in fl (sec * q + n) q)"

definition fmt_f6 :: "int64 \<Rightarrow> string" where
  "fmt_f6 d =
     (let (n, q) = Seconds (nat \<bar>d\<bar>); v = round_half_even (n * 1000000) q
      in (if d < 0 then ''-'' else []) @ dec (v div 1000000) @ ''.'' @ zero_pad 6 (v mod 1000000))"

text \<open>A member name with its colon, and the quote character.\<close>

abbreviation dq :: string where
  "dq \<equiv> [CHR 0x22]"

definition member :: "string \<Rightarrow> string" where
  "member k = dq @ k @ dq @ '':''"

definition logLine_text :: "bool \<Rightarrow> int64 \<Rightarrow> LogLevel \<Rightarrow> string \<Rightarrow> string" where
  "logLine_text json now level msg =
     (if json then
        let b = ''{'' @ member ''ts'' @ dq;
            b = appendTimestamp b now;
            b = b @ dq @ '','' @ member ''type'' @ dq @ ''event'' @ dq @ '','' @ member ''level'' @ dq;
            b = b @ LowerCaseStr level;
            b = b @ dq @ '','' @ member ''msg'';
            b = appendQuoted b msg
        in b @ ''}'' @ [CHR 0x0A]
      else
        let b = appendTimestamp [] now;
            b = b @ ''   '';
            b = b @ LogLevel_String level;
            b = b @ '': '';
            b = b @ msg
        in b @ [CHR 0x0A])"

definition logHttpReq_text :: "bool \<Rightarrow> int64 \<Rightarrow> int64 \<Rightarrow> string \<Rightarrow> string \<Rightarrow> string \<Rightarrow> string \<Rightarrow> string" where
  "logHttpReq_text json now duration requestName method uri status =
     (if json then
        let b = ''{'' @ member ''ts'' @ dq;
            b = appendTimestamp b now;
            b = b @ dq @ '','' @ member ''type'' @ dq @ ''http'' @ dq @ '','' @ member ''request'';
            b = appendQuoted b requestName;
            b = b @ '','' @ member ''method'';
            b = appendQuoted b method;
            b = b @ '','' @ member ''uri'';
            b = appendQuoted b uri;
            b = b @ '','' @ member ''duration_seconds'';
            b = b @ fmt_f6 duration;
            b = b @ '','' @ member ''status'';
            b = appendQuoted b status
        in b @ ''}'' @ [CHR 0x0A]
      else
        let b = appendTimestamp [] now;
            b = b @ ''   DEBUG: [HTTP-REQ: '' @ requestName @ ''] '' @ method @ '' '' @ uri @ '' ''
        in b @ Duration_String duration @ '' ('' @ fmt_f6 duration @ '' seconds) -> '' @ status @ [CHR 0x0A])"

definition logDnsReq_text :: "bool \<Rightarrow> int64 \<Rightarrow> int64 \<Rightarrow> string \<Rightarrow> string \<Rightarrow> string \<Rightarrow> string" where
  "logDnsReq_text json now duration name qtype status =
     (if json then
        let b = ''{'' @ member ''ts'' @ dq;
            b = appendTimestamp b now;
            b = b @ dq @ '','' @ member ''type'' @ dq @ ''dns'' @ dq @ '','' @ member ''request'';
            b = appendQuoted b name;
            b = b @ '','' @ member ''qtype'';
            b = appendQuoted b qtype;
            b = b @ '','' @ member ''duration_seconds'' @ fmt_f6 duration @ '','' @ member ''status'';
            b = appendQuoted b status
        in b @ ''}'' @ [CHR 0x0A]
      else
        let b = appendTimestamp [] now;
            b = b @ ''   DEBUG: [DNS-REQ: '' @ qtype @ ''] '' @ name @ '' ''
        in b @ Duration_String duration @ '' ('' @ fmt_f6 duration @ '' seconds) -> '' @ status @ [CHR 0x0A])"

section \<open>The writer\<close>

datatype log_channel =
    NilChannel
  | OpenChannel nat "string list"
  | ClosedChannel

record logger =
  lg_Channel :: log_channel
  lg_Pool :: "string list"
  lg_Written :: "string list"
  lg_Dropped :: int64
  lg_JSON :: bool
  lg_Level :: LogLevel

text \<open>The pool of scratch buffers, itself a channel of 256 places.\<close>

definition newBufPool :: "string list" where
  "newBufPool = replicate 64 []"

definition pool_get :: "string list \<Rightarrow> string \<times> string list" where
  "pool_get p = (case p of b # bs \<Rightarrow> (take 0 b, bs) | [] \<Rightarrow> ([], []))"

definition pool_put :: "string \<Rightarrow> string list \<Rightarrow> string list" where
  "pool_put b p = (let b = take 0 b in if length p < 256 then p @ [b] else p)"

definition defaultChannelSize :: int where
  "defaultChannelSize = 50000"

definition LogInit :: "int \<Rightarrow> logger \<Rightarrow> logger" where
  "LogInit channelSize st =
     (let channelSize = (if channelSize \<le> 0 then defaultChannelSize else channelSize)
      in st\<lparr>lg_Channel := OpenChannel (nat channelSize) []\<rparr>)"

definition asyncLogWorker_step :: "logger \<Rightarrow> logger" where
  "asyncLogWorker_step st =
     (case lg_Channel st of
        OpenChannel cap (msg # q) \<Rightarrow>
          st\<lparr>lg_Channel := OpenChannel cap q, lg_Written := lg_Written st @ [msg],
             lg_Pool := pool_put msg (lg_Pool st)\<rparr>
      | _ \<Rightarrow> st)"

text \<open>\<open>LogFlush\<close> closes the channel and waits until the worker has drained it.\<close>

definition LogFlush :: "logger \<Rightarrow> logger option" where
  "LogFlush st =
     (case lg_Channel st of
        NilChannel \<Rightarrow> Some st
      | ClosedChannel \<Rightarrow> None
      | OpenChannel cap q \<Rightarrow>
          Some ((asyncLogWorker_step ^^ length q) st\<lparr>lg_Channel := ClosedChannel\<rparr>))"

definition send :: "string \<Rightarrow> logger \<Rightarrow> logger option" where
  "send b st =
     (let msg = b;
          st = st\<lparr>lg_Pool := pool_put b (lg_Pool st)\<rparr>;
          fallback = st\<lparr>lg_Written := lg_Written st @ [msg], lg_Dropped := wrap64 (lg_Dropped st + 1)\<rparr>
      in case lg_Channel st of
           NilChannel \<Rightarrow> Some fallback
         | ClosedChannel \<Rightarrow> None
         | OpenChannel cap q \<Rightarrow>
             if length q < cap then Some (st\<lparr>lg_Channel := OpenChannel cap (q @ [msg])\<rparr>) else Some fallback)"

definition logLine :: "int64 \<Rightarrow> LogLevel \<Rightarrow> string \<Rightarrow> logger \<Rightarrow> logger option" where
  "logLine now level msg st =
     (let (b, p) = pool_get (lg_Pool st)
      in send (b @ logLine_text (lg_JSON st) now level msg) (st\<lparr>lg_Pool := p\<rparr>))"

definition logSpace :: "int64 \<Rightarrow> logger \<Rightarrow> logger option" where
  "logSpace now st =
     (if lg_JSON st then Some st
      else if lg_Level st < LOG_INFO then Some st
      else
        let (b, p) = pool_get (lg_Pool st)
        in send (appendTimestamp b now @ [CHR 0x0A]) (st\<lparr>lg_Pool := p\<rparr>))"

definition logMsg :: "int64 \<Rightarrow> LogLevel \<Rightarrow> string \<Rightarrow> logger \<Rightarrow> logger option" where
  "logMsg now level msg st = (if level > lg_Level st then Some st else logLine now level msg st)"

text \<open>\<open>logFatal\<close> writes, flushes and exits: its state is the one the process ends in.\<close>

definition logFatal :: "int64 \<Rightarrow> string \<Rightarrow> logger \<Rightarrow> logger option" where
  "logFatal now msg st = Option.bind (logLine now LOG_ERROR msg st) LogFlush"

definition logHttpReq :: "int64 \<Rightarrow> int64 \<Rightarrow> string \<Rightarrow> string \<Rightarrow> string \<Rightarrow> string \<Rightarrow> logger \<Rightarrow> logger option" where
  "logHttpReq now duration requestName method uri status st =
     (let (b, p) = pool_get (lg_Pool st) in
      if \<not> lg_JSON st \<and> lg_Level st < LOG_DEBUG then Some (st\<lparr>lg_Pool := pool_put b p\<rparr>)
      else send (b @ logHttpReq_text (lg_JSON st) now duration requestName method uri status) (st\<lparr>lg_Pool := p\<rparr>))"

definition logDnsReq :: "int64 \<Rightarrow> int64 \<Rightarrow> string \<Rightarrow> string \<Rightarrow> string \<Rightarrow> logger \<Rightarrow> logger option" where
  "logDnsReq now duration name qtype status st =
     (let (b, p) = pool_get (lg_Pool st) in
      if \<not> lg_JSON st \<and> lg_Level st < LOG_DEBUG then Some (st\<lparr>lg_Pool := pool_put b p\<rparr>)
      else send (b @ logDnsReq_text (lg_JSON st) now duration name qtype status) (st\<lparr>lg_Pool := p\<rparr>))"

end
