(* ===== verification/LogProps.thy ===== *)
theory LogProps
  imports Log "HOL-Library.Multiset"
begin

text \<open>
  What the logger promises. A line in JSON format is one JSON object in one line of text,
  whatever bytes the message contains; no line is lost between the callers and the writing
  goroutine, in any interleaving of both.
\<close>

section \<open>Quoting\<close>

lemma hex_digit_not_LF: "n < 16 \<Longrightarrow> hex_digit n \<noteq> CHR 0x0A"
proof
  assume "n < 16" "hex_digit n = CHR 0x0A"
  then have "(of_char (hex_digit n) :: nat) = 10" by simp
  with \<open>n < 16\<close> show False by (simp add: of_char_hex_digit split: if_splits)
qed

lemma LF_notin_quoted: "CHR 0x0A \<notin> set (quoted_chars s)"
proof (induction s)
  case (Cons c s)
  have "CHR 0x0A \<noteq> bslash" by (simp add: bslash_def char_of_def bit_iff_odd)
  with Cons hex_digit_not_LF [of "of_char c div 16", symmetric] hex_digit_not_LF [of "of_char c mod 16", symmetric]
  show ?case by auto
qed simp

lemma quoted_chars_append: "quoted_chars (s @ t) = quoted_chars s @ quoted_chars t"
  by (induction s) simp_all

lemma quoted_chars_high: "\<forall>c \<in> set s. 128 \<le> (of_char c :: nat) \<Longrightarrow> quoted_chars s = s"
proof (induction s)
  case (Cons c s)
  then have "128 \<le> (of_char c :: nat)" by simp
  then have "c \<notin> {CHR 0x22, bslash, CHR 0x0A, CHR 0x0D, CHR 0x09}" by (auto simp: of_char_bslash)
  with Cons show ?case by simp
qed simp

lemma utf8_len_high:
  assumes "utf8_len s = Some k" "c \<in> set (take k s)"
  shows "128 \<le> (of_char c :: nat)"
proof -
  define high where "high i \<longleftrightarrow> 128 \<le> (of_char (s ! i) :: nat)" for i
  have "utf8_2 s \<Longrightarrow> high 0 \<and> high 1" "utf8_3 s \<Longrightarrow> high 0 \<and> high 1 \<and> high 2"
    "utf8_4 s \<Longrightarrow> high 0 \<and> high 1 \<and> high 2 \<and> high 3"
    by (auto simp: utf8_2_def utf8_3_def utf8_4_def byte_in_def high_def)
  moreover have "i < 2 \<Longrightarrow> i = 0 \<or> i = 1" "i < 3 \<Longrightarrow> i = 0 \<or> i = 1 \<or> i = 2" "i < 4 \<Longrightarrow> i = 0 \<or> i = 1 \<or> i = 2 \<or> i = 3"
    for i :: nat by linarith+
  ultimately have "\<forall>i < k. high i"
    using assms(1) by (auto simp: utf8_len_def split: if_splits)
  then have "\<forall>i < k. 128 \<le> (of_char (s ! i) :: nat)" by (simp add: high_def)
  moreover obtain i where "i < k" "i < length s" "c = s ! i" using assms(2) by (auto simp: in_set_conv_nth)
  ultimately show ?thesis by simp
qed

lemma special_bytes: "CHR 0x0A \<noteq> bslash" "CHR 0x0D \<noteq> bslash" "CHR 0x09 \<noteq> bslash"
  by (simp_all add: bslash_def char_of_def bit_iff_odd)

text \<open>One ASCII byte of a quoted text reads back as itself.\<close>

lemma jstring_quoted_byte:
  assumes "(of_char c :: nat) < 128"
  shows "jstring (quoted_chars [c] @ t) = map_option (\<lambda>(x, r). (c # x, r)) (jstring t)"
proof (cases "c \<in> {CHR 0x22, bslash, CHR 0x0A, CHR 0x0D, CHR 0x09}")
  case True
  then show ?thesis
    by (elim insertE emptyE)
      (simp_all add: jstring_simple_escape simple_escape_simps bslash_not(1) [symmetric] special_bytes del: jstring.simps)
next
  case False
  show ?thesis
  proof (cases "(of_char c :: nat) < 0x20")
    case True
    let ?b = "of_char c :: nat"
    have "hex4 (CHR ''0'' # CHR ''0'' # hex_digit (?b div 16) # hex_digit (?b mod 16) # t) = Some ?b"
      using assms by (intro hex4_00) simp
    then have "unicode_escape (CHR ''0'' # CHR ''0'' # hex_digit (?b div 16) # hex_digit (?b mod 16) # t) = Some ([c], 4)"
      using assms by (simp add: unicode_escape_def utf8_encode_def)
    from jstring_unicode_escape [OF this] True False show ?thesis by (simp del: jstring.simps)
  next
    case big: False
    have "(of_char c :: nat) \<notin> {34, 92}"
      using False char_eqI [of c "CHR 0x22"] char_eqI [of c bslash] by (auto simp: of_char_bslash)
    then show ?thesis using assms big False by (simp add: jstring_plain del: jstring.simps)
  qed
qed

lemma jstring_quoted:
  "valid_utf8 s \<Longrightarrow> jstring (quoted_chars s @ CHR 0x22 # r) = Some (s, r)"
proof (induction s rule: valid_utf8.induct)
  case (2 c cs)
  show ?case
  proof (cases "(of_char c :: nat) < 128")
    case True
    have "quoted_chars (c # cs) @ CHR 0x22 # r = quoted_chars [c] @ quoted_chars cs @ CHR 0x22 # r" by simp
    with True 2 jstring_quoted_byte [OF True] show ?thesis by (simp del: jstring.simps quoted_chars.simps)
  next
    case False
    with "2.prems" obtain k where k: "utf8_len (c # cs) = Some k" "valid_utf8 (drop (k - 1) cs)"
      by (auto split: option.splits)
    have split: "c # cs = take k (c # cs) @ drop (k - 1) cs"
      using utf8_len_bounds [OF k(1)] by (simp add: take_Cons')
    have "quoted_chars (take k (c # cs)) = take k (c # cs)"
      using utf8_len_high [OF k(1)] by (intro quoted_chars_high) blast
    then have "quoted_chars (c # cs) = take k (c # cs) @ quoted_chars (drop (k - 1) cs)"
      by (subst split) (simp only: quoted_chars_append)
    with False k "2.IH"(2) [OF False k(1)] jstring_utf8 [OF k(1)] split show ?thesis
      by (simp del: jstring.simps quoted_chars.simps)
  qed
qed simp

text \<open>A text of plain ASCII characters between quotes.\<close>

definition plain_text :: "string \<Rightarrow> bool" where
  "plain_text s \<longleftrightarrow> (\<forall>c \<in> set s. 35 \<le> (of_char c :: nat) \<and> (of_char c :: nat) < 128 \<and> (of_char c :: nat) \<noteq> 92)"

lemma jstring_plain_text: "plain_text s \<Longrightarrow> jstring (s @ CHR 0x22 # r) = Some (s, r)"
  by (induction s) (simp_all add: plain_text_def jstring_plain del: jstring.simps(2), simp)

lemma LF_notin_plain: "plain_text s \<Longrightarrow> CHR 0x0A \<notin> set s"
  by (auto simp: plain_text_def)

lemma plain_text_append [simp]: "plain_text (s @ t) \<longleftrightarrow> plain_text s \<and> plain_text t"
  "plain_text (c # s) \<longleftrightarrow> (35 \<le> (of_char c :: nat) \<and> (of_char c :: nat) < 128 \<and> (of_char c :: nat) \<noteq> 92) \<and> plain_text s"
  "plain_text []"
  by (auto simp: plain_text_def)

lemma plain_dec [simp]: "plain_text (dec n)"
  by (auto simp: plain_text_def is_digit_def dest!: dec_digits)

lemma plain_append_int [simp]: "plain_text (append_int w x)" "plain_text (zero_pad w n)"
  by (auto simp: append_int_def zero_pad_def) (auto simp: plain_text_def)

lemma plain_FormatRFC3339 [simp]: "plain_text (FormatRFC3339 t)"
  by (simp add: FormatRFC3339_def Let_def case_prod_unfold)

text \<open>An object written member by member: the name of a member is plain, its value is any text
  the parser reads as a value.\<close>

definition reads :: "string \<Rightarrow> jvalue \<Rightarrow> bool" where
  "reads t v \<longleftrightarrow> (\<forall>n r. num_stop r \<longrightarrow> jparse (Suc n) (t @ r) = Some (v, r))"

lemma reads_quoted: "valid_utf8 s \<Longrightarrow> reads (CHR 0x22 # quoted_chars s @ [CHR 0x22]) (VStr s)"
  by (simp add: reads_def jstring_quoted is_ws_simps del: jstring.simps)

lemma reads_plain: "plain_text s \<Longrightarrow> reads (CHR 0x22 # s @ [CHR 0x22]) (VStr s)"
  by (simp add: reads_def jstring_plain_text del: jstring.simps)

definition object_text :: "(string \<times> string) list \<Rightarrow> string" where
  "object_text ms = ''{'' @ join_with '','' (map (\<lambda>(k, t). member k @ t) ms) @ ''}''"

lemma jparse_members:
  assumes "ms \<noteq> []" "\<forall>(k, t, v) \<in> set ms. plain_text k \<and> reads t v" "length ms + 1 \<le> n"
  shows "jparse_object n (join_with '','' (map (\<lambda>(k, t, v). member k @ t) ms) @ CHR ''}'' # r) =
    Some (map (\<lambda>(k, t, v). (k, v)) ms, r)"
  using assms
proof (induction ms arbitrary: n)
  case (Cons m ms)
  obtain k t v where m: "m = (k, t, v)" by (cases m)
  obtain n' where n: "n = Suc (Suc n')" using Cons.prems(3) by (cases n; cases "n - 1") auto
  have key: "jstring (k @ CHR 0x22 # x) = Some (k, x)" for x using Cons.prems(2) m by (simp add: jstring_plain_text)
  have val: "jparse (Suc n') (t @ x) = Some (v, x)" if "num_stop x" for x
    using Cons.prems(2) m that by (simp add: reads_def del: jparse.simps)
  show ?case
  proof (cases "ms = []")
    case True
    with n m key val show ?thesis by (simp add: member_def del: jparse.simps jstring.simps)
  next
    case False
    with Cons.prems n have "jparse_object (Suc n') (join_with '','' (map (\<lambda>(k, t, v). member k @ t) ms) @ CHR ''}'' # r) =
        Some (map (\<lambda>(k, t, v). (k, v)) ms, r)"
      by (intro Cons.IH) auto
    with False n m key val show ?thesis
      by (simp add: jparse_object.simps(2) [of "Suc n'"] join_with_Cons member_def del: jparse.simps jparse_object.simps jstring.simps)
  qed
qed simp

lemma parse_object:
  assumes "ms \<noteq> []" "\<forall>(k, t, v) \<in> set ms. plain_text k \<and> reads t v"
  shows "json_parse (object_text (map (\<lambda>(k, t, v). (k, t)) ms) @ [CHR 0x0A]) = Some (VObj (map (\<lambda>(k, t, v). (k, v)) ms))"
proof -
  let ?body = "join_with '','' (map (\<lambda>(k, t, v). member k @ t) ms) @ CHR ''}'' # [CHR 0x0A]"
  have obj: "object_text (map (\<lambda>(k, t, v). (k, t)) ms) @ [CHR 0x0A] = CHR ''{'' # ?body"
    by (simp add: object_text_def comp_def case_prod_unfold)
  have "length ms \<le> length (join_with '','' (map (\<lambda>(k, t, v). member k @ t) ms))"
  proof (induction ms)
    case (Cons m ms)
    then show ?case by (cases "ms = []"; cases m) (auto simp: join_with_Cons member_def)
  qed simp
  then have len: "length ms + 1 \<le> 2 * length (CHR ''{'' # ?body) + 1" by simp
  obtain k t v ms' where ms: "ms = (k, t, v) # ms'" using assms(1) by (cases ms) auto
  then obtain u where body: "?body = CHR 0x22 # u"
    by (cases "ms' = []") (auto simp: join_with_Cons member_def)
  have "jparse (json_fuel (CHR ''{'' # ?body)) (CHR ''{'' # ?body) = Some (VObj (map (\<lambda>(k, t, v). (k, v)) ms), [CHR 0x0A])"
    using jparse_members [OF assms len, of "[CHR 0x0A]"]
    by (simp add: json_fuel_def body del: jparse_object.simps)
  then show ?thesis unfolding obj json_parse_def by (simp add: skip_ws_def is_ws_def)
qed

lemma jnum_int_dot: "jnum_int (dec n @ CHR ''.'' # r) = Some (dec n, CHR ''.'' # r)"
proof (cases "n = 0")
  case True
  then show ?thesis by (simp add: jnum_int_def dec_small)
next
  case False
  obtain c cs where d: "dec n = c # cs" by (cases "dec n") auto
  have "c \<noteq> CHR ''0''" "is_digit c"
    using dec_no_leading_zero [of n] dec_digits [of c n] False d by auto
  moreover have "takeWhile is_digit (dec n @ CHR ''.'' # r) = dec n" "dropWhile is_digit (dec n @ CHR ''.'' # r) = CHR ''.'' # r"
    using dec_all_digits [of n] by (auto simp: list_all_iff takeWhile_append2 dropWhile_append2)
  ultimately show ?thesis using d by (simp add: jnum_int_def)
qed

lemma zero_pad_digits: "list_all is_digit (zero_pad w n)" "zero_pad w n \<noteq> []"
  using dec_all_digits [of n] by (auto simp: zero_pad_def list_all_iff is_digit_def)

lemma jnumber_f6:
  assumes "num_stop r"
  shows "jnumber (fmt_f6 d @ r) = Some (fmt_f6 d, r)"
proof -
  obtain sg n m where f: "fmt_f6 d = sg @ dec n @ ''.'' @ zero_pad 6 m" "sg = [] \<or> sg = ''-''"
    by (auto simp: fmt_f6_def Let_def case_prod_unfold)
  note int = jnum_int_dot [of n "zero_pad 6 m @ r"]
  have frac: "jnum_frac (CHR ''.'' # zero_pad 6 m @ r) = Some (CHR ''.'' # zero_pad 6 m, r)"
    using takeWhile_digits [OF zero_pad_digits(1) assms] zero_pad_digits(2) by (simp add: jnum_frac_def)
  obtain c cs where c: "dec n = c # cs" by (cases "dec n") auto
  then have "c \<noteq> CHR ''-''" using hd_dec [of n] by simp
  with int frac jnum_rest(2) [OF assms] f c show ?thesis by (auto simp: jnumber_def)
qed

lemma reads_f6: "reads (fmt_f6 d) (VNum (fmt_f6 d))"
proof -
  obtain sg n m where f: "fmt_f6 d = sg @ dec n @ ''.'' @ zero_pad 6 m" "sg = [] \<or> sg = ''-''"
    by (auto simp: fmt_f6_def Let_def case_prod_unfold)
  have "fmt_f6 d \<noteq> []" using f by auto
  then obtain c cs where d: "fmt_f6 d = c # cs" by (cases "fmt_f6 d") auto
  have "is_digit (hd (dec n))" by (rule dec_digits [of _ n]) simp
  then have "c = CHR ''-'' \<or> is_digit c" using f d by (cases "dec n") auto
  then have "\<not> is_ws c" "c \<noteq> CHR 0x22" "c \<noteq> CHR ''{''" "c \<noteq> CHR ''[''" "c \<noteq> CHR ''t''" "c \<noteq> CHR ''f''" "c \<noteq> CHR ''n''"
    by (auto simp: is_ws_digit is_digit_def)
  with jnumber_f6 [of _ d] d show ?thesis by (simp add: reads_def)
qed

lemma plain_f6 [simp]: "plain_text (fmt_f6 d)"
  by (auto simp: fmt_f6_def Let_def case_prod_unfold)

section \<open>Properties of lines\<close>

text \<open>The JSON lines as objects.\<close>

lemma logLine_object:
  "logLine_text True now level msg =
   object_text [(''ts'', dq @ FormatRFC3339 now @ dq), (''type'', dq @ ''event'' @ dq), (''level'', dq @ LowerCaseStr level @ dq),
     (''msg'', CHR 0x22 # quoted_chars msg @ dq)] @ [CHR 0x0A]"
  by (simp add: logLine_text_def Let_def object_text_def appendTimestamp_def appendQuoted_def)

lemma logHttpReq_object:
  "logHttpReq_text True now d name method uri status =
   object_text [(''ts'', dq @ FormatRFC3339 now @ dq), (''type'', dq @ ''http'' @ dq), (''request'', CHR 0x22 # quoted_chars name @ dq),
     (''method'', CHR 0x22 # quoted_chars method @ dq), (''uri'', CHR 0x22 # quoted_chars uri @ dq),
     (''duration_seconds'', fmt_f6 d), (''status'', CHR 0x22 # quoted_chars status @ dq)] @ [CHR 0x0A]"
  by (simp add: logHttpReq_text_def Let_def object_text_def appendTimestamp_def appendQuoted_def)

lemma logDnsReq_object:
  "logDnsReq_text True now d name qtype status =
   object_text [(''ts'', dq @ FormatRFC3339 now @ dq), (''type'', dq @ ''dns'' @ dq), (''request'', CHR 0x22 # quoted_chars name @ dq),
     (''qtype'', CHR 0x22 # quoted_chars qtype @ dq),
     (''duration_seconds'', fmt_f6 d), (''status'', CHR 0x22 # quoted_chars status @ dq)] @ [CHR 0x0A]"
  by (simp add: logDnsReq_text_def Let_def object_text_def appendTimestamp_def appendQuoted_def)

lemma plain_LowerCaseStr [simp]: "plain_text (LowerCaseStr l)"
  by (cases l) (simp_all add: LowerCaseStr_def)

lemma object_one_line:
  assumes "\<forall>(k, t) \<in> set ms. CHR 0x0A \<notin> set k \<and> CHR 0x0A \<notin> set t"
  shows "CHR 0x0A \<notin> set (object_text ms)"
  using assms set_join_with [of "'',''" "map (\<lambda>(k, t). member k @ t) ms"]
  by (fastforce simp: object_text_def member_def)

lemmas LF_notin_text =
  LF_notin_quoted LF_notin_plain [OF plain_FormatRFC3339] LF_notin_plain [OF plain_f6] LF_notin_plain [OF plain_LowerCaseStr]

lemma LF_only_last:
  assumes "t = object_text ms @ [CHR 0x0A]" "\<forall>(k, t) \<in> set ms. CHR 0x0A \<notin> set k \<and> CHR 0x0A \<notin> set t"
  shows "CHR 0x0A \<notin> set (butlast t) \<and> last t = CHR 0x0A"
  using object_one_line [OF assms(2)] assms(1) by simp

lemma reads_fixed:
  "reads (CHR 0x22 # ''event'' @ dq) (VStr ''event'')" "reads (CHR 0x22 # ''http'' @ dq) (VStr ''http'')"
  "reads (CHR 0x22 # ''dns'' @ dq) (VStr ''dns'')"
  by (rule reads_plain, simp)+

lemmas reads_members =
  reads_quoted [simplified] reads_plain [OF plain_FormatRFC3339, simplified] reads_plain [OF plain_LowerCaseStr, simplified]
  reads_f6 reads_fixed [simplified]

lemma parse_logLine:
  "valid_utf8 msg \<Longrightarrow> json_parse (logLine_text True now level msg) =
   Some (VObj [(''ts'', VStr (FormatRFC3339 now)), (''type'', VStr ''event''), (''level'', VStr (LowerCaseStr level)), (''msg'', VStr msg)])"
  using parse_object [of "[(''ts'', dq @ FormatRFC3339 now @ dq, VStr (FormatRFC3339 now)), (''type'', dq @ ''event'' @ dq, VStr ''event''),
      (''level'', dq @ LowerCaseStr level @ dq, VStr (LowerCaseStr level)), (''msg'', CHR 0x22 # quoted_chars msg @ dq, VStr msg)]"]
  by (simp add: logLine_object reads_members)

lemma parse_logHttpReq:
  "valid_utf8 name \<Longrightarrow> valid_utf8 method \<Longrightarrow> valid_utf8 uri \<Longrightarrow> valid_utf8 status \<Longrightarrow>
   json_parse (logHttpReq_text True now d name method uri status) =
   Some (VObj [(''ts'', VStr (FormatRFC3339 now)), (''type'', VStr ''http''), (''request'', VStr name), (''method'', VStr method),
     (''uri'', VStr uri), (''duration_seconds'', VNum (fmt_f6 d)), (''status'', VStr status)])"
  using parse_object [of "[(''ts'', dq @ FormatRFC3339 now @ dq, VStr (FormatRFC3339 now)), (''type'', dq @ ''http'' @ dq, VStr ''http''),
      (''request'', CHR 0x22 # quoted_chars name @ dq, VStr name), (''method'', CHR 0x22 # quoted_chars method @ dq, VStr method),
      (''uri'', CHR 0x22 # quoted_chars uri @ dq, VStr uri), (''duration_seconds'', fmt_f6 d, VNum (fmt_f6 d)),
      (''status'', CHR 0x22 # quoted_chars status @ dq, VStr status)]"]
  by (simp add: logHttpReq_object reads_members)

lemma parse_logDnsReq:
  "valid_utf8 name \<Longrightarrow> valid_utf8 qtype \<Longrightarrow> valid_utf8 status \<Longrightarrow>
   json_parse (logDnsReq_text True now d name qtype status) =
   Some (VObj [(''ts'', VStr (FormatRFC3339 now)), (''type'', VStr ''dns''), (''request'', VStr name), (''qtype'', VStr qtype),
     (''duration_seconds'', VNum (fmt_f6 d)), (''status'', VStr status)])"
  using parse_object [of "[(''ts'', dq @ FormatRFC3339 now @ dq, VStr (FormatRFC3339 now)), (''type'', dq @ ''dns'' @ dq, VStr ''dns''),
      (''request'', CHR 0x22 # quoted_chars name @ dq, VStr name), (''qtype'', CHR 0x22 # quoted_chars qtype @ dq, VStr qtype),
      (''duration_seconds'', fmt_f6 d, VNum (fmt_f6 d)), (''status'', CHR 0x22 # quoted_chars status @ dq, VStr status)]"]
  by (simp add: logDnsReq_object reads_members)

text \<open>C19: Every line in JSON format is exactly one JSON object in exactly one line. Whatever the
  message, request name, method, URI, query name and status contain, a line ends with its only
  line feed, so no client can forge a log line; and if the texts are valid UTF-8 the line
  parses as a JSON object whose members are the time stamp, the fixed members and exactly the
  given texts.\<close>

theorem json_lines_wellformed:
  "(\<forall>line \<in> {logLine_text True now level msg, logHttpReq_text True now d name method uri status,
     logDnsReq_text True now d name qtype status}. CHR 0x0A \<notin> set (butlast line) \<and> last line = CHR 0x0A) \<and>
   (valid_utf8 msg \<longrightarrow> json_parse (logLine_text True now level msg) =
     Some (VObj [(''ts'', VStr (FormatRFC3339 now)), (''type'', VStr ''event''), (''level'', VStr (LowerCaseStr level)),
       (''msg'', VStr msg)])) \<and>
   (valid_utf8 name \<and> valid_utf8 method \<and> valid_utf8 uri \<and> valid_utf8 qtype \<and> valid_utf8 status \<longrightarrow>
     json_parse (logHttpReq_text True now d name method uri status) =
     Some (VObj [(''ts'', VStr (FormatRFC3339 now)), (''type'', VStr ''http''), (''request'', VStr name), (''method'', VStr method),
       (''uri'', VStr uri), (''duration_seconds'', VNum (fmt_f6 d)), (''status'', VStr status)]) \<and>
     json_parse (logDnsReq_text True now d name qtype status) =
     Some (VObj [(''ts'', VStr (FormatRFC3339 now)), (''type'', VStr ''dns''), (''request'', VStr name), (''qtype'', VStr qtype),
       (''duration_seconds'', VNum (fmt_f6 d)), (''status'', VStr status)]))"
proof -
  have "\<forall>line \<in> {logLine_text True now level msg, logHttpReq_text True now d name method uri status,
     logDnsReq_text True now d name qtype status}. CHR 0x0A \<notin> set (butlast line) \<and> last line = CHR 0x0A"
    by (intro ballI, elim insertE emptyE)
      (simp only:, rule LF_only_last, rule logLine_object logHttpReq_object logDnsReq_object, simp add: LF_notin_text)+
  then show ?thesis by (simp add: parse_logLine parse_logHttpReq parse_logDnsReq)
qed

theorem json_lines_wellformed_witness:
  "CHR 0x0A \<notin> set (butlast (logLine_text True 0 LOG_INFO [CHR 0x0A, CHR 0x22])) \<and>
   json_parse (logLine_text True 0 LOG_INFO [CHR 0x0A, CHR 0x22]) =
     Some (VObj [(''ts'', VStr (FormatRFC3339 0)), (''type'', VStr ''event''), (''level'', VStr ''info''),
       (''msg'', VStr [CHR 0x0A, CHR 0x22])])"
proof -
  have "valid_utf8 [CHR 0x0A, CHR 0x22]" by simp
  with json_lines_wellformed [of 0 LOG_INFO "[CHR 0x0A, CHR 0x22]" 0 "[]" "[]" "[]" "[]" "[]"] show ?thesis
    by (simp add: LowerCaseStr_def)
qed

section \<open>No line is lost\<close>

lemma pool_get_empty: "fst (pool_get p) = []"
  by (cases p) (simp_all add: pool_get_def)

definition queue :: "logger \<Rightarrow> string list" where
  "queue st = (case lg_Channel st of OpenChannel cap q \<Rightarrow> q | _ \<Rightarrow> [])"

text \<open>One step of the process as the logger sees it: a caller logs something, which yields the
  given lines, or the worker writes one line.\<close>

inductive log_step :: "logger \<Rightarrow> string list \<Rightarrow> logger \<Rightarrow> bool" where
  step_msg: "logMsg now level msg st = Some st' \<Longrightarrow>
    log_step st (if level \<le> lg_Level st then [logLine_text (lg_JSON st) now level msg] else []) st'"
| step_space: "logSpace now st = Some st' \<Longrightarrow>
    log_step st (if lg_JSON st \<or> lg_Level st < LOG_INFO then [] else [FormatRFC3339 now @ [CHR 0x0A]]) st'"
| step_http: "logHttpReq now d name method uri status st = Some st' \<Longrightarrow>
    log_step st (if lg_JSON st \<or> LOG_DEBUG \<le> lg_Level st
      then [logHttpReq_text (lg_JSON st) now d name method uri status] else []) st'"
| step_dns: "logDnsReq now d name qtype status st = Some st' \<Longrightarrow>
    log_step st (if lg_JSON st \<or> LOG_DEBUG \<le> lg_Level st
      then [logDnsReq_text (lg_JSON st) now d name qtype status] else []) st'"
| step_worker: "log_step st [] (asyncLogWorker_step st)"

inductive log_run :: "logger \<Rightarrow> string list \<Rightarrow> logger \<Rightarrow> bool" where
  run_start: "log_run st [] st"
| run_step: "log_run st ls st' \<Longrightarrow> log_step st' ls' st'' \<Longrightarrow> log_run st (ls @ ls') st''"

text \<open>What one step does to the lines: they go to the queue or, when it is full or missing,
  straight to the output, counted; the worker moves the front of the queue to the output.\<close>

definition log_moves :: "logger \<Rightarrow> string list \<Rightarrow> logger \<Rightarrow> bool" where
  "log_moves st ls st' \<longleftrightarrow>
     (lg_Written st' = lg_Written st \<and> queue st' = queue st @ ls \<and> lg_Dropped st' = lg_Dropped st) \<or>
     (\<exists>l. ls = [l] \<and> lg_Written st' = lg_Written st @ [l] \<and> queue st' = queue st \<and> lg_Dropped st' = wrap64 (lg_Dropped st + 1)) \<or>
     (\<exists>l. ls = [] \<and> lg_Written st' = lg_Written st @ [l] \<and> queue st = l # queue st' \<and> lg_Dropped st' = lg_Dropped st)"

lemma send_moves: "send b st = Some st' \<Longrightarrow> log_moves st [b] st'"
  by (auto simp: send_def log_moves_def queue_def Let_def split: log_channel.splits if_splits)

lemma log_moves_pool [simp]: "log_moves (st\<lparr>lg_Pool := p\<rparr>) ls st' \<longleftrightarrow> log_moves st ls st'"
  "log_moves st [] (st\<lparr>lg_Pool := p\<rparr>)"
  by (simp_all add: log_moves_def queue_def)

lemma log_moves_refl [simp]: "log_moves st [] st"
  by (simp add: log_moves_def)

lemma log_step_moves: "log_step st ls st' \<Longrightarrow> log_moves st ls st'"
proof (induction rule: log_step.induct)
  case (step_msg now level msg st st')
  then show ?case
    using send_moves [of "logLine_text (lg_JSON st) now level msg" "st\<lparr>lg_Pool := snd (pool_get (lg_Pool st))\<rparr>" st']
    by (auto simp: logMsg_def logLine_def case_prod_unfold pool_get_empty not_less split: if_splits)
next
  case (step_space now st st')
  then show ?case
    using send_moves [of "FormatRFC3339 now @ [CHR 0x0A]" "st\<lparr>lg_Pool := snd (pool_get (lg_Pool st))\<rparr>" st']
    by (auto simp: logSpace_def case_prod_unfold pool_get_empty appendTimestamp_def split: if_splits)
next
  case (step_http now d name meth uri status st st')
  then show ?case
    using send_moves [of "logHttpReq_text (lg_JSON st) now d name meth uri status" "st\<lparr>lg_Pool := snd (pool_get (lg_Pool st))\<rparr>" st']
    by (auto simp: logHttpReq_def Let_def case_prod_unfold pool_get_empty not_less split: if_splits)
next
  case (step_dns now d name qtype status st st')
  then show ?case
    using send_moves [of "logDnsReq_text (lg_JSON st) now d name qtype status" "st\<lparr>lg_Pool := snd (pool_get (lg_Pool st))\<rparr>" st']
    by (auto simp: logDnsReq_def Let_def case_prod_unfold pool_get_empty not_less split: if_splits)
next
  case (step_worker st)
  then show ?case
    by (auto simp: asyncLogWorker_step_def log_moves_def queue_def split: log_channel.splits list.splits)
qed

definition log_account :: "int64 \<Rightarrow> string list \<Rightarrow> logger \<Rightarrow> bool" where
  "log_account dropped ls st \<longleftrightarrow>
     (\<exists>d \<le> length ls. lg_Dropped st = wrap64 (dropped + int d) \<and> mset (lg_Written st @ queue st) = mset ls \<and>
        (d = 0 \<longrightarrow> lg_Written st @ queue st = ls))"

lemma log_account_moves:
  assumes "log_account dropped ls st" "log_moves st ls' st'"
  shows "log_account dropped (ls @ ls') st'"
proof -
  obtain d where d: "d \<le> length ls" "lg_Dropped st = wrap64 (dropped + int d)" "mset (lg_Written st @ queue st) = mset ls"
      "d = 0 \<longrightarrow> lg_Written st @ queue st = ls"
    using assms(1) by (auto simp: log_account_def)
  from assms(2) show ?thesis
    unfolding log_moves_def
  proof (elim disjE conjE exE)
    assume "lg_Written st' = lg_Written st" "queue st' = queue st @ ls'" "lg_Dropped st' = lg_Dropped st"
    with d show ?thesis unfolding log_account_def by (intro exI [of _ d]) auto
  next
    fix l
    assume *: "ls' = [l]" "lg_Written st' = lg_Written st @ [l]" "queue st' = queue st" "lg_Dropped st' = wrap64 (lg_Dropped st + 1)"
    then have "lg_Dropped st' = wrap64 (dropped + int (Suc d))" using d(2) wrap64_add [of "dropped + int d" 1] by (simp add: algebra_simps)
    with * d show ?thesis unfolding log_account_def by (intro exI [of _ "Suc d"]) auto
  next
    fix l
    assume "ls' = []" "lg_Written st' = lg_Written st @ [l]" "queue st = l # queue st'" "lg_Dropped st' = lg_Dropped st"
    with d show ?thesis unfolding log_account_def by (intro exI [of _ d]) auto
  qed
qed

lemma log_run_account:
  "log_run st ls st' \<Longrightarrow> lg_Written st = [] \<Longrightarrow> queue st = [] \<Longrightarrow> int64_range (lg_Dropped st) \<Longrightarrow>
   log_account (lg_Dropped st) ls st'"
proof (induction rule: log_run.induct)
  case (run_start st)
  then show ?case by (simp add: log_account_def)
next
  case (run_step st ls st' ls' st'')
  then show ?case using log_account_moves log_step_moves by blast
qed

lemma drain:
  "lg_Channel st = OpenChannel cap q \<Longrightarrow>
   lg_Written ((asyncLogWorker_step ^^ length q) st) = lg_Written st @ q"
proof (induction q arbitrary: st)
  case (Cons m q)
  then have "lg_Channel (asyncLogWorker_step st) = OpenChannel cap q" "lg_Written (asyncLogWorker_step st) = lg_Written st @ [m]"
    by (simp_all add: asyncLogWorker_step_def)
  with Cons.IH [of "asyncLogWorker_step st"] show ?case by (simp add: funpow_swap1 del: funpow.simps add: funpow.simps(2) comp_def)
qed simp

lemma LogFlush_writes: "LogFlush st = Some st' \<Longrightarrow> lg_Written st' = lg_Written st @ queue st"
  by (auto simp: LogFlush_def queue_def drain split: log_channel.splits)

text \<open>C18: The logger never loses or duplicates a line. In every interleaving of callers and the
  writing goroutine, for every channel size and also without a channel, the lines written so
  far together with the queued ones are exactly the lines the calls at an enabled level have
  produced, and flushing writes the rest; \<open>LogDropped\<close> counts the lines that went past the
  queue, and as long as there are none the lines are written in the order of the calls.\<close>

theorem no_log_line_lost:
  assumes "log_run st ls st'" "lg_Written st = []" "queue st = []" "int64_range (lg_Dropped st)"
  shows "\<exists>d \<le> length ls. lg_Dropped st' = wrap64 (lg_Dropped st + int d) \<and>
    mset (lg_Written st' @ queue st') = mset ls \<and> (d = 0 \<longrightarrow> lg_Written st' @ queue st' = ls) \<and>
    (\<forall>st''. LogFlush st' = Some st'' \<longrightarrow> mset (lg_Written st'') = mset ls)"
proof -
  obtain d where "d \<le> length ls" "lg_Dropped st' = wrap64 (lg_Dropped st + int d)" "mset (lg_Written st' @ queue st') = mset ls"
      "d = 0 \<longrightarrow> lg_Written st' @ queue st' = ls"
    using log_run_account [OF assms] by (auto simp: log_account_def)
  then show ?thesis using LogFlush_writes [of st'] by (intro exI [of _ d]) auto
qed

text \<open>The logger as the process starts: no channel, a full pool.\<close>

definition initial_logger :: "bool \<Rightarrow> LogLevel \<Rightarrow> logger" where
  "initial_logger json level =
     \<lparr>lg_Channel = NilChannel, lg_Pool = newBufPool, lg_Written = [], lg_Dropped = 0, lg_JSON = json, lg_Level = level\<rparr>"

lemma initial_run: "\<exists>st. log_run (initial_logger True LOG_INFO) [logLine_text True 0 LOG_ERROR ''x''] st"
proof -
  obtain st where "logMsg 0 LOG_ERROR ''x'' (initial_logger True LOG_INFO) = Some st"
    by (simp add: logMsg_def logLine_def send_def initial_logger_def Let_def case_prod_unfold less_LogLevel_def level_number_def)
  from run_step [OF run_start step_msg [OF this]] show ?thesis
    by (auto simp: initial_logger_def less_eq_LogLevel_def level_number_def)
qed

theorem no_log_line_lost_witness:
  "\<exists>st. log_run (initial_logger True LOG_INFO) [logLine_text True 0 LOG_ERROR ''x''] st \<and>
     mset (lg_Written st @ queue st) = {#logLine_text True 0 LOG_ERROR ''x''#}"
proof -
  obtain st where st: "log_run (initial_logger True LOG_INFO) [logLine_text True 0 LOG_ERROR ''x''] st"
    using initial_run by blast
  from no_log_line_lost [OF this] have "mset (lg_Written st @ queue st) = mset [logLine_text True 0 LOG_ERROR ''x'']"
    by (auto simp: initial_logger_def queue_def int64_range_def)
  with st show ?thesis by auto
qed

text \<open>Without \<open>LogInit\<close> there is never a channel.\<close>

definition sync_account :: "logger \<Rightarrow> string list \<Rightarrow> logger \<Rightarrow> bool" where
  "sync_account st ls st' \<longleftrightarrow> lg_Channel st' = NilChannel \<and> lg_Written st' = lg_Written st @ ls \<and>
     wrap64 (lg_Dropped st') = wrap64 (lg_Dropped st + int (length ls))"

lemma send_sync: "send b st = Some st' \<Longrightarrow> lg_Channel st = NilChannel \<Longrightarrow> sync_account st [b] st'"
  by (auto simp: send_def sync_account_def Let_def)

lemma sync_account_pool [simp]: "sync_account (st\<lparr>lg_Pool := p\<rparr>) ls st' = sync_account st ls st'"
  by (simp add: sync_account_def)

lemma log_step_sync: "log_step st ls st' \<Longrightarrow> lg_Channel st = NilChannel \<Longrightarrow> sync_account st ls st'"
proof (induction rule: log_step.induct)
  case (step_msg now level msg st st')
  then show ?case
    using send_sync [of "logLine_text (lg_JSON st) now level msg" "st\<lparr>lg_Pool := snd (pool_get (lg_Pool st))\<rparr>" st']
    by (auto simp: logMsg_def logLine_def case_prod_unfold pool_get_empty not_less sync_account_def split: if_splits)
next
  case (step_space now st st')
  then show ?case
    using send_sync [of "FormatRFC3339 now @ [CHR 0x0A]" "st\<lparr>lg_Pool := snd (pool_get (lg_Pool st))\<rparr>" st']
    by (auto simp: logSpace_def case_prod_unfold pool_get_empty appendTimestamp_def sync_account_def split: if_splits)
next
  case (step_http now d name meth uri status st st')
  then show ?case
    using send_sync [of "logHttpReq_text (lg_JSON st) now d name meth uri status" "st\<lparr>lg_Pool := snd (pool_get (lg_Pool st))\<rparr>" st']
    by (auto simp: logHttpReq_def Let_def case_prod_unfold pool_get_empty not_less sync_account_def split: if_splits)
next
  case (step_dns now d name qtype status st st')
  then show ?case
    using send_sync [of "logDnsReq_text (lg_JSON st) now d name qtype status" "st\<lparr>lg_Pool := snd (pool_get (lg_Pool st))\<rparr>" st']
    by (auto simp: logDnsReq_def Let_def case_prod_unfold pool_get_empty not_less sync_account_def split: if_splits)
next
  case (step_worker st)
  then show ?case by (simp add: asyncLogWorker_step_def sync_account_def)
qed

text \<open>C39: Without a call of \<open>LogInit\<close>, which the program never makes, every line is written
  synchronously and in order, and every line is counted as dropped: after any run the output
  is exactly the lines of the calls and \<open>LogDropped\<close> is their number (modulo \<open>2 ^ 64\<close>).\<close>

theorem uninitialised_log_counts_all:
  assumes "log_run st ls st'" "lg_Channel st = NilChannel"
  shows "lg_Written st' = lg_Written st @ ls \<and> lg_Channel st' = NilChannel \<and>
    wrap64 (lg_Dropped st') = wrap64 (lg_Dropped st + int (length ls))"
proof -
  have "sync_account st ls st'"
    using assms
  proof (induction rule: log_run.induct)
    case (run_start st)
    then show ?case by (simp add: sync_account_def)
  next
    case (run_step st ls st' ls' st'')
    then have 1: "sync_account st ls st'" by blast
    then have 2: "sync_account st' ls' st''" using run_step log_step_sync by (simp add: sync_account_def)
    have "wrap64 (lg_Dropped st'') = wrap64 (wrap64 (lg_Dropped st') + int (length ls'))"
      using 2 wrap64_add [of "lg_Dropped st'" "int (length ls')"] by (simp add: sync_account_def)
    also have "\<dots> = wrap64 (lg_Dropped st + int (length ls) + int (length ls'))"
      using 1 wrap64_add [of "lg_Dropped st + int (length ls)" "int (length ls')"] by (simp add: sync_account_def)
    finally show ?case using 1 2 by (simp add: sync_account_def algebra_simps)
  qed
  then show ?thesis by (simp add: sync_account_def)
qed

theorem uninitialised_log_counts_all_witness:
  "\<exists>st. log_run (initial_logger True LOG_INFO) [logLine_text True 0 LOG_ERROR ''x''] st \<and> wrap64 (lg_Dropped st) = 1"
  using initial_run uninitialised_log_counts_all [of "initial_logger True LOG_INFO"]
  by (fastforce simp: initial_logger_def wrap64_def)

end
