(* ===== verification/IpTable.thy ===== *)
theory IpTable
  imports Server
begin

text \<open>
  The table of blocked addresses of \<open>src/src/main.go\<close>: a Go map from address text to entry,
  modelled as an association list. The order of the list is the order in which a \<open>range\<close>
  loop visits the map; the theorems hold for every list, so for every order. Lookup hides an
  expired entry and starts its deletion in the background (lazy expiry).
\<close>

section \<open>Definitions\<close>

definition ip_get :: "(string \<times> BlockEntry) list \<Rightarrow> string \<Rightarrow> BlockEntry option" where
  "ip_get t ip = map_of t ip"

text \<open>\<open>ipTable.entries[entry.IP] = &entry\<close> and \<open>delete(ipTable.entries, ip)\<close>.\<close>

definition ip_put :: "BlockEntry \<Rightarrow> (string \<times> BlockEntry) list \<Rightarrow> (string \<times> BlockEntry) list" where
  "ip_put e t = AList.update (be_IP e) e t"

definition ip_del :: "string \<Rightarrow> (string \<times> BlockEntry) list \<Rightarrow> (string \<times> BlockEntry) list" where
  "ip_del ip t = AList.delete ip t"

definition ip_entries :: "(string \<times> BlockEntry) list \<Rightarrow> BlockEntry list" where
  "ip_entries t = map snd t"

definition ip_invar :: "(string \<times> BlockEntry) list \<Rightarrow> bool" where
  "ip_invar t \<longleftrightarrow> distinct (map fst t) \<and> (\<forall>(k, e) \<in> set t. be_IP e = k)"

definition expired :: "int64 \<Rightarrow> int64 \<Rightarrow> bool" where
  "expired now expiration \<longleftrightarrow> 0 < expiration \<and> expiration \<le> now"

definition ipTableLookup :: "int64 \<Rightarrow> string \<Rightarrow> server \<Rightarrow> BlockEntry option \<times> server" where
  "ipTableLookup now ip st =
     (case ip_get (ipTable st) ip of
        None \<Rightarrow> (None, st)
      | Some entry \<Rightarrow>
          if be_Expiration entry > 0 \<and> be_Expiration entry \<le> now
          then (None, spawn (DeleteExpiredIP ip) st)
          else (Some entry, st))"

text \<open>The specification of a lookup: the entry of a key unless its expiration has passed.\<close>

definition live_ip :: "int64 \<Rightarrow> string \<Rightarrow> (string \<times> BlockEntry) list \<Rightarrow> BlockEntry option" where
  "live_ip now ip t =
     (case ip_get t ip of None \<Rightarrow> None
      | Some e \<Rightarrow> if expired now (be_Expiration e) then None else Some e)"

definition ipTable_delete :: "string \<Rightarrow> server \<Rightarrow> server" where
  "ipTable_delete ip st = st\<lparr>ipTable := ip_del ip (ipTable st)\<rparr>"

definition ipTable_store :: "BlockEntry \<Rightarrow> server \<Rightarrow> server" where
  "ipTable_store e st = st\<lparr>ipTable := ip_put e (ipTable st)\<rparr>"

definition deleteExpiredIP :: "string \<Rightarrow> server \<Rightarrow> server" where
  "deleteExpiredIP ipstr st =
     (case ParseIP ipstr of
        None \<Rightarrow> st
      | Some parsed \<Rightarrow>
          let st = etcdDelete (rblKey parsed) st;
              st = etcdDelete (reverseKey parsed) st;
              st = (if \<not> gMultiInstanceMode st then ipTable_delete ipstr st else st)
          in log_call (LogMsg LOG_INFO ''Lazy expiry: IP %s'') st)"

definition ipTableLen :: "server \<Rightarrow> nat" where
  "ipTableLen st = length (ipTable st)"

section \<open>The table is a keyed store\<close>

interpretation ips: keyed_store ip_get ip_put ip_del ip_entries be_IP ip_invar
proof unfold_locales
  fix s :: "(string \<times> BlockEntry) list" and v k
  assume inv: "ip_invar s"
  show "ip_get (ip_put v s) = (ip_get s)(be_IP v \<mapsto> v)"
    by (simp add: ip_get_def ip_put_def fun_eq_iff map_of_AList_update)
  show "ip_get (ip_del k s) = (ip_get s)(k := None)"
    by (simp add: ip_get_def ip_del_def fun_eq_iff map_of_AList_delete)
  show "be_IP v = k" if "ip_get s k = Some v"
    using inv map_of_SomeD [OF that [unfolded ip_get_def]] by (auto simp: ip_invar_def)
  show "v \<in> set (ip_entries s) \<longleftrightarrow> ip_get s (be_IP v) = Some v"
  proof
    assume "v \<in> set (ip_entries s)"
    then obtain k where kv: "(k, v) \<in> set s" by (auto simp: ip_entries_def)
    with inv have "be_IP v = k" by (auto simp: ip_invar_def)
    with inv kv show "ip_get s (be_IP v) = Some v" by (simp add: ip_invar_def ip_get_def)
  next
    assume "ip_get s (be_IP v) = Some v"
    then show "v \<in> set (ip_entries s)"
      by (force simp: ip_get_def ip_entries_def dest: map_of_SomeD)
  qed
  show "ip_invar (ip_put v s)"
    using inv distinct_update [of s "be_IP v" v]
    by (auto simp: ip_invar_def ip_put_def dest!: set_AList_update)
  show "ip_invar (ip_del k s)"
    using inv by (auto simp: ip_invar_def ip_del_def distinct_delete dest!: set_AList_delete)
qed

section \<open>Facts about the operations\<close>

lemma ip_invar_Nil [simp]: "ip_invar []"
  by (simp add: ip_invar_def)

text \<open>The keys a \<open>range\<close> loop over the map collects are those of the entries.\<close>

lemma keys_of_entries:
  assumes "ip_invar t"
  shows "map fst (filter (\<lambda>(k, e). P k e) t) = map be_IP (filter (\<lambda>e. P (be_IP e) e) (ip_entries t))"
proof -
  have "\<forall>(k, e) \<in> set t. be_IP e = k" using assms by (simp add: ip_invar_def)
  then show ?thesis by (induction t) (auto simp: ip_entries_def)
qed

lemma ipTable_update_simps [simp, state_simps]:
  "ipTable (ipTable_delete ip st) = ip_del ip (ipTable st)"
  "ipTable (ipTable_store e st) = ip_put e (ipTable st)"
  "cidrTable (ipTable_delete ip st) = cidrTable st" "cidrTable (ipTable_store e st) = cidrTable st"
  "stats (ipTable_delete ip st) = stats st" "stats (ipTable_store e st) = stats st"
  "gMultiInstanceMode (ipTable_delete ip st) = gMultiInstanceMode st"
  "gMultiInstanceMode (ipTable_store e st) = gMultiInstanceMode st"
  "gEtcdRevision (ipTable_delete ip st) = gEtcdRevision st"
  "gEtcdRevision (ipTable_store e st) = gEtcdRevision st"
  "etcd_requests (ipTable_delete ip st) = etcd_requests st"
  "etcd_requests (ipTable_store e st) = etcd_requests st"
  "goroutines (ipTable_delete ip st) = goroutines st" "goroutines (ipTable_store e st) = goroutines st"
  "log_calls (ipTable_delete ip st) = log_calls st" "log_calls (ipTable_store e st) = log_calls st"
  by (simp_all add: ipTable_delete_def ipTable_store_def)

lemma fst_ipTableLookup:
  "fst (ipTableLookup now ip st) = Some e \<longleftrightarrow>
   ip_get (ipTable st) ip = Some e \<and> \<not> expired now (be_Expiration e)"
  by (auto simp: ipTableLookup_def expired_def split: option.splits)

lemma live_ip_Some:
  "live_ip now ip t = Some e \<longleftrightarrow> ip_get t ip = Some e \<and> \<not> expired now (be_Expiration e)"
  by (cases "ip_get t ip") (auto simp: live_ip_def)

lemma fst_ipTableLookup_live: "fst (ipTableLookup now ip st) = live_ip now ip (ipTable st)"
  by (cases "ip_get (ipTable st) ip") (auto simp: ipTableLookup_def live_ip_def expired_def)

lemma fst_ipTableLookup_None:
  "fst (ipTableLookup now ip st) = None \<longleftrightarrow>
   (\<forall>e. ip_get (ipTable st) ip = Some e \<longrightarrow> expired now (be_Expiration e))"
  by (auto simp: ipTableLookup_def expired_def split: option.splits)

lemma snd_ipTableLookup [simp, state_simps]:
  "ipTable (snd (ipTableLookup now ip st)) = ipTable st"
  "cidrTable (snd (ipTableLookup now ip st)) = cidrTable st"
  "stats (snd (ipTableLookup now ip st)) = stats st"
  "gMultiInstanceMode (snd (ipTableLookup now ip st)) = gMultiInstanceMode st"
  "gEtcdRevision (snd (ipTableLookup now ip st)) = gEtcdRevision st"
  "etcd_requests (snd (ipTableLookup now ip st)) = etcd_requests st"
  "log_calls (snd (ipTableLookup now ip st)) = log_calls st"
  "goroutines (snd (ipTableLookup now ip st)) = goroutines st @
     (case ip_get (ipTable st) ip of None \<Rightarrow> []
      | Some e \<Rightarrow> if expired now (be_Expiration e) then [DeleteExpiredIP ip] else [])"
  by (auto simp: ipTableLookup_def expired_def split: option.splits)

lemma deleteExpiredIP_simps [state_simps]:
  "ipTable (deleteExpiredIP ip st) =
     (if ParseIP ip \<noteq> None \<and> \<not> gMultiInstanceMode st then ip_del ip (ipTable st) else ipTable st)"
  "cidrTable (deleteExpiredIP ip st) = cidrTable st"
  "gMultiInstanceMode (deleteExpiredIP ip st) = gMultiInstanceMode st"
  by (auto simp: deleteExpiredIP_def Let_def etcdDelete_def split: option.splits)

end
