(* ===== verification/CidrTable.thy ===== *)
theory CidrTable
  imports IpTable
begin

text \<open>
  The table of blocked networks of \<open>src/src/cidr.go\<close>: a slice of entries scanned from the
  front. \<open>upsert\<close> replaces in place or appends, \<open>remove\<close> overwrites the entry with the last
  one and shortens the slice. Indexing is written out with positions, as in the source; the
  lemmas show that every index is in range, that both operations implement the keyed store,
  and what \<open>lookup\<close> returns.
\<close>

section \<open>Definitions\<close>

text \<open>The first position of a slice that satisfies a test, as the \<open>range\<close> loops find it.\<close>

fun find_index :: "('a \<Rightarrow> bool) \<Rightarrow> 'a list \<Rightarrow> nat option" where
  "find_index p [] = None"
| "find_index p (x # xs) = (if p x then Some 0 else map_option Suc (find_index p xs))"

definition cidr_find :: "CIDREntry list \<Rightarrow> string \<Rightarrow> CIDREntry option" where
  "cidr_find es cidr = find (\<lambda>e. ce_CIDR e = cidr) es"

definition cidr_upsert :: "CIDREntry \<Rightarrow> CIDREntry list \<Rightarrow> CIDREntry list" where
  "cidr_upsert e es =
     (case find_index (\<lambda>existing. ce_CIDR existing = ce_CIDR e) es of
        Some i \<Rightarrow> es[i := e]
      | None \<Rightarrow> es @ [e])"

definition cidr_remove :: "string \<Rightarrow> CIDREntry list \<Rightarrow> CIDREntry list" where
  "cidr_remove cidr es =
     (case find_index (\<lambda>e. ce_CIDR e = cidr) es of
        Some i \<Rightarrow> let l = length es - 1 in take l (es[i := es ! l])
      | None \<Rightarrow> es)"

definition cidr_entries :: "CIDREntry list \<Rightarrow> CIDREntry list" where
  "cidr_entries es = es"

definition cidr_invar :: "CIDREntry list \<Rightarrow> bool" where
  "cidr_invar es \<longleftrightarrow> distinct (map ce_CIDR es)"

text \<open>\<open>cidrTable.lookup\<close>: the loop stops at the first network that contains the address.\<close>

fun cidr_lookup_loop :: "int64 \<Rightarrow> IP \<Rightarrow> CIDREntry list \<Rightarrow> server \<Rightarrow> CIDREntry option \<times> server" where
  "cidr_lookup_loop now ip [] st = (None, st)"
| "cidr_lookup_loop now ip (e # es) st =
     (if Contains (ce_Net e) ip then
        if ce_Expiration e > 0 \<and> ce_Expiration e \<le> now
        then (None, spawn (DeleteExpiredCIDR (ce_CIDR e)) st)
        else (Some e, st)
      else cidr_lookup_loop now ip es st)"

definition cidr_lookup :: "int64 \<Rightarrow> IP \<Rightarrow> server \<Rightarrow> CIDREntry option \<times> server" where
  "cidr_lookup now ip st = cidr_lookup_loop now ip (cidrTable st) st"

definition findByCIDR :: "string \<Rightarrow> server \<Rightarrow> CIDREntry option" where
  "findByCIDR cidr st = cidr_find (cidrTable st) cidr"

definition cidrTable_upsert :: "CIDREntry \<Rightarrow> server \<Rightarrow> server" where
  "cidrTable_upsert e st = st\<lparr>cidrTable := cidr_upsert e (cidrTable st)\<rparr>"

definition cidrTable_remove :: "string \<Rightarrow> server \<Rightarrow> server" where
  "cidrTable_remove cidr st = st\<lparr>cidrTable := cidr_remove cidr (cidrTable st)\<rparr>"

definition deleteExpiredCIDR :: "string \<Rightarrow> server \<Rightarrow> server" where
  "deleteExpiredCIDR cidr st =
     (let st = etcdDeleteCIDR cidr st;
          st = (if \<not> gMultiInstanceMode st then cidrTable_remove cidr st else st)
      in log_call (LogMsg LOG_INFO ''Lazy expiry: CIDR %s'') st)"

definition cidrTable_len :: "server \<Rightarrow> nat" where
  "cidrTable_len st = length (cidrTable st)"

definition cidrEntryToBlockEntry :: "CIDREntry \<Rightarrow> BlockEntry" where
  "cidrEntryToBlockEntry e =
     \<lparr>be_IP = ce_CIDR e, be_Source = ce_Source e, be_Scenario = ce_Scenario e,
      be_Action = ce_Action e, be_CreateRevision = 0, be_ModRevision = 0,
      be_FirstSeen = ce_FirstSeen e, be_LastSeen = ce_LastSeen e,
      be_Expiration = ce_Expiration e, be_ReturnCode = ce_ReturnCode e\<rparr>"

section \<open>Positions\<close>

lemma find_index_None: "find_index p xs = None \<longleftrightarrow> (\<forall>x \<in> set xs. \<not> p x)"
  by (induction xs) auto

lemma find_index_Some:
  "find_index p xs = Some i \<longleftrightarrow> i < length xs \<and> p (xs ! i) \<and> (\<forall>j<i. \<not> p (xs ! j))"
proof (induction xs arbitrary: i)
  case (Cons x xs)
  then show ?case by (cases i) (auto simp: less_Suc_eq_0_disj nth_Cons')
qed simp

lemma cidr_upsert_split:
  assumes "cidr_invar es"
  obtains (new) "ce_CIDR e \<notin> ce_CIDR ` set es" "cidr_upsert e es = es @ [e]"
  | (old) xs x ys where "es = xs @ x # ys" "ce_CIDR x = ce_CIDR e" "cidr_upsert e es = xs @ e # ys"
proof (cases "find_index (\<lambda>x. ce_CIDR x = ce_CIDR e) es")
  case None
  with new show thesis by (force simp: cidr_upsert_def find_index_None)
next
  case (Some i)
  then have i: "i < length es" "ce_CIDR (es ! i) = ce_CIDR e" by (simp_all add: find_index_Some)
  have "es = take i es @ es ! i # drop (Suc i) es" using i(1) by (rule id_take_nth_drop)
  moreover have "cidr_upsert e es = take i es @ e # drop (Suc i) es"
    using Some i(1) by (simp add: cidr_upsert_def upd_conv_take_nth_drop)
  ultimately show thesis using old i(2) by blast
qed

text \<open>Removal moves the last entry into the gap: the other entries are kept, one is dropped.\<close>

lemma cidr_remove_split:
  assumes "cidr_invar es"
  obtains (absent) "cidr \<notin> ce_CIDR ` set es" "cidr_remove cidr es = es"
  | (present) x rest where "x \<in> set es" "ce_CIDR x = cidr" "mset es = add_mset x (mset rest)"
      "cidr_remove cidr es = rest"
proof (cases "find_index (\<lambda>x. ce_CIDR x = cidr) es")
  case None
  with absent show thesis by (force simp: cidr_remove_def find_index_None)
next
  case (Some i)
  let ?l = "length es - 1"
  have i: "i < length es" "ce_CIDR (es ! i) = cidr" using Some by (simp_all add: find_index_Some)
  have "es \<noteq> []" using i(1) by auto
  then have es: "es = butlast es @ [last es]" "es ! ?l = last es"
    by (simp, simp add: last_conv_nth)
  have ms: "mset es = add_mset (last es) (mset (butlast es))" by (subst es(1)) simp
  have rem: "cidr_remove cidr es = take ?l (es[i := last es])"
    using Some es(2) by (simp add: cidr_remove_def Let_def)
  have "mset es = add_mset (es ! i) (mset (take ?l (es[i := last es])))"
  proof (cases "i = ?l")
    case True
    then have "take ?l (es[i := last es]) = butlast es" by (simp add: butlast_conv_take)
    with True es(2) ms show ?thesis by simp
  next
    case False
    with i(1) have less: "i < length (butlast es)" by simp
    have "take ?l (es[i := last es]) = (butlast es)[i := last es]"
      by (simp add: butlast_conv_take take_update_swap)
    moreover have "mset ((butlast es)[i := last es]) = add_mset (last es) (mset (butlast es) - {#butlast es ! i#})"
      using less by (rule mset_update)
    moreover have "butlast es ! i \<in># mset (butlast es)" using less by simp
    moreover have "butlast es ! i = es ! i" using less by (rule nth_butlast)
    ultimately show ?thesis using ms by (simp add: add_mset_commute)
  qed
  with i rem present show thesis by (metis nth_mem)
qed

section \<open>The table is a keyed store\<close>

lemma cidr_find_Some_iff:
  "cidr_invar es \<Longrightarrow> cidr_find es k = Some e \<longleftrightarrow> e \<in> set es \<and> ce_CIDR e = k"
  by (induction es) (auto simp: cidr_find_def cidr_invar_def)

lemma cidr_find_None: "cidr_find es k = None \<longleftrightarrow> k \<notin> ce_CIDR ` set es"
  by (auto simp: cidr_find_def find_None_iff)

lemma distinct_cidr_mset:
  "mset es = add_mset x (mset rest) \<Longrightarrow> cidr_invar es \<longleftrightarrow> cidr_invar (x # rest)"
  unfolding cidr_invar_def by (metis mset.simps(2) mset_eq_imp_distinct_iff mset_map)

lemma cidr_upsert_invar:
  assumes "cidr_invar es"
  shows "cidr_invar (cidr_upsert e es)"
  using assms
proof (cases rule: cidr_upsert_split [of es e, OF assms, case_names new old])
  case new
  with assms show ?thesis by (simp add: cidr_invar_def)
next
  case (old xs x ys)
  with assms show ?thesis by (simp add: cidr_invar_def)
qed

lemma cidr_remove_invar:
  assumes "cidr_invar es"
  shows "cidr_invar (cidr_remove cidr es)"
proof (cases rule: cidr_remove_split [of es cidr, OF assms, case_names absent present])
  case absent
  with assms show ?thesis by simp
next
  case (present x rest)
  with assms distinct_cidr_mset [OF present(3)] show ?thesis by (simp add: cidr_invar_def)
qed

lemma set_cidr_upsert:
  assumes "cidr_invar es"
  shows "x \<in> set (cidr_upsert e es) \<longleftrightarrow> x = e \<or> (x \<in> set es \<and> ce_CIDR x \<noteq> ce_CIDR e)"
proof (cases rule: cidr_upsert_split [of es e, OF assms, case_names new old])
  case new
  then show ?thesis by (auto simp: image_iff)
next
  case (old xs y ys)
  then have "ce_CIDR e \<notin> ce_CIDR ` (set xs \<union> set ys)"
    using assms by (auto simp: cidr_invar_def)
  then have "ce_CIDR x \<noteq> ce_CIDR e" if "x \<in> set xs \<union> set ys" using that by (metis imageI)
  with old show ?thesis by auto
qed

lemma set_cidr_remove:
  assumes "cidr_invar es"
  shows "x \<in> set (cidr_remove cidr es) \<longleftrightarrow> x \<in> set es \<and> ce_CIDR x \<noteq> cidr"
  using assms
proof (rule cidr_remove_split [of es cidr])
  fix y rest
  assume *: "ce_CIDR y = cidr" "mset es = add_mset y (mset rest)" "cidr_remove cidr es = rest"
  then have "set es = insert y (set rest)" by (metis list.set(2) mset.simps(2) mset_eq_setD)
  moreover have "cidr \<notin> ce_CIDR ` set rest"
    using assms * distinct_cidr_mset [OF *(2)] by (simp add: cidr_invar_def)
  ultimately show ?thesis using * by (auto simp: image_iff)
qed auto

interpretation cidrs: keyed_store cidr_find cidr_upsert cidr_remove cidr_entries ce_CIDR cidr_invar
proof unfold_locales
  fix s :: "CIDREntry list" and v k
  assume inv: "cidr_invar s"
  show "cidr_invar (cidr_upsert v s)" using inv by (rule cidr_upsert_invar)
  show "cidr_invar (cidr_remove k s)" using inv by (rule cidr_remove_invar)
  show "cidr_find (cidr_upsert v s) = (cidr_find s)(ce_CIDR v \<mapsto> v)"
    by (rule ext, rule option_eqI)
       (use inv in \<open>auto simp: cidr_find_Some_iff cidr_upsert_invar set_cidr_upsert\<close>)
  show "cidr_find (cidr_remove k s) = (cidr_find s)(k := None)"
    by (rule ext, rule option_eqI)
       (use inv in \<open>auto simp: cidr_find_Some_iff cidr_remove_invar set_cidr_remove\<close>)
  show "ce_CIDR v = k" if "cidr_find s k = Some v"
    using that inv by (simp add: cidr_find_Some_iff)
  show "v \<in> set (cidr_entries s) \<longleftrightarrow> cidr_find s (ce_CIDR v) = Some v"
    using inv by (simp add: cidr_find_Some_iff cidr_entries_def)
qed

section \<open>Facts about the operations\<close>

lemma cidr_invar_Nil [simp]: "cidr_invar []"
  by (simp add: cidr_invar_def)

lemma cidrTable_update_simps [simp, state_simps]:
  "cidrTable (cidrTable_remove c st) = cidr_remove c (cidrTable st)"
  "cidrTable (cidrTable_upsert e st) = cidr_upsert e (cidrTable st)"
  "ipTable (cidrTable_remove c st) = ipTable st" "ipTable (cidrTable_upsert e st) = ipTable st"
  "stats (cidrTable_remove c st) = stats st" "stats (cidrTable_upsert e st) = stats st"
  "gMultiInstanceMode (cidrTable_remove c st) = gMultiInstanceMode st"
  "gMultiInstanceMode (cidrTable_upsert e st) = gMultiInstanceMode st"
  "gEtcdRevision (cidrTable_remove c st) = gEtcdRevision st"
  "gEtcdRevision (cidrTable_upsert e st) = gEtcdRevision st"
  "etcd_requests (cidrTable_remove c st) = etcd_requests st"
  "etcd_requests (cidrTable_upsert e st) = etcd_requests st"
  "goroutines (cidrTable_remove c st) = goroutines st" "goroutines (cidrTable_upsert e st) = goroutines st"
  "log_calls (cidrTable_remove c st) = log_calls st" "log_calls (cidrTable_upsert e st) = log_calls st"
  by (simp_all add: cidrTable_remove_def cidrTable_upsert_def)

text \<open>The scan in terms of the first network that contains the address.\<close>

lemma cidr_lookup_loop_find:
  "cidr_lookup_loop now ip es st =
   (case find (\<lambda>e. Contains (ce_Net e) ip) es of
      None \<Rightarrow> (None, st)
    | Some e \<Rightarrow> if expired now (ce_Expiration e)
                then (None, spawn (DeleteExpiredCIDR (ce_CIDR e)) st) else (Some e, st))"
  by (induction es) (auto simp: expired_def)

lemma cidr_lookup_find:
  "cidr_lookup now ip st =
   (case find (\<lambda>e. Contains (ce_Net e) ip) (cidrTable st) of
      None \<Rightarrow> (None, st)
    | Some e \<Rightarrow> if expired now (ce_Expiration e)
                then (None, spawn (DeleteExpiredCIDR (ce_CIDR e)) st) else (Some e, st))"
  by (simp add: cidr_lookup_def cidr_lookup_loop_find)

lemma snd_cidr_lookup [simp, state_simps]:
  "ipTable (snd (cidr_lookup now ip st)) = ipTable st"
  "cidrTable (snd (cidr_lookup now ip st)) = cidrTable st"
  "stats (snd (cidr_lookup now ip st)) = stats st"
  "gMultiInstanceMode (snd (cidr_lookup now ip st)) = gMultiInstanceMode st"
  "gEtcdRevision (snd (cidr_lookup now ip st)) = gEtcdRevision st"
  "etcd_requests (snd (cidr_lookup now ip st)) = etcd_requests st"
  "log_calls (snd (cidr_lookup now ip st)) = log_calls st"
  by (auto simp: cidr_lookup_find split: option.splits)

lemma deleteExpiredCIDR_simps [state_simps]:
  "ipTable (deleteExpiredCIDR c st) = ipTable st"
  "cidrTable (deleteExpiredCIDR c st) =
     (if gMultiInstanceMode st then cidrTable st else cidr_remove c (cidrTable st))"
  "gMultiInstanceMode (deleteExpiredCIDR c st) = gMultiInstanceMode st"
  by (auto simp: deleteExpiredCIDR_def Let_def etcd_defs)

end
