(* ===== verification/Http.thy ===== *)
theory Http
  imports CidrTable "HOL-Library.List_Lexorder" "HOL-Library.Char_ord"
begin

text \<open>
  Requests, responses and the views of an entry that the handlers of \<open>src/src/main.go\<close>
  send. A response writer keeps the status of the first \<open>WriteHeader\<close> (or 200 at the first
  \<open>Write\<close>), a header as an association list under canonical keys, and the bytes written.
  A Go map is an association list; its JSON form lists the keys in byte order. Each reading
  of the clock is an argument.
\<close>

section \<open>Requests and responses\<close>

record request =
  req_Method :: string
  req_PathValue :: "string \<Rightarrow> string"
  req_Query :: "(string \<times> string list) list"

text \<open>A request whose path variables are given by name (\<open>r.PathValue\<close> of another name is empty).\<close>

definition path_request :: "string \<Rightarrow> (string \<times> string) list \<Rightarrow> (string \<times> string list) list \<Rightarrow> request" where
  "path_request method vars q =
     \<lparr>req_Method = method, req_PathValue = (\<lambda>k. case map_of vars k of Some v \<Rightarrow> v | None \<Rightarrow> []),
      req_Query = q\<rparr>"

record response =
  res_Status :: "nat option"
  res_Header :: "(string \<times> string) list"
  res_Body :: string

definition new_response :: response where
  "new_response = \<lparr>res_Status = None, res_Header = [], res_Body = []\<rparr>"

text \<open>\<open>Values.Get\<close>: the first value of a key, or the empty string.\<close>

definition query_get :: "(string \<times> string list) list \<Rightarrow> string \<Rightarrow> string" where
  "query_get q k = (case map_of q k of Some (v # vs) \<Rightarrow> v | _ \<Rightarrow> [])"

definition upper_ascii :: "char \<Rightarrow> char" where
  "upper_ascii c = (let n = (of_char c :: nat) in if 97 \<le> n \<and> n \<le> 122 then char_of (n - 32) else c)"

definition lower_ascii :: "char \<Rightarrow> char" where
  "lower_ascii c = (let n = (of_char c :: nat) in if 65 \<le> n \<and> n \<le> 90 then char_of (n + 32) else c)"

text \<open>\<open>textproto.CanonicalMIMEHeaderKey\<close> on a token.\<close>

fun canonical_key :: "bool \<Rightarrow> string \<Rightarrow> string" where
  "canonical_key upper [] = []"
| "canonical_key upper (c # cs) =
     (if upper then upper_ascii c else lower_ascii c) # canonical_key (c = CHR ''-'') cs"

definition set_header :: "string \<Rightarrow> string \<Rightarrow> response \<Rightarrow> response" where
  "set_header k v w = w\<lparr>res_Header := AList.update (canonical_key True k) v (res_Header w)\<rparr>"

definition WriteHeader :: "nat \<Rightarrow> response \<Rightarrow> response" where
  "WriteHeader code w = (case res_Status w of None \<Rightarrow> w\<lparr>res_Status := Some code\<rparr> | Some _ \<Rightarrow> w)"

definition Write :: "string \<Rightarrow> response \<Rightarrow> response" where
  "Write s w = (let w = WriteHeader 200 w in w\<lparr>res_Body := res_Body w @ s\<rparr>)"

text \<open>\<open>http.Error\<close>.\<close>

definition http_Error :: "string \<Rightarrow> nat \<Rightarrow> response \<Rightarrow> response" where
  "http_Error msg code w =
     Write (msg @ [CHR 0x0A])
       (WriteHeader code
         (set_header ''X-Content-Type-Options'' ''nosniff''
           (set_header ''Content-Type'' ''text/plain; charset=utf-8'' w)))"

text \<open>A handler that returns without writing answers 200.\<close>

definition status_code :: "response \<Rightarrow> nat" where
  "status_code w = (case res_Status w of None \<Rightarrow> 200 | Some c \<Rightarrow> c)"

section \<open>Views of an entry\<close>

definition json_map :: "(string \<times> json) list \<Rightarrow> json" where
  "json_map m = JObj (sort_key fst m)"

definition epochToISO :: "int64 \<Rightarrow> string" where
  "epochToISO ts = (if ts = 0 then [] else FormatRFC3339 ts)"

definition remainingDuration :: "int64 \<Rightarrow> int64 \<Rightarrow> string" where
  "remainingDuration now exp =
     (if exp = 0 then ''permanent''
      else let r = remainingSeconds now exp in Duration_String (wrap64 (r * second)))"

text \<open>\<open>entryToMap\<close> reads the clock twice.\<close>

definition entryToMap :: "int64 \<Rightarrow> int64 \<Rightarrow> BlockEntry \<Rightarrow> (string \<times> json) list" where
  "entryToMap now1 now2 entry =
     [(''ip'', JStr (be_IP entry)),
      (''source'', JStr (be_Source entry)),
      (''scenario'', JStr (be_Scenario entry)),
      (''action'', JStr (be_Action entry)),
      (''create_revision'', JInt (be_CreateRevision entry)),
      (''mod_revision'', JInt (be_ModRevision entry)),
      (''first_seen'', JInt (be_FirstSeen entry)),
      (''first_seen_iso'', JStr (epochToISO (be_FirstSeen entry))),
      (''last_seen'', JInt (be_LastSeen entry)),
      (''last_seen_iso'', JStr (epochToISO (be_LastSeen entry))),
      (''expiration'', JInt (be_Expiration entry)),
      (''expiration_iso'', JStr (epochToISO (be_Expiration entry))),
      (''remaining_seconds'', JInt (remainingSeconds now1 (be_Expiration entry))),
      (''remaining_duration'', JStr (remainingDuration now2 (be_Expiration entry))),
      (''return_code'', JStr (Uint32ToIPv4Str (be_ReturnCode entry)))]"

definition cidrEntryToMap :: "int64 \<Rightarrow> int64 \<Rightarrow> CIDREntry \<Rightarrow> (string \<times> json) list" where
  "cidrEntryToMap now1 now2 e =
     [(''cidr'', JStr (ce_CIDR e)),
      (''source'', JStr (ce_Source e)),
      (''scenario'', JStr (ce_Scenario e)),
      (''action'', JStr (ce_Action e)),
      (''first_seen'', JInt (ce_FirstSeen e)),
      (''first_seen_iso'', JStr (epochToISO (ce_FirstSeen e))),
      (''last_seen'', JInt (ce_LastSeen e)),
      (''last_seen_iso'', JStr (epochToISO (ce_LastSeen e))),
      (''expiration'', JInt (ce_Expiration e)),
      (''expiration_iso'', JStr (epochToISO (ce_Expiration e))),
      (''remaining_seconds'', JInt (remainingSeconds now1 (ce_Expiration e))),
      (''remaining_duration'', JStr (remainingDuration now2 (ce_Expiration e))),
      (''return_code'', JStr (Uint32ToIPv4Str (ce_ReturnCode e)))]"

text \<open>The struct \<open>BlockEntry\<close> has no JSON tags: its Go field names are the keys.\<close>

definition BlockEntry_json :: "BlockEntry \<Rightarrow> json" where
  "BlockEntry_json e =
     JObj [(''IP'', JStr (be_IP e)), (''Source'', JStr (be_Source e)),
       (''Scenario'', JStr (be_Scenario e)), (''Action'', JStr (be_Action e)),
       (''CreateRevision'', JInt (be_CreateRevision e)), (''ModRevision'', JInt (be_ModRevision e)),
       (''FirstSeen'', JInt (be_FirstSeen e)), (''LastSeen'', JInt (be_LastSeen e)),
       (''Expiration'', JInt (be_Expiration e)), (''ReturnCode'', JInt (uint (be_ReturnCode e)))]"

section \<open>Facts about responses\<close>

lemma path_request_simps [simp]:
  "req_Method (path_request m vars q) = m" "req_Query (path_request m vars q) = q"
  "req_PathValue (path_request m vars q) k = (case map_of vars k of Some v \<Rightarrow> v | None \<Rightarrow> [])"
  by (simp_all add: path_request_def)

lemma set_header_simps [simp]:
  "res_Status (set_header k v w) = res_Status w" "res_Body (set_header k v w) = res_Body w"
  by (simp_all add: set_header_def)

lemma WriteHeader_simps [simp]:
  "res_Status (WriteHeader code w) = Some (case res_Status w of None \<Rightarrow> code | Some c \<Rightarrow> c)"
  "res_Body (WriteHeader code w) = res_Body w" "res_Header (WriteHeader code w) = res_Header w"
  by (simp_all add: WriteHeader_def split: option.splits)

lemma Write_simps [simp]:
  "res_Status (Write s w) = Some (case res_Status w of None \<Rightarrow> 200 | Some c \<Rightarrow> c)"
  "res_Body (Write s w) = res_Body w @ s" "res_Header (Write s w) = res_Header w"
  by (simp_all add: Write_def Let_def)

lemma http_Error_simps [simp]:
  "res_Status (http_Error msg code w) = Some (case res_Status w of None \<Rightarrow> code | Some c \<Rightarrow> c)"
  "res_Body (http_Error msg code w) = res_Body w @ msg @ [CHR 0x0A]"
  by (simp_all add: http_Error_def)

lemma new_response_simps [simp]:
  "res_Status new_response = None" "res_Body new_response = []" "res_Header new_response = []"
  by (simp_all add: new_response_def)

text \<open>The header seen by a client.\<close>

definition header_get :: "response \<Rightarrow> string \<Rightarrow> string option" where
  "header_get w k = map_of (res_Header w) (canonical_key True k)"

lemma header_get_set_header:
  "header_get (set_header k v w) k' =
   (if canonical_key True k = canonical_key True k' then Some v else header_get w k')"
  by (auto simp: header_get_def set_header_def map_of_AList_update)

lemma header_get_WriteHeader [simp]:
  "header_get (WriteHeader code w) k = header_get w k" "header_get (Write s w) k = header_get w k"
  "header_get new_response k = None"
  by (simp_all add: header_get_def)

text \<open>A Go map has one value per key, so its JSON form has every key once and in order.\<close>

lemma json_map_keys:
  "distinct (map fst m) \<Longrightarrow>
   (case json_map m of JObj kvs \<Rightarrow> sorted (map fst kvs) \<and> distinct (map fst kvs) \<and> map_of kvs = map_of m | _ \<Rightarrow> False)"
proof -
  assume d: "distinct (map fst m)"
  have "set (sort_key fst m) = set m" by simp
  moreover have d': "distinct (map fst (sort_key fst m))"
    using d by (metis mset_map mset_sort mset_eq_imp_distinct_iff)
  ultimately have "map_of (sort_key fst m) = map_of m"
    using d by (metis map_of_inject_set)
  with d' show ?thesis by (simp add: json_map_def)
qed

end
