(* ===== verification/Handlers.thy ===== *)
theory Handlers
  imports Http
begin

text \<open>
  The HTTP handlers of \<open>src/src/main.go\<close>. Each handler maps a request and a server state to
  a response and a new state; the \<open>i\<close>-th reading of the clock (in program order of the call
  sites) is \<open>clk i\<close>. The etcd requests, the goroutines and the log statements of a handler are
  appended to the lists of the state. \<open>handlePut\<close> and \<open>handlePutNetwork\<close> repeat the same
  parameter handling in the source, which is the function \<open>put_params\<close> here.
\<close>

section \<open>Lookup and authorisation\<close>

text \<open>The two steps at the start of \<open>handleLookup\<close>: the address table, then the networks. In
  the source \<open>blocked\<close> is true exactly when \<open>entry\<close> is not nil, so the option carries both
  and the branch for a blocked nil entry is not reachable.\<close>

definition lookup_entry ::
  "int64 \<Rightarrow> int64 \<Rightarrow> string \<Rightarrow> server \<Rightarrow> (BlockEntry \<times> string) option \<times> server" where
  "lookup_entry now1 now2 ip st =
     (case ipTableLookup now1 ip st of
        (Some entry, st) \<Rightarrow> (Some (entry, []), st)
      | (None, st) \<Rightarrow>
          (case ParseIP ip of
             None \<Rightarrow> (None, st)
           | Some parsed \<Rightarrow>
               (case cidr_lookup now2 parsed st of
                  (Some cidrEntry, st) \<Rightarrow>
                    (Some ((cidrEntryToBlockEntry cidrEntry)\<lparr>be_IP := ip\<rparr>, ce_CIDR cidrEntry), st)
                | (None, st) \<Rightarrow> (None, st))))"

definition lookup_headers :: "int64 \<Rightarrow> int64 \<Rightarrow> BlockEntry \<Rightarrow> string \<Rightarrow> response \<Rightarrow> response" where
  "lookup_headers now1 now2 entry matchedCIDR w =
     (let w = set_header ''X-Blocklist-IP'' (be_IP entry) w;
          w = set_header ''X-Blocklist-CreateRevision'' (dec_int (be_CreateRevision entry)) w;
          w = set_header ''X-Blocklist-ModRevision'' (dec_int (be_ModRevision entry)) w;
          w = set_header ''X-Blocklist-Source'' (be_Source entry) w;
          w = set_header ''X-Blocklist-Return'' (Uint32ToIPv4Str (be_ReturnCode entry)) w;
          w = set_header ''X-Blocklist-First-Seen'' (dec_int (be_FirstSeen entry)) w;
          w = set_header ''X-Blocklist-First-Seen-ISO'' (epochToISO (be_FirstSeen entry)) w;
          w = set_header ''X-Blocklist-Expiration'' (dec_int (be_Expiration entry)) w;
          w = set_header ''X-Blocklist-Expiration-ISO'' (epochToISO (be_Expiration entry)) w;
          w = set_header ''X-Blocklist-Remaining-Seconds''
                (dec_int (remainingSeconds now1 (be_Expiration entry))) w;
          w = set_header ''X-Blocklist-Remaining-Duration''
                (remainingDuration now2 (be_Expiration entry)) w;
          w = (if matchedCIDR \<noteq> [] then set_header ''X-Blocklist-Matched-CIDR'' matchedCIDR w else w)
      in set_header ''X-Blocklist-Status'' ''blocked'' w)"

definition nl :: string where
  "nl = [CHR 0x0A]"

definition lookup_text :: "int64 \<Rightarrow> int64 \<Rightarrow> BlockEntry \<Rightarrow> string" where
  "lookup_text now1 now2 entry =
     ''blocked=true'' @ nl @ ''ip='' @ be_IP entry @ nl @
     ''create_revision='' @ dec_int (be_CreateRevision entry) @ nl @
     ''mod_revision='' @ dec_int (be_ModRevision entry) @ nl @
     ''source='' @ be_Source entry @ nl @
     ''first_seen='' @ dec_int (be_FirstSeen entry) @ nl @
     ''first_seen_iso='' @ epochToISO (be_FirstSeen entry) @ nl @
     ''expiration='' @ dec_int (be_Expiration entry) @ nl @
     ''expiration_iso='' @ epochToISO (be_Expiration entry) @ nl @
     ''remaining_seconds='' @ dec_int (remainingSeconds now1 (be_Expiration entry)) @ nl @
     ''remaining_duration='' @ remainingDuration now2 (be_Expiration entry) @ nl"

definition handleLookup :: "(nat \<Rightarrow> int64) \<Rightarrow> request \<Rightarrow> server \<Rightarrow> response \<times> server" where
  "handleLookup clk r st =
     (let st = stats_add RequestsLookup 1 st;
          ip = req_PathValue r ''ip''
      in if ip = [] \<or> \<not> IsValidIP ip then
           (WriteHeader 400 (set_header ''X-Blocklist-Status'' ''error'' new_response),
            log_call (LogHttpReq ''Lookup'' ''Error'') st)
         else
           let (found, st) = lookup_entry (clk 0) (clk 1) ip st;
               w = set_header ''X-Service'' ''open-blocklist'' new_response;
               w = (if req_Method r = ''HEAD'' then
                      (case found of
                         Some (entry, matchedCIDR) \<Rightarrow> lookup_headers (clk 2) (clk 3) entry matchedCIDR w
                       | None \<Rightarrow> set_header ''X-Blocklist-Status'' ''clean'' w)
                    else w)
           in case found of
                None \<Rightarrow> (WriteHeader 204 w, log_call (LogHttpReq ''Lookup'' ''NotBlocked'') st)
              | Some (entry, matchedCIDR) \<Rightarrow>
                  if query_get (req_Query r) ''format'' = ''text'' then
                    (Write (lookup_text (clk 4) (clk 5) entry) (set_header ''Content-Type'' ''text/plain'' w),
                     log_call (LogHttpReq ''Lookup'' ''Blocked'') st)
                  else
                    let w = set_header ''Content-Type'' ''application/json'' w;
                        resp = entryToMap (clk 4) (clk 5) entry;
                        resp = AList.update ''blocked'' (JBool True) resp;
                        resp = (if matchedCIDR \<noteq> []
                                then AList.update ''matched_cidr'' (JStr matchedCIDR) resp else resp)
                    in (Write (json_line (json_map resp)) w,
                        log_call (LogHttpReq ''Lookup'' ''Blocked'') st))"

definition handleAuth :: "(nat \<Rightarrow> int64) \<Rightarrow> request \<Rightarrow> server \<Rightarrow> response \<times> server" where
  "handleAuth clk r st =
     (let st = stats_add RequestsAuth 1 st;
          st = stats_add RequestsWriteActive 1 st;
          w = set_header ''X-Service'' ''open-blocklist'' new_response;
          ip = req_PathValue r ''ip'';
          (w, st) =
            (if ip = [] \<or> \<not> IsValidIP ip then
               (WriteHeader 400 w, log_call (LogHttpReq ''Auth'' ''Error'') st)
             else
               let (entry, st) = ipTableLookup (clk 0) ip st;
                   (blocked, st) =
                     (if entry \<noteq> None then (True, st)
                      else case ParseIP ip of
                        None \<Rightarrow> (False, st)
                      | Some parsed \<Rightarrow>
                          let (cidrEntry, st) = cidr_lookup (clk 1) parsed st in (cidrEntry \<noteq> None, st))
               in if blocked then (WriteHeader 403 w, log_call (LogHttpReq ''Auth'' ''Blocked'') st)
                  else (WriteHeader 200 w, log_call (LogHttpReq ''Auth'' ''NotBlocked'') st))
      in (w, stats_add RequestsWriteActive (- 1) st))"

section \<open>Parameters of a write\<close>

record put_fields =
  pf_Source :: string
  pf_Scenario :: string
  pf_Action :: string
  pf_ReturnCode :: uint32
  pf_LastSeen :: int64
  pf_Expiration :: int64

definition put_defaults :: "int64 \<Rightarrow> put_fields" where
  "put_defaults now =
     \<lparr>pf_Source = defaultSource, pf_Scenario = [], pf_Action = ''ban'',
      pf_ReturnCode = IPv4StrToUint32 defaultReturn, pf_LastSeen = now, pf_Expiration = 0\<rparr>"

text \<open>The checks in the order of the source; \<open>Inl\<close> is the text of the 400 answer.\<close>

definition put_names :: "(string \<times> string list) list \<Rightarrow> string option" where
  "put_names q =
     (case find (\<lambda>k. k \<notin> set allowedPutParams) (map fst q) of
        Some k \<Rightarrow> Some (''Invalid parameter: '' @ k)
      | None \<Rightarrow>
          if query_get q ''duration'' \<noteq> [] \<and> query_get q ''expiration'' \<noteq> []
          then Some ''Duration and expiration cannot be used together'' else None)"

definition put_texts :: "(string \<times> string list) list \<Rightarrow> put_fields \<Rightarrow> put_fields" where
  "put_texts q f =
     (let v = query_get q ''source''; f = (if v \<noteq> [] then f\<lparr>pf_Source := v\<rparr> else f);
          v = query_get q ''scenario''; f = (if v \<noteq> [] then f\<lparr>pf_Scenario := v\<rparr> else f);
          v = query_get q ''action''; f = (if v \<noteq> [] then f\<lparr>pf_Action := v\<rparr> else f);
          v = query_get q ''return_code''
      in if v \<noteq> [] then f\<lparr>pf_ReturnCode := IPv4StrToUint32 v\<rparr> else f)"

definition put_last_seen :: "(string \<times> string list) list \<Rightarrow> put_fields \<Rightarrow> string + put_fields" where
  "put_last_seen q f =
     (let v = query_get q ''last_seen'' in
      if v = [] then Inr f
      else case ParseRFC3339 v of
        None \<Rightarrow> Inl ''Invalid last_seen timestamp''
      | Some t \<Rightarrow> Inr (f\<lparr>pf_LastSeen := t\<rparr>))"

definition put_duration :: "int64 \<Rightarrow> (string \<times> string list) list \<Rightarrow> put_fields \<Rightarrow> string + put_fields" where
  "put_duration now q f =
     (let v = query_get q ''duration'' in
      if v = [] then Inr f
      else case ParseDuration v of
        None \<Rightarrow> Inl ''Invalid duration''
      | Some d \<Rightarrow> Inr (f\<lparr>pf_Expiration := wrap64 (now + quot d second)\<rparr>))"

definition put_expiration :: "(string \<times> string list) list \<Rightarrow> put_fields \<Rightarrow> string + put_fields" where
  "put_expiration q f =
     (let v = query_get q ''expiration'' in
      if v = [] then Inr f
      else case ParseRFC3339 v of
        None \<Rightarrow> Inl ''Invalid expiration timestamp''
      | Some t \<Rightarrow> Inr (f\<lparr>pf_Expiration := t\<rparr>))"

definition put_params :: "int64 \<Rightarrow> (string \<times> string list) list \<Rightarrow> string + put_fields" where
  "put_params now q =
     (case put_names q of
        Some err \<Rightarrow> Inl err
      | None \<Rightarrow>
          (case put_last_seen q (put_texts q (put_defaults now)) of
             Inl err \<Rightarrow> Inl err
           | Inr f \<Rightarrow>
               (case put_duration now q f of
                  Inl err \<Rightarrow> Inl err
                | Inr f \<Rightarrow> put_expiration q f)))"

text \<open>The record written to etcd.\<close>

definition put_record :: "put_fields \<Rightarrow> int64 \<Rightarrow> BlockRecord" where
  "put_record f firstSeen =
     \<lparr>br_Version = 1, br_TTL = gRecordTTL, br_Host = Uint32ToIPv4Str (pf_ReturnCode f),
      br_Source = pf_Source f, br_Scenario = pf_Scenario f, br_Action = pf_Action f,
      br_FirstSeen = firstSeen, br_LastSeen = pf_LastSeen f, br_Expiration = pf_Expiration f,
      br_CreateRevision = 0, br_ModRevision = 0\<rparr>"

section \<open>Blocking and unblocking an address\<close>

definition put_entry :: "string \<Rightarrow> put_fields \<Rightarrow> int64 \<Rightarrow> BlockEntry" where
  "put_entry ipstr f firstSeen =
     \<lparr>be_IP = ipstr, be_Source = pf_Source f, be_Scenario = pf_Scenario f, be_Action = pf_Action f,
      be_CreateRevision = 0, be_ModRevision = 0, be_FirstSeen = firstSeen,
      be_LastSeen = pf_LastSeen f, be_Expiration = pf_Expiration f, be_ReturnCode = pf_ReturnCode f\<rparr>"

definition ptr_record :: PTRRecord where
  "ptr_record = \<lparr>pr_Host = gReverseHost, pr_TTL = gPtrTTL\<rparr>"

definition handlePut :: "(nat \<Rightarrow> int64) \<Rightarrow> request \<Rightarrow> server \<Rightarrow> response \<times> server" where
  "handlePut clk r st =
     (let st = stats_add RequestsPut 1 st;
          st = stats_add RequestsWriteActive 1 st;
          w = set_header ''X-Service'' ''open-blocklist'' new_response;
          w = set_header ''Content-Type'' ''application/json'' w;
          ipstr = req_PathValue r ''ip'';
          (w, st) =
            (case ParseIP ipstr of
               None \<Rightarrow> (http_Error ''Invalid ip'' 400 w, log_call (LogHttpReq ''Put'' ''Error'') st)
             | Some ip \<Rightarrow>
                 let now = clk 0;
                     (existing, st) = ipTableLookup (clk 1) ipstr st;
                     firstSeen = (case existing of Some e \<Rightarrow> be_FirstSeen e | None \<Rightarrow> now)
                 in case put_params now (req_Query r) of
                      Inl err \<Rightarrow> (http_Error err 400 w, log_call (LogHttpReq ''Put'' ''Error'') st)
                    | Inr f \<Rightarrow>
                        let entry = put_entry ipstr f firstSeen;
                            st = etcdPut (rblKey ip) (BlockRecord_json (put_record f firstSeen)) st;
                            st = etcdPut (reverseKey ip) (PTRRecord_json ptr_record) st;
                            st = (if gMultiInstanceMode st = False then ipTable_store entry st else st)
                        in (Write (json_line (BlockEntry_json entry)) w,
                            log_call (LogHttpReq ''Put'' ''OK'') st))
      in (w, stats_add RequestsWriteActive (- 1) st))"

definition handleDelete :: "request \<Rightarrow> server \<Rightarrow> response \<times> server" where
  "handleDelete r st =
     (let st = stats_add RequestsDelete 1 st;
          st = stats_add RequestsWriteActive 1 st;
          ipstr = req_PathValue r ''ip'';
          w = set_header ''X-Service'' ''open-blocklist'' new_response;
          (w, st) =
            (case ParseIP ipstr of
               None \<Rightarrow> (http_Error ''Invalid ip'' 400 w, log_call (LogHttpReq ''Delete'' ''Error'') st)
             | Some ip \<Rightarrow>
                 let st = etcdDelete (rblKey ip) st;
                     st = etcdDelete (reverseKey ip) st;
                     st = (if gMultiInstanceMode st = False then ipTable_delete ipstr st else st)
                 in (WriteHeader 204 w, log_call (LogHttpReq ''Delete'' ''OK'') st))
      in (w, stats_add RequestsWriteActive (- 1) st))"

section \<open>Blocking and unblocking a network\<close>

definition put_cidr_entry :: "string \<Rightarrow> IPNet \<Rightarrow> put_fields \<Rightarrow> int64 \<Rightarrow> CIDREntry" where
  "put_cidr_entry cidr network f firstSeen =
     \<lparr>ce_CIDR = cidr, ce_Net = network, ce_Source = pf_Source f, ce_Scenario = pf_Scenario f,
      ce_Action = pf_Action f, ce_ReturnCode = pf_ReturnCode f, ce_FirstSeen = firstSeen,
      ce_LastSeen = pf_LastSeen f, ce_Expiration = pf_Expiration f\<rparr>"

definition handlePutNetwork :: "(nat \<Rightarrow> int64) \<Rightarrow> request \<Rightarrow> server \<Rightarrow> response \<times> server" where
  "handlePutNetwork clk r st =
     (let st = stats_add RequestsPut 1 st;
          st = stats_add RequestsWriteActive 1 st;
          w = set_header ''X-Service'' ''open-blocklist'' new_response;
          w = set_header ''Content-Type'' ''application/json'' w;
          cidrStr = req_PathValue r ''net'' @ ''/'' @ req_PathValue r ''prefix'';
          (w, st) =
            (case ParseCIDR cidrStr of
               None \<Rightarrow> (http_Error (''Invalid network: '' @ cidrStr) 400 w,
                        log_call (LogHttpReq ''PutNetwork'' ''Error'') st)
             | Some network \<Rightarrow>
                 let cidr = IPNet_String network;
                     now = clk 0;
                     firstSeen = (case findByCIDR cidr st of Some e \<Rightarrow> ce_FirstSeen e | None \<Rightarrow> now)
                 in case put_params now (req_Query r) of
                      Inl err \<Rightarrow> (http_Error err 400 w, log_call (LogHttpReq ''PutNetwork'' ''Error'') st)
                    | Inr f \<Rightarrow>
                        let entry = put_cidr_entry cidr network f firstSeen;
                            st = etcdPutCIDR cidr (put_record f firstSeen) st;
                            st = (if \<not> gMultiInstanceMode st then cidrTable_upsert entry st else st)
                        in (Write (json_line (json_map (cidrEntryToMap (clk 1) (clk 2) entry))) w,
                            log_call (LogHttpReq ''PutNetwork'' ''OK'') st))
      in (w, stats_add RequestsWriteActive (- 1) st))"

definition handleDeleteNetwork :: "request \<Rightarrow> server \<Rightarrow> response \<times> server" where
  "handleDeleteNetwork r st =
     (let st = stats_add RequestsDelete 1 st;
          st = stats_add RequestsWriteActive 1 st;
          w = set_header ''X-Service'' ''open-blocklist'' new_response;
          cidrStr = req_PathValue r ''net'' @ ''/'' @ req_PathValue r ''prefix'';
          (w, st) =
            (case ParseCIDR cidrStr of
               None \<Rightarrow> (http_Error (''Invalid network: '' @ cidrStr) 400 w,
                        log_call (LogHttpReq ''DeleteNetwork'' ''Error'') st)
             | Some network \<Rightarrow>
                 let cidr = IPNet_String network;
                     st = etcdDeleteCIDR cidr st;
                     st = (if \<not> gMultiInstanceMode st then cidrTable_remove cidr st else st)
                 in (WriteHeader 204 w, log_call (LogHttpReq ''DeleteNetwork'' ''OK'') st))
      in (w, stats_add RequestsWriteActive (- 1) st))"

section \<open>Listing and health\<close>

definition handleList :: "(nat \<Rightarrow> int64) \<Rightarrow> request \<Rightarrow> server \<Rightarrow> response \<times> server" where
  "handleList clk r st =
     (let st = stats_add RequestsList 1 st;
          w = set_header ''X-Service'' ''open-blocklist'' new_response;
          w = set_header ''Content-Type'' ''application/json'' w
      in if length (ipTable st) = 0 then
           (Write ''[]'' w, log_call (LogHttpReq ''List'' ''OK'') st)
         else
           let result = map (\<lambda>(i, entry). json_map (entryToMap (clk (2 * i)) (clk (2 * i + 1)) entry))
                          (enumerate 0 (ip_entries (ipTable st)))
           in (Write (json_line (JArr result)) w,
               log_call (LogMsg LOG_DEBUG ''[List-Req] %s %s %dms'') st))"

definition handleHealth :: "request \<Rightarrow> server \<Rightarrow> response \<times> server" where
  "handleHealth r st =
     (let st = stats_add RequestsHealth 1 st;
          w = set_header ''X-Service'' ''open-blocklist'' new_response
      in (Write ''OK'' (WriteHeader 200 w), st))"

text \<open>The catch-all of \<open>RegisterCatchAll\<close>.\<close>

definition handleNotFound :: "request \<Rightarrow> server \<Rightarrow> response \<times> server" where
  "handleNotFound r st =
     (http_Error ''not found'' 404 new_response, log_call (LogHttpReq ''Invalid'' ''NotFound'') st)"

lemmas handler_unfold [handler_defs] =
  handleLookup_def handleAuth_def handlePut_def handleDelete_def handlePutNetwork_def
  handleDeleteNetwork_def handleList_def handleHealth_def handleNotFound_def

end
