(* ===== verification/HandlerProps.thy ===== *)
theory HandlerProps
  imports Handlers
begin

text \<open>
  What the HTTP handlers promise. The reference view of a lookup is \<open>blocked_by\<close>: the live
  entry of the address itself or else the first network that contains it, when that network
  is live. The lemmas give the status, the tables and the etcd traffic of every handler on
  every branch; the theorems combine them into the life of an entry (blocked, seen,
  unblocked) and into the error paths.
\<close>

section \<open>The reference view of a lookup\<close>

definition live_cidr :: "int64 \<Rightarrow> IP \<Rightarrow> CIDREntry list \<Rightarrow> CIDREntry option" where
  "live_cidr now ip es =
     (case find (\<lambda>e. Contains (ce_Net e) ip) es of None \<Rightarrow> None
      | Some e \<Rightarrow> if expired now (ce_Expiration e) then None else Some e)"

definition blocked_by ::
  "int64 \<Rightarrow> int64 \<Rightarrow> string \<Rightarrow> server \<Rightarrow> (BlockEntry \<times> string) option" where
  "blocked_by now1 now2 ip st =
     (case live_ip now1 ip (ipTable st) of
        Some e \<Rightarrow> Some (e, [])
      | None \<Rightarrow>
          (case ParseIP ip of None \<Rightarrow> None
           | Some a \<Rightarrow> map_option (\<lambda>c. ((cidrEntryToBlockEntry c)\<lparr>be_IP := ip\<rparr>, ce_CIDR c))
                         (live_cidr now2 a (cidrTable st))))"

lemma fst_cidr_lookup: "fst (cidr_lookup now ip st) = live_cidr now ip (cidrTable st)"
  by (simp add: cidr_lookup_find live_cidr_def split: option.splits)

lemma fst_lookup_entry: "fst (lookup_entry now1 now2 ip st) = blocked_by now1 now2 ip st"
  using fst_ipTableLookup_live [of now1 ip st] fst_cidr_lookup [of now2 _ "snd (ipTableLookup now1 ip st)"]
  by (auto simp: lookup_entry_def blocked_by_def case_prod_unfold split: option.splits)

lemma snd_lookup_entry [simp, state_simps]:
  "ipTable (snd (lookup_entry now1 now2 ip st)) = ipTable st"
  "cidrTable (snd (lookup_entry now1 now2 ip st)) = cidrTable st"
  "stats (snd (lookup_entry now1 now2 ip st)) = stats st"
  "etcd_requests (snd (lookup_entry now1 now2 ip st)) = etcd_requests st"
  "gMultiInstanceMode (snd (lookup_entry now1 now2 ip st)) = gMultiInstanceMode st"
  by (simp_all add: lookup_entry_def case_prod_unfold split: option.splits)

lemma blocked_by_cong:
  "ipTable st = ipTable st' \<Longrightarrow> cidrTable st = cidrTable st' \<Longrightarrow>
   blocked_by now1 now2 ip st = blocked_by now1 now2 ip st'"
  by (simp add: blocked_by_def split: option.splits)

lemma IsValidIP_nonempty: "IsValidIP ip \<Longrightarrow> ip \<noteq> []"
  by (auto simp: IsValidIP_def ParseIP_def ParseAddr_def)

section \<open>Read handlers\<close>

lemma status_handleLookup:
  "status_code (fst (handleLookup clk r st)) =
   (let ip = req_PathValue r ''ip'' in
    if \<not> IsValidIP ip then 400
    else if blocked_by (clk 0) (clk 1) ip st \<noteq> None then 200 else 204)"
  using fst_lookup_entry [of "clk 0" "clk 1" "req_PathValue r ''ip''" "stats_add RequestsLookup 1 st"]
    blocked_by_cong [of "stats_add RequestsLookup 1 st" st]
  by (auto simp: handleLookup_def Let_def status_code_def case_prod_unfold lookup_headers_def
      IsValidIP_nonempty split: option.splits)

lemma tables_handleLookup:
  "ipTable (snd (handleLookup clk r st)) = ipTable st"
  "cidrTable (snd (handleLookup clk r st)) = cidrTable st"
  "etcd_requests (snd (handleLookup clk r st)) = etcd_requests st"
  by (simp_all add: handleLookup_def Let_def case_prod_unfold split: option.splits)

lemma status_handleAuth:
  "status_code (fst (handleAuth clk r st)) =
   (let ip = req_PathValue r ''ip'' in
    if \<not> IsValidIP ip then 400
    else if blocked_by (clk 0) (clk 1) ip st \<noteq> None then 403 else 200)"
  by (auto simp: handleAuth_def Let_def status_code_def case_prod_unfold IsValidIP_nonempty
      fst_ipTableLookup_live fst_cidr_lookup blocked_by_def split: option.splits)

lemma tables_handleAuth:
  "ipTable (snd (handleAuth clk r st)) = ipTable st"
  "cidrTable (snd (handleAuth clk r st)) = cidrTable st"
  "etcd_requests (snd (handleAuth clk r st)) = etcd_requests st"
  by (simp_all add: handleAuth_def Let_def case_prod_unfold split: option.splits)

lemma tables_handleList:
  "ipTable (snd (handleList clk r st)) = ipTable st"
  "cidrTable (snd (handleList clk r st)) = cidrTable st"
  "etcd_requests (snd (handleList clk r st)) = etcd_requests st"
  by (simp_all add: handleList_def Let_def)

section \<open>Write handlers\<close>

text \<open>The outcome of a write, by its branches.\<close>

definition put_first_seen :: "int64 \<Rightarrow> int64 \<Rightarrow> string \<Rightarrow> server \<Rightarrow> int64" where
  "put_first_seen now1 now2 ip st =
     (case live_ip now2 ip (ipTable st) of Some e \<Rightarrow> be_FirstSeen e | None \<Rightarrow> now1)"

lemma handlePut_rejects:
  assumes "ParseIP (req_PathValue r ''ip'') = None \<or> put_params (clk 0) (req_Query r) = Inl err"
  shows "status_code (fst (handlePut clk r st)) = 400"
    and "ipTable (snd (handlePut clk r st)) = ipTable st"
    and "cidrTable (snd (handlePut clk r st)) = cidrTable st"
    and "etcd_requests (snd (handlePut clk r st)) = etcd_requests st"
  using assms
  by (auto simp: handlePut_def Let_def case_prod_unfold status_code_def split: option.splits)

lemma handlePut_accepts:
  fixes st :: server
  assumes "ParseIP (req_PathValue r ''ip'') = Some ip" "put_params (clk 0) (req_Query r) = Inr f"
  defines "ipstr \<equiv> req_PathValue r ''ip''"
  defines "fs \<equiv> put_first_seen (clk 0) (clk 1) ipstr st"
  shows "status_code (fst (handlePut clk r st)) = 200"
    and "res_Body (fst (handlePut clk r st)) = json_line (BlockEntry_json (put_entry ipstr f fs))"
    and "ipTable (snd (handlePut clk r st)) =
      (if gMultiInstanceMode st then ipTable st else ip_put (put_entry ipstr f fs) (ipTable st))"
    and "cidrTable (snd (handlePut clk r st)) = cidrTable st"
    and "etcd_requests (snd (handlePut clk r st)) =
      etcd_requests (etcdPut (reverseKey ip) (PTRRecord_json ptr_record)
        (etcdPut (rblKey ip) (BlockRecord_json (put_record f fs)) st))"
  using assms
  by (simp_all add: handlePut_def Let_def case_prod_unfold status_code_def etcdPut_def
      put_first_seen_def fst_ipTableLookup_live)

lemma handleDelete_rejects:
  assumes "ParseIP (req_PathValue r ''ip'') = None"
  shows "status_code (fst (handleDelete r st)) = 400"
    and "ipTable (snd (handleDelete r st)) = ipTable st"
    and "cidrTable (snd (handleDelete r st)) = cidrTable st"
    and "etcd_requests (snd (handleDelete r st)) = etcd_requests st"
  using assms by (simp_all add: handleDelete_def Let_def status_code_def)

lemma handleDelete_accepts:
  assumes "ParseIP (req_PathValue r ''ip'') = Some ip"
  shows "status_code (fst (handleDelete r st)) = 204"
    and "ipTable (snd (handleDelete r st)) =
      (if gMultiInstanceMode st then ipTable st else ip_del (req_PathValue r ''ip'') (ipTable st))"
    and "cidrTable (snd (handleDelete r st)) = cidrTable st"
    and "etcd_requests (snd (handleDelete r st)) =
      etcd_requests (etcdDelete (reverseKey ip) (etcdDelete (rblKey ip) st))"
  using assms by (simp_all add: handleDelete_def Let_def status_code_def etcdDelete_def)

definition network_text :: "request \<Rightarrow> string" where
  "network_text r = req_PathValue r ''net'' @ ''/'' @ req_PathValue r ''prefix''"

lemma handlePutNetwork_rejects:
  assumes "ParseCIDR (network_text r) = None \<or> put_params (clk 0) (req_Query r) = Inl err"
  shows "status_code (fst (handlePutNetwork clk r st)) = 400"
    and "ipTable (snd (handlePutNetwork clk r st)) = ipTable st"
    and "cidrTable (snd (handlePutNetwork clk r st)) = cidrTable st"
    and "etcd_requests (snd (handlePutNetwork clk r st)) = etcd_requests st"
  using assms
  by (auto simp: handlePutNetwork_def Let_def status_code_def network_text_def split: option.splits)

lemma handlePutNetwork_accepts:
  fixes st :: server
  assumes "ParseCIDR (network_text r) = Some network" "put_params (clk 0) (req_Query r) = Inr f"
  defines "cidr \<equiv> IPNet_String network"
  defines "fs \<equiv> (case cidr_find (cidrTable st) cidr of Some e \<Rightarrow> ce_FirstSeen e | None \<Rightarrow> clk 0)"
  shows "status_code (fst (handlePutNetwork clk r st)) = 200"
    and "ipTable (snd (handlePutNetwork clk r st)) = ipTable st"
    and "cidrTable (snd (handlePutNetwork clk r st)) =
      (if gMultiInstanceMode st then cidrTable st
       else cidr_upsert (put_cidr_entry cidr network f fs) (cidrTable st))"
    and "etcd_requests (snd (handlePutNetwork clk r st)) =
      etcd_requests (etcdPutCIDR cidr (put_record f fs) st)"
  using assms
  by (simp_all add: handlePutNetwork_def Let_def status_code_def network_text_def findByCIDR_def
      etcdPutCIDR_def etcdPut_def)

lemma handleDeleteNetwork_rejects:
  assumes "ParseCIDR (network_text r) = None"
  shows "status_code (fst (handleDeleteNetwork r st)) = 400"
    and "ipTable (snd (handleDeleteNetwork r st)) = ipTable st"
    and "cidrTable (snd (handleDeleteNetwork r st)) = cidrTable st"
    and "etcd_requests (snd (handleDeleteNetwork r st)) = etcd_requests st"
  using assms by (simp_all add: handleDeleteNetwork_def Let_def status_code_def network_text_def)

lemma handleDeleteNetwork_accepts:
  assumes "ParseCIDR (network_text r) = Some network"
  shows "status_code (fst (handleDeleteNetwork r st)) = 204"
    and "ipTable (snd (handleDeleteNetwork r st)) = ipTable st"
    and "cidrTable (snd (handleDeleteNetwork r st)) =
      (if gMultiInstanceMode st then cidrTable st else cidr_remove (IPNet_String network) (cidrTable st))"
    and "etcd_requests (snd (handleDeleteNetwork r st)) =
      etcd_requests (etcdDeleteCIDR (IPNet_String network) st)"
  using assms
  by (simp_all add: handleDeleteNetwork_def Let_def status_code_def network_text_def etcdDeleteCIDR_def
      etcdDelete_def)

text \<open>The handlers keep the invariants of both tables.\<close>

definition tables_ok :: "server \<Rightarrow> bool" where
  "tables_ok st \<longleftrightarrow> ip_invar (ipTable st) \<and> cidr_invar (cidrTable st)"

lemma tables_ok_handlePut:
  assumes "tables_ok st"
  shows "tables_ok (snd (handlePut clk r st))"
proof (cases "ParseIP (req_PathValue r ''ip'')"; cases "put_params (clk 0) (req_Query r)")
  fix ip f
  assume "ParseIP (req_PathValue r ''ip'') = Some ip" "put_params (clk 0) (req_Query r) = Inr f"
  from handlePut_accepts(3,4) [where st = st and clk = clk, OF this] assms show ?thesis
    by (simp add: tables_ok_def ips.invar_put)
qed (use assms handlePut_rejects(2,3) [of r clk _ st] in \<open>auto simp: tables_ok_def\<close>)

lemma tables_ok_handleDelete: "tables_ok st \<Longrightarrow> tables_ok (snd (handleDelete r st))"
  using handleDelete_rejects(2,3) [of r st] handleDelete_accepts(2,3) [of r _ st]
  by (cases "ParseIP (req_PathValue r ''ip'')") (auto simp: tables_ok_def ips.invar_del)

lemma tables_ok_handlePutNetwork:
  assumes "tables_ok st"
  shows "tables_ok (snd (handlePutNetwork clk r st))"
proof (cases "ParseCIDR (network_text r)"; cases "put_params (clk 0) (req_Query r)")
  fix n f
  assume "ParseCIDR (network_text r) = Some n" "put_params (clk 0) (req_Query r) = Inr f"
  from handlePutNetwork_accepts(2,3) [where st = st and clk = clk, OF this] assms show ?thesis
    by (simp add: tables_ok_def cidrs.invar_put)
qed (use assms handlePutNetwork_rejects(2,3) [of r clk _ st] in \<open>auto simp: tables_ok_def\<close>)

lemma tables_ok_handleDeleteNetwork:
  assumes "tables_ok st"
  shows "tables_ok (snd (handleDeleteNetwork r st))"
proof (cases "ParseCIDR (network_text r)")
  case None
  from handleDeleteNetwork_rejects(2,3) [OF None] assms show ?thesis by (simp add: tables_ok_def)
next
  case (Some n)
  from handleDeleteNetwork_accepts(2,3) [OF Some] assms show ?thesis
    by (simp add: tables_ok_def cidrs.invar_del)
qed

lemma tables_ok_read:
  "tables_ok (snd (handleLookup clk r st)) \<longleftrightarrow> tables_ok st"
  "tables_ok (snd (handleAuth clk r st)) \<longleftrightarrow> tables_ok st"
  "tables_ok (snd (handleList clk r st)) \<longleftrightarrow> tables_ok st"
  by (simp_all add: tables_ok_def tables_handleLookup tables_handleAuth tables_handleList)

lemmas tables_ok_handlers =
  tables_ok_handlePut tables_ok_handleDelete tables_ok_handlePutNetwork tables_ok_handleDeleteNetwork

text \<open>Every write either answers 400 and leaves the stores alone, or is accepted.\<close>

definition same_store :: "server \<Rightarrow> server \<Rightarrow> bool" where
  "same_store st st' \<longleftrightarrow>
     ipTable st = ipTable st' \<and> cidrTable st = cidrTable st' \<and> etcd_requests st = etcd_requests st'"

lemma handlePut_outcome:
  "status_code (fst (handlePut clk r st)) = 400 \<and> same_store (snd (handlePut clk r st)) st \<or>
   status_code (fst (handlePut clk r st)) = 200 \<and> IsValidIP (req_PathValue r ''ip'')"
proof (cases "ParseIP (req_PathValue r ''ip'')"; cases "put_params (clk 0) (req_Query r)")
  fix ip f
  assume "ParseIP (req_PathValue r ''ip'') = Some ip" "put_params (clk 0) (req_Query r) = Inr f"
  from handlePut_accepts(1) [where st = st and clk = clk, OF this] this(1) show ?thesis
    by (simp add: IsValidIP_def)
qed (use handlePut_rejects [of r clk _ st] in \<open>auto simp: same_store_def\<close>)

lemma handlePutNetwork_outcome:
  "status_code (fst (handlePutNetwork clk r st)) = 400 \<and> same_store (snd (handlePutNetwork clk r st)) st \<or>
   status_code (fst (handlePutNetwork clk r st)) = 200 \<and> ParseCIDR (network_text r) \<noteq> None"
proof (cases "ParseCIDR (network_text r)"; cases "put_params (clk 0) (req_Query r)")
  fix n f
  assume "ParseCIDR (network_text r) = Some n" "put_params (clk 0) (req_Query r) = Inr f"
  from handlePutNetwork_accepts(1) [where st = st and clk = clk, OF this] this(1) show ?thesis
    by simp
qed (use handlePutNetwork_rejects [of r clk _ st] in \<open>auto simp: same_store_def\<close>)

lemma handleDelete_outcome:
  "status_code (fst (handleDelete r st)) = 400 \<and> same_store (snd (handleDelete r st)) st \<or>
   status_code (fst (handleDelete r st)) = 204 \<and> IsValidIP (req_PathValue r ''ip'')"
  using handleDelete_rejects [of r st] handleDelete_accepts(1) [of r _ st]
  by (cases "ParseIP (req_PathValue r ''ip'')") (auto simp: same_store_def IsValidIP_def)

lemma handleDeleteNetwork_outcome:
  "status_code (fst (handleDeleteNetwork r st)) = 400 \<and> same_store (snd (handleDeleteNetwork r st)) st \<or>
   status_code (fst (handleDeleteNetwork r st)) = 204 \<and> ParseCIDR (network_text r) \<noteq> None"
proof (cases "ParseCIDR (network_text r)")
  case None
  from handleDeleteNetwork_rejects [OF None, of st] show ?thesis by (simp add: same_store_def)
next
  case (Some n)
  from handleDeleteNetwork_accepts(1) [OF Some, of st] Some show ?thesis by simp
qed

section \<open>Properties of the lookup endpoints\<close>

text \<open>C9: \<open>/auth\<close> and \<open>/lookup\<close> never disagree. For every request, clock and server
  state, \<open>handleAuth\<close> forbids (403) exactly when \<open>handleLookup\<close> reports a block (200),
  allows (200) exactly when it reports none (204), and both reject the same malformed
  addresses (400); no other status occurs.\<close>

theorem auth_agrees_with_lookup:
  "(status_code (fst (handleAuth clk r st)) = 403 \<longleftrightarrow> status_code (fst (handleLookup clk r st)) = 200) \<and>
   (status_code (fst (handleAuth clk r st)) = 200 \<longleftrightarrow> status_code (fst (handleLookup clk r st)) = 204) \<and>
   (status_code (fst (handleAuth clk r st)) = 400 \<longleftrightarrow> status_code (fst (handleLookup clk r st)) = 400) \<and>
   status_code (fst (handleLookup clk r st)) \<in> {200, 204, 400}"
  by (simp add: status_handleAuth status_handleLookup Let_def)

section \<open>Properties of the write endpoints\<close>


text \<open>A concrete request for the witnesses: block 192.0.2.1 with a scenario.\<close>

definition sample_put :: request where
  "sample_put = path_request ''PUT'' [(''ip'', ''192.0.2.1'')] [(''scenario'', [''ssh-bf''])]"

lemma sample_put_facts:
  "req_PathValue sample_put ''ip'' = ''192.0.2.1''"
  "ParseIP ''192.0.2.1'' = Some (v4InV6Prefix @ [192, 0, 2, 1])"
  "put_params now (req_Query sample_put) = Inr ((put_defaults now)\<lparr>pf_Scenario := ''ssh-bf''\<rparr>)"
  by (simp add: sample_put_def)
     (simp add: net_eval,
      simp add: sample_put_def put_params_def put_names_def allowedPutParams_def query_get_def
        put_texts_def put_last_seen_def put_duration_def put_expiration_def Let_def)


text \<open>Unblocking an address takes effect. In single-instance mode an accepted
  \<open>DELETE /block/ip\<close> answers 204; afterwards the address is blocked only if a live network
  covers it, and the entry of every other address is what it was.\<close>

theorem delete_then_clean:
  assumes "ip_invar (ipTable st)" "\<not> gMultiInstanceMode st"
    and "ParseIP (req_PathValue r ''ip'') = Some ip" "req_PathValue r' ''ip'' = req_PathValue r ''ip''"
  shows "status_code (fst (handleDelete r st)) = 204 \<and>
    status_code (fst (handleLookup clk r' (snd (handleDelete r st)))) =
      (if live_cidr (clk 1) ip (cidrTable st) = None then 204 else 200) \<and>
    (\<forall>k. ip_get (ipTable (snd (handleDelete r st))) k =
        (if k = req_PathValue r ''ip'' then None else ip_get (ipTable st) k))"
proof -
  note acc = handleDelete_accepts [OF assms(3), of st]
  have get: "ip_get (ipTable (snd (handleDelete r st))) =
      (ip_get (ipTable st))(req_PathValue r ''ip'' := None)"
    using acc(2) assms(1,2) by (simp add: ips.lookup_del)
  have "IsValidIP (req_PathValue r ''ip'')" using assms(3) by (simp add: IsValidIP_def)
  with get acc(1,3) assms(3,4) show ?thesis
    by (simp add: status_handleLookup blocked_by_def live_ip_def)
qed

theorem delete_then_clean_witness:
  "status_code (fst (handleLookup (\<lambda>_. 100) sample_put
     (snd (handleDelete sample_put (snd (handlePut (\<lambda>_. 0) sample_put (initial_server False))))))) = 204"
proof -
  let ?st = "snd (handlePut (\<lambda>_. 0) sample_put (initial_server False))"
  have "ip_invar (ipTable ?st)"
    using tables_ok_handlePut [of "initial_server False"] by (simp add: tables_ok_def)
  moreover have "\<not> gMultiInstanceMode ?st" "cidrTable ?st = []"
    by (simp_all add: handlePut_def Let_def sample_put_facts case_prod_unfold etcdPut_def)
  ultimately show ?thesis
    using delete_then_clean [of ?st sample_put _ sample_put "\<lambda>_. 100"]
    by (simp add: sample_put_facts live_cidr_def)
qed



text \<open>Re-blocking keeps the history. When an accepted \<open>PUT /block/ip\<close> finds a live entry
  for the address, the entry it writes (to the table and to etcd) has the \<open>first_seen\<close> of the
  old entry; otherwise \<open>first_seen\<close> is the time of the request. Exactly two requests go to
  etcd, first the forward record and then the reverse record, under the keys of the address.\<close>

theorem put_keeps_first_seen:
  assumes "ParseIP (req_PathValue r ''ip'') = Some ip" "put_params (clk 0) (req_Query r) = Inr f"
  shows "\<exists>fs. fs = (case live_ip (clk 1) (req_PathValue r ''ip'') (ipTable st) of
                     Some e \<Rightarrow> be_FirstSeen e | None \<Rightarrow> clk 0) \<and>
    res_Body (fst (handlePut clk r st)) = json_line (BlockEntry_json (put_entry (req_PathValue r ''ip'') f fs)) \<and>
    etcd_requests (snd (handlePut clk r st)) = etcd_requests st @
      [EtcdRequest ''/v3/kv/put'' (JObj [(''key'', JStr (b64 (rblKey ip))),
         (''value'', JStr (b64 (json_encode (BlockRecord_json (put_record f fs)))))]),
       EtcdRequest ''/v3/kv/put'' (JObj [(''key'', JStr (b64 (reverseKey ip))),
         (''value'', JStr (b64 (json_encode (PTRRecord_json ptr_record))))])]"
  using handlePut_accepts(2,5) [where clk = clk and st = st, OF assms]
  by (simp add: put_first_seen_def etcdPut_def)

theorem put_keeps_first_seen_witness:
  "length (etcd_requests (snd (handlePut (\<lambda>_. 7) sample_put (initial_server True)))) = 2"
  using put_keeps_first_seen [of sample_put _ "\<lambda>_. 7" _ "initial_server True"]
  by (auto simp: sample_put_facts)

text \<open>In multi-instance mode the handlers never write a table: for every request, the four
  write handlers leave both tables as they are (the entries come back through the etcd
  watchers), while an accepted write still reaches etcd.\<close>

theorem multi_instance_writes_only_etcd:
  assumes "gMultiInstanceMode st"
  shows "ipTable (snd (handlePut clk r st)) = ipTable st \<and> cidrTable (snd (handlePut clk r st)) = cidrTable st \<and>
    ipTable (snd (handleDelete r st)) = ipTable st \<and> cidrTable (snd (handleDelete r st)) = cidrTable st \<and>
    ipTable (snd (handlePutNetwork clk r st)) = ipTable st \<and>
    cidrTable (snd (handlePutNetwork clk r st)) = cidrTable st \<and>
    ipTable (snd (handleDeleteNetwork r st)) = ipTable st \<and>
    cidrTable (snd (handleDeleteNetwork r st)) = cidrTable st \<and>
    (status_code (fst (handlePut clk r st)) = 200 \<longrightarrow>
      length (etcd_requests (snd (handlePut clk r st))) = length (etcd_requests st) + 2)"
proof -
  have put: "ipTable (snd (handlePut clk r st)) = ipTable st" "cidrTable (snd (handlePut clk r st)) = cidrTable st"
    using assms by (simp_all add: handlePut_def Let_def case_prod_unfold etcdPut_def split: option.splits sum.splits)
  have del: "ipTable (snd (handleDelete r st)) = ipTable st" "cidrTable (snd (handleDelete r st)) = cidrTable st"
    using assms by (simp_all add: handleDelete_def Let_def etcdDelete_def split: option.splits)
  have putn: "ipTable (snd (handlePutNetwork clk r st)) = ipTable st"
    "cidrTable (snd (handlePutNetwork clk r st)) = cidrTable st"
    using assms by (simp_all add: handlePutNetwork_def Let_def etcd_defs split: option.splits sum.splits)
  have deln: "ipTable (snd (handleDeleteNetwork r st)) = ipTable st"
    "cidrTable (snd (handleDeleteNetwork r st)) = cidrTable st"
    using assms by (simp_all add: handleDeleteNetwork_def Let_def etcd_defs split: option.splits)
  have "status_code (fst (handlePut clk r st)) = 200 \<longrightarrow>
      length (etcd_requests (snd (handlePut clk r st))) = length (etcd_requests st) + 2"
    by (simp add: handlePut_def Let_def case_prod_unfold etcdPut_def status_code_def
        split: option.splits sum.splits)
  with put del putn deln show ?thesis by simp
qed

theorem multi_instance_writes_only_etcd_witness:
  "ipTable (snd (handlePut (\<lambda>_. 0) sample_put (initial_server True))) = []"
  using multi_instance_writes_only_etcd [of "initial_server True" "\<lambda>_. 0" sample_put] by simp

text \<open>The gauge of active write requests is balanced: every write handler and \<open>/auth\<close>
  leave \<open>RequestsWriteActive\<close> at the value it had before the request.\<close>

theorem write_active_balanced:
  assumes "int64_range (stats st RequestsWriteActive)"
  shows "stats (snd (handlePut clk r st)) RequestsWriteActive = stats st RequestsWriteActive \<and>
    stats (snd (handleDelete r st)) RequestsWriteActive = stats st RequestsWriteActive \<and>
    stats (snd (handlePutNetwork clk r st)) RequestsWriteActive = stats st RequestsWriteActive \<and>
    stats (snd (handleDeleteNetwork r st)) RequestsWriteActive = stats st RequestsWriteActive \<and>
    stats (snd (handleAuth clk r st)) RequestsWriteActive = stats st RequestsWriteActive"
proof -
  note undo = wrap64_undo [OF assms]
  have "stats (snd (handlePut clk r st)) RequestsWriteActive = stats st RequestsWriteActive"
    by (simp add: handlePut_def Let_def case_prod_unfold etcdPut_def undo split: option.splits sum.splits)
  moreover have "stats (snd (handleDelete r st)) RequestsWriteActive = stats st RequestsWriteActive"
    by (simp add: handleDelete_def Let_def etcdDelete_def undo split: option.splits)
  moreover have "stats (snd (handlePutNetwork clk r st)) RequestsWriteActive = stats st RequestsWriteActive"
    by (simp add: handlePutNetwork_def Let_def etcd_defs undo split: option.splits sum.splits)
  moreover have "stats (snd (handleDeleteNetwork r st)) RequestsWriteActive = stats st RequestsWriteActive"
    by (simp add: handleDeleteNetwork_def Let_def etcd_defs undo split: option.splits)
  moreover have "stats (snd (handleAuth clk r st)) RequestsWriteActive = stats st RequestsWriteActive"
    by (simp add: handleAuth_def Let_def case_prod_unfold undo split: option.splits)
  ultimately show ?thesis by simp
qed

theorem write_active_balanced_witness:
  "stats (snd (handlePut (\<lambda>_. 0) sample_put (initial_server False))) RequestsWriteActive = 0"
  using write_active_balanced [of "initial_server False" "\<lambda>_. 0" sample_put] by (simp add: int64_range_def)

section \<open>Blocking a network\<close>

lemma findSomeD: "find p xs = Some x \<Longrightarrow> p x \<and> x \<in> set xs"
  by (auto simp: find_Some_iff)

lemma live_cidr_all_live:
  assumes "\<forall>e \<in> set es. \<not> expired now (ce_Expiration e)"
  shows "live_cidr now ip es = None \<longleftrightarrow> (\<forall>e \<in> set es. \<not> Contains (ce_Net e) ip)"
proof -
  have "expired now (ce_Expiration e) = False" if "find (\<lambda>e. Contains (ce_Net e) ip) es = Some e" for e
    using that assms by (metis findSomeD)
  then show ?thesis
    by (auto simp: live_cidr_def find_None_iff split: option.splits dest: findSomeD)
qed

lemma blocked_by_all_live:
  assumes "\<forall>e \<in> set (cidrTable st). \<not> expired now2 (ce_Expiration e)" "ParseIP ip = Some a"
  shows "blocked_by now1 now2 ip st \<noteq> None \<longleftrightarrow>
    live_ip now1 ip (ipTable st) \<noteq> None \<or> (\<exists>e \<in> set (cidrTable st). Contains (ce_Net e) a)"
  using live_cidr_all_live [OF assms(1), of a] assms(2)
  by (auto simp: blocked_by_def split: option.splits)

text \<open>C12: Blocking a network blocks exactly the addresses of its prefix. In single-instance
  mode, with no expired network in the table, an accepted \<open>PUT /block-network/a/n\<close> (\<open>a\<close> an
  IPv4 or IPv6 address in canonical text, host bits allowed) makes \<open>/auth\<close> forbid every
  address of the same family whose first \<open>n\<close> bits are those of \<open>a\<close>; an address outside the
  prefix that was allowed before is still allowed.\<close>

theorem put_network_blocks_prefix:
  assumes st: "cidr_invar (cidrTable st)" "\<not> gMultiInstanceMode st"
    and a: "family_form a" "n \<le> 8 * length a"
      "req_PathValue r ''net'' = IP_String a" "req_PathValue r ''prefix'' = dec n"
    and f: "put_params (clk 0) (req_Query r) = Inr f" "\<not> expired (clk' 1) (pf_Expiration f)"
    and live: "\<forall>e \<in> set (cidrTable st). \<not> expired (clk' 1) (ce_Expiration e)"
    and q: "family_form q" "req_PathValue r' ''ip'' = IP_String q"
  shows "(length q = length a \<and> take n (ip_bits q) = take n (ip_bits a) \<longrightarrow>
      status_code (fst (handleAuth clk' r' (snd (handlePutNetwork clk r st)))) = 403) \<and>
    (\<not> (length q = length a \<and> take n (ip_bits q) = take n (ip_bits a)) \<and>
        status_code (fst (handleAuth clk' r' st)) = 200 \<longrightarrow>
      status_code (fst (handleAuth clk' r' (snd (handlePutNetwork clk r st)))) = 200)"
proof -
  obtain net where net: "ParseCIDR (network_text r) = Some net"
      "net_normal net (mask_bytes a (CIDRMask_loop n (length a))) n"
    using ParseCIDR_family [OF a(1,2)] a(3,4) by (auto simp: network_text_def)
  let ?fs = "case cidr_find (cidrTable st) (IPNet_String net) of Some e \<Rightarrow> ce_FirstSeen e | None \<Rightarrow> clk 0"
  let ?e = "put_cidr_entry (IPNet_String net) net f ?fs" and ?st = "snd (handlePutNetwork clk r st)"
  note acc = handlePutNetwork_accepts(2,3) [where clk = clk and st = st, OF net(1) f(1)]
  have tab: "set (cidrTable ?st) \<subseteq> insert ?e (set (cidrTable st))" "?e \<in> set (cidrTable ?st)"
    using acc(2) st by (auto simp: set_cidr_upsert)
  have live': "\<forall>e \<in> set (cidrTable ?st). \<not> expired (clk' 1) (ce_Expiration e)"
    using tab(1) live f(2) by (auto simp: put_cidr_entry_def)
  have pq: "ParseIP (req_PathValue r' ''ip'') = Some (As16 q)" "IsValidIP (req_PathValue r' ''ip'')"
    using ParseIP_family [OF q(1)] q(2) by (simp_all add: IsValidIP_def)
  note verdict = blocked_by_all_live [OF live' pq(1), of "clk' 0"] blocked_by_all_live [OF live pq(1), of "clk' 0"]
  have auth: "status_code (fst (handleAuth clk' r' s)) =
      (if blocked_by (clk' 0) (clk' 1) (req_PathValue r' ''ip'') s \<noteq> None then 403 else 200)" for s
    using pq(2) by (simp add: status_handleAuth Let_def)
  have "Contains (ce_Net ?e) (As16 q) \<longleftrightarrow> length q = length a \<and> take n (ip_bits q) = take n (ip_bits a)"
    using Contains_family [OF a(1) q(1) a(2) net(2)] by (simp add: put_cidr_entry_def)
  with tab acc(1) show ?thesis
    unfolding auth verdict by auto
qed

theorem put_network_blocks_prefix_witness:
  "status_code (fst (handleAuth (\<lambda>_. 50) (path_request ''GET'' [(''ip'', IP_String [10, 1, 2, 3])] [])
     (snd (handlePutNetwork (\<lambda>_. 0) (path_request ''PUT'' [(''net'', IP_String [10, 0, 0, 0]), (''prefix'', dec 8)] [])
        (initial_server False))))) = 403"
proof -
  let ?r = "path_request ''PUT'' [(''net'', IP_String [10, 0, 0, 0]), (''prefix'', dec 8)] []"
  let ?q = "path_request ''GET'' [(''ip'', IP_String [10, 1, 2, 3])] []"
  have f: "put_params 0 (req_Query ?r) = Inr (put_defaults 0)"
    by (simp add: put_params_def put_names_def query_get_def put_texts_def put_last_seen_def put_duration_def
        put_expiration_def Let_def)
  show ?thesis
    using put_network_blocks_prefix [of "initial_server False" "[10, 0, 0, 0]" 8 ?r "\<lambda>_. 0" _ "\<lambda>_. 50" "[10, 1, 2, 3]" ?q,
        OF _ _ _ _ _ _ f]
    by (simp add: family_form_def put_defaults_def expired_def)
qed

end
