(* ===== verification/Router.thy ===== *)
theory Router
  imports HandlerProps
begin

text \<open>
  The two HTTP listeners of \<open>src/src/main.go\<close>. A request arrives as a method, the segments of
  its clean path (unescaped, none of them empty) and its query; \<open>http.ServeMux\<close> picks the most
  specific registered pattern, a pattern \<open>GET\<close> also serves \<open>HEAD\<close>, and the catch-all \<open>/\<close>
  takes what is left. The lookup listener registers the read handlers only, the API listener
  the read and the write handlers.
\<close>

section \<open>Definitions\<close>

record http_request =
  hr_Method :: string
  hr_Path :: "string list"
  hr_Query :: "(string \<times> string list) list"

datatype endpoint =
    EList | ELookup string | EAuth string | EHealth
  | EPut string | EDelete string | EPutNetwork string string | EDeleteNetwork string string

text \<open>\<open>RegisterReadHandler\<close> and \<open>RegisterWriteHandler\<close>, as the patterns they register.\<close>

definition RegisterReadHandler :: "string \<Rightarrow> string list \<Rightarrow> endpoint option" where
  "RegisterReadHandler method path =
     (if method \<noteq> ''GET'' \<and> method \<noteq> ''HEAD'' then None
      else if path = [''lookup''] then Some EList
      else if path = [''health''] then Some EHealth
      else case path of
        [a, ip] \<Rightarrow> if a = ''lookup'' then Some (ELookup ip) else if a = ''auth'' then Some (EAuth ip) else None
      | _ \<Rightarrow> None)"

definition RegisterWriteHandler :: "string \<Rightarrow> string list \<Rightarrow> endpoint option" where
  "RegisterWriteHandler method path =
     (case path of
        [a, ip] \<Rightarrow>
          if a \<noteq> ''block'' then None
          else if method = ''PUT'' then Some (EPut ip)
          else if method = ''DELETE'' then Some (EDelete ip) else None
      | [a, n, p] \<Rightarrow>
          if a \<noteq> ''block-network'' then None
          else if method = ''PUT'' then Some (EPutNetwork n p)
          else if method = ''DELETE'' then Some (EDeleteNetwork n p) else None
      | _ \<Rightarrow> None)"

definition run_endpoint ::
  "(nat \<Rightarrow> int64) \<Rightarrow> http_request \<Rightarrow> endpoint option \<Rightarrow> server \<Rightarrow> response \<times> server" where
  "run_endpoint clk hr e st =
     (let req = (\<lambda>vars. path_request (hr_Method hr) vars (hr_Query hr)) in
      case e of
        None \<Rightarrow> handleNotFound (req []) st
      | Some EList \<Rightarrow> handleList clk (req []) st
      | Some (ELookup ip) \<Rightarrow> handleLookup clk (req [(''ip'', ip)]) st
      | Some (EAuth ip) \<Rightarrow> handleAuth clk (req [(''ip'', ip)]) st
      | Some EHealth \<Rightarrow> handleHealth (req []) st
      | Some (EPut ip) \<Rightarrow> handlePut clk (req [(''ip'', ip)]) st
      | Some (EDelete ip) \<Rightarrow> handleDelete (req [(''ip'', ip)]) st
      | Some (EPutNetwork n p) \<Rightarrow> handlePutNetwork clk (req [(''net'', n), (''prefix'', p)]) st
      | Some (EDeleteNetwork n p) \<Rightarrow> handleDeleteNetwork (req [(''net'', n), (''prefix'', p)]) st)"

definition lookupListener :: "(nat \<Rightarrow> int64) \<Rightarrow> http_request \<Rightarrow> server \<Rightarrow> response \<times> server" where
  "lookupListener clk hr st =
     run_endpoint clk hr (RegisterReadHandler (hr_Method hr) (hr_Path hr)) st"

definition apiListener :: "(nat \<Rightarrow> int64) \<Rightarrow> http_request \<Rightarrow> server \<Rightarrow> response \<times> server" where
  "apiListener clk hr st =
     run_endpoint clk hr
       (case RegisterReadHandler (hr_Method hr) (hr_Path hr) of
          Some e \<Rightarrow> Some e
        | None \<Rightarrow> RegisterWriteHandler (hr_Method hr) (hr_Path hr)) st"

section \<open>Routing\<close>

definition read_endpoint :: "endpoint option \<Rightarrow> bool" where
  "read_endpoint e \<longleftrightarrow> (case e of Some (EPut _) \<Rightarrow> False | Some (EDelete _) \<Rightarrow> False
     | Some (EPutNetwork _ _) \<Rightarrow> False | Some (EDeleteNetwork _ _) \<Rightarrow> False | _ \<Rightarrow> True)"

lemma RegisterReadHandler_read: "read_endpoint (RegisterReadHandler m p)"
  by (simp add: RegisterReadHandler_def read_endpoint_def split: list.splits)

lemma read_endpoint_same_store:
  "read_endpoint e \<Longrightarrow> same_store (snd (run_endpoint clk hr e st)) st"
  by (auto simp: run_endpoint_def read_endpoint_def same_store_def Let_def tables_handleLookup tables_handleAuth
      tables_handleList handleHealth_def handleNotFound_def split: option.splits endpoint.splits)

lemma tables_ok_run_endpoint:
  assumes "tables_ok st"
  shows "tables_ok (snd (run_endpoint clk hr e st))"
  using assms
  by (auto simp: run_endpoint_def Let_def tables_ok_handlers tables_ok_read handleHealth_def handleNotFound_def
      tables_ok_def [of "stats_add _ _ _"] tables_ok_def [of "log_call _ _"] tables_ok_def [of st]
      split: option.splits endpoint.splits)

lemma no_read_write_clash:
  "RegisterReadHandler m p = Some e \<Longrightarrow> RegisterWriteHandler m p = None"
  by (auto simp: RegisterReadHandler_def RegisterWriteHandler_def split: list.splits if_splits)

section \<open>Properties\<close>



text \<open>No sequence of HTTP requests breaks the tables. Starting from well-formed tables,
  any sequence of requests to either listener, with any clock, leaves the address table with
  one entry per key, each under its own key, and the network table with one entry per network.\<close>

theorem requests_keep_tables_ok:
  assumes "tables_ok st"
  shows "tables_ok (fold (\<lambda>(api, clk, hr) s. snd ((if api then apiListener else lookupListener) clk hr s)) reqs st)"
  using assms
  by (induction reqs arbitrary: st) (auto simp: apiListener_def lookupListener_def tables_ok_run_endpoint)

theorem requests_keep_tables_ok_witness:
  "tables_ok (fold (\<lambda>(api, clk, hr) s. snd ((if api then apiListener else lookupListener) clk hr s))
     [(True, \<lambda>_. 0, \<lparr>hr_Method = ''PUT'', hr_Path = [''block'', ''192.0.2.1''], hr_Query = []\<rparr>)] (initial_server False))"
  by (rule requests_keep_tables_ok) (simp add: tables_ok_def)

end
