(* ===== verification/Metrics.thy ===== *)
theory Metrics
  imports Router Log
begin

text \<open>
  The metrics page and the probes of \<open>src/src/metrics.go\<close>: the text exposition of every
  counter, of the table size and of the runtime samples, the three probe handlers and the
  routes of the metrics listener. The samples of \<open>runtime/metrics\<close> are a parameter (the text
  of a floating-point sample is the one \<open>strconv.FormatFloat\<close> prints), as are the versions of
  the compiler and the platform.
\<close>

section \<open>Writing metrics\<close>

abbreviation LF :: char where
  "LF \<equiv> CHR 0x0A"

definition label_text :: "(string \<times> string) list \<Rightarrow> string" where
  "label_text labels =
     (if labels \<noteq> [] then ''{'' @ join_with '','' (map (\<lambda>(k, v). k @ ''='' @ dq @ v @ dq) labels) @ ''}'' else [])"

definition writeMetricString :: "string \<Rightarrow> string \<Rightarrow> string \<Rightarrow> string \<Rightarrow> string \<Rightarrow> (string \<times> string) list \<Rightarrow> string" where
  "writeMetricString w name help metricType value labels =
     (let w = w @ ''# HELP '' @ name @ '' '' @ help @ [LF];
          w = w @ ''# TYPE '' @ name @ '' '' @ metricType @ [LF];
          w = w @ name;
          w = w @ label_text labels
      in w @ '' '' @ value @ [LF])"

definition writeMetric :: "string \<Rightarrow> string \<Rightarrow> string \<Rightarrow> string \<Rightarrow> int64 \<Rightarrow> (string \<times> string) list \<Rightarrow> string" where
  "writeMetric w name help metricType value labels =
     writeMetricString w name help metricType (dec_int value) labels"

definition writeMetricFloat :: "string \<Rightarrow> string \<Rightarrow> string \<Rightarrow> string \<Rightarrow> string \<Rightarrow> (string \<times> string) list \<Rightarrow> string" where
  "writeMetricFloat w name help metricType value labels =
     writeMetricString w name help metricType value labels"

definition sanitizeMetricName :: "string \<Rightarrow> string" where
  "sanitizeMetricName n =
     replace_byte CHR ''-'' CHR ''_'' (replace_byte CHR '':'' CHR ''_'' (replace_byte CHR ''/'' CHR ''_'' n))"

section \<open>The runtime samples\<close>

definition runtimeMetricNames :: "string list" where
  "runtimeMetricNames =
     [''/memory/classes/heap/objects:bytes'', ''/memory/classes/heap/free:bytes'', ''/memory/classes/heap/released:bytes'',
      ''/memory/classes/total:bytes'', ''/gc/cycles/total:gc-cycles'', ''/gc/heap/allocs:bytes'', ''/gc/heap/frees:bytes'',
      ''/sched/goroutines:goroutines'', ''/cpu/classes/user:cpu-seconds'', ''/cpu/classes/system:cpu-seconds'',
      ''/cpu/classes/gc:cpu-seconds'']"

text \<open>A sample value: an unsigned 64-bit number, a float (its text), or a kind the page skips.\<close>

datatype sample_value = KindBad | KindUint64 nat | KindFloat64 string | KindFloat64Histogram

text \<open>The slice of samples is made on the first call; \<open>metrics.Read\<close> fills in the values.\<close>

definition initRuntimeMetrics :: "(string \<times> sample_value) list" where
  "initRuntimeMetrics = map (\<lambda>n. (n, KindBad)) runtimeMetricNames"

definition metrics_Read :: "(string \<Rightarrow> sample_value) \<Rightarrow> (string \<times> sample_value) list \<Rightarrow> (string \<times> sample_value) list" where
  "metrics_Read read samples = map (\<lambda>(n, _). (n, read n)) samples"

definition write_sample :: "string \<times> sample_value \<Rightarrow> string \<Rightarrow> string" where
  "write_sample s bw =
     (let name = sanitizeMetricName (fst s) in
      case snd s of
        KindUint64 v \<Rightarrow> writeMetric bw (''go_'' @ name) (''Go runtime metric '' @ fst s) ''gauge'' (wrap64 (int v)) []
      | KindFloat64 v \<Rightarrow> writeMetricFloat bw (''go_'' @ name) (''Go runtime metric '' @ fst s) ''gauge'' v []
      | _ \<Rightarrow> bw)"

definition writeRuntimeMetrics :: "(string \<Rightarrow> sample_value) \<Rightarrow> string \<Rightarrow> string" where
  "writeRuntimeMetrics read bw = fold write_sample (metrics_Read read initRuntimeMetrics) bw"

section \<open>The page\<close>

definition gVersionStr :: string where
  "gVersionStr = dec 0 @ ''.'' @ dec 8 @ ''.'' @ dec 0"

definition VersionBuild :: int64 where
  "VersionBuild = 0 * 10000 + 8 * 100 + 0"

definition gEndpointMetrics :: string where "gEndpointMetrics = ''/metrics''"
definition gEndpointHealth :: string where "gEndpointHealth = ''/healthz''"
definition gEndpointLive :: string where "gEndpointLive = ''/livez''"
definition gEndpointReady :: string where "gEndpointReady = ''/readyz''"

text \<open>What the process knows about its build.\<close>

record build_info =
  gBuildPlatform :: string
  gGoVersion :: string
  gGoVersionBuild :: int64

text \<open>The metrics of the service in the order of the page: name, help, type and value; the
  figures of the process and the HTTP requests, the DNS requests, and the metrics listener.\<close>

definition request_metrics :: "build_info \<Rightarrow> server \<Rightarrow> (string \<times> string \<times> string \<times> int64) list" where
  "request_metrics bi st =
     [(''open-blocklist_build'', ''Build number (version '' @ gVersionStr @ '', platform '' @ gBuildPlatform bi @ '')'', ''gauge'', VersionBuild),
      (''open-blocklist_go_build'', ''Go runtime build number ('' @ gGoVersion bi @ '')'', ''gauge'', gGoVersionBuild bi),
      (''open-blocklist_multi_instance_mode'', ''Multi-instance mode enabled via etcd watch (1=enabled 0=disabled)'', ''gauge'',
        if gMultiInstanceMode st then 1 else 0),
      (''open_blocklist_ip_entries'', ''Number of IP table entries'', ''gauge'', int (ipTableLen st)),
      (''open-blocklist_requests_lookup_total'', ''Total lookup requests'', ''counter'', stats st RequestsLookup),
      (''open-blocklist_requests_auth_total'', ''Total authentication requests'', ''counter'', stats st RequestsAuth),
      (''open-blocklist_requests_put_total'', ''Total PUT requests'', ''counter'', stats st RequestsPut),
      (''open-blocklist_requests_delete_total'', ''Total DELETE requests'', ''counter'', stats st RequestsDelete),
      (''open-blocklist_requests_list_total'', ''Total list requests'', ''counter'', stats st RequestsList),
      (''open-blocklist_requests_health_total'', ''Total health check requests'', ''counter'', stats st RequestsHealth),
      (''open-blocklist_requests_write_active'', ''Current active write requests'', ''gauge'', stats st RequestsWriteActive),
      (''open-blocklist_config_errors_total'', ''Total configuration errors detected during startup or reload'', ''counter'',
        stats st ConfigErrors),
      (''open-blocklist_log_dropped_total'',
        ''Total log messages written synchronously due to full or uninitialized log channel'', ''counter'', stats st LogDropped)]"

definition dns_metrics :: "server \<Rightarrow> (string \<times> string \<times> string \<times> int64) list" where
  "dns_metrics st =
     [(''open-blocklist_dns_invalid_query_total'', ''Total invalid DNS queries'', ''counter'', stats st ReqDnsInvalidQuery),
      (''open-blocklist_dns_wrong_zone_total'', ''Total DNS queries outside RBL zone'', ''counter'', stats st ReqDnsWrongZone),
      (''open-blocklist_dns_blocked_total'', ''Total DNS queries resulting in a block'', ''counter'', stats st ReqDnsBlocked),
      (''open-blocklist_dns_not_listed_total'', ''Total DNS queries not listed (NXDOMAIN)'', ''counter'', stats st ReqDnsNotListed),
      (''open-blocklist_dns_other_query_type_total'', ''Total DNS queries with unsupported query types'', ''counter'',
        stats st ReqDnsOtherQueryType)]"

definition probe_metrics :: "server \<Rightarrow> (string \<times> string \<times> string \<times> int64) list" where
  "probe_metrics st =
     [(''open-blocklist_metrics_requests_total'', ''Total requests to endpoint '' @ gEndpointMetrics, ''counter'', stats st MetricsRequests),
      (''open-blocklist_invalid_endpoint_requests_total'', ''Total requests to unknown endpoints'', ''counter'',
        stats st InvalidEndpointRequests),
      (''open-blocklist_health_probe_success_total'', ''Total successful '' @ gEndpointHealth @ '' probe requests'', ''counter'',
        stats st HealthSuccess),
      (''open-blocklist_health_probe_failure_total'', ''Total failed '' @ gEndpointHealth @ '' probe requests'', ''counter'',
        stats st HealthFailure),
      (''open-blocklist_liveness_probe_success_total'', ''Total successful '' @ gEndpointLive @ '' probe requests'', ''counter'',
        stats st LivenessSuccess),
      (''open-blocklist_liveness_probe_failure_total'', ''Total failed '' @ gEndpointLive @ '' probe requests'', ''counter'',
        stats st LivenessFailure),
      (''open-blocklist_readiness_probe_success_total'', ''Total successful '' @ gEndpointReady @ '' probe requests'', ''counter'',
        stats st ReadinessSuccess),
      (''open-blocklist_readiness_probe_failure_total'', ''Total failed '' @ gEndpointReady @ '' probe requests'', ''counter'',
        stats st ReadinessFailure)]"

definition service_metrics :: "build_info \<Rightarrow> server \<Rightarrow> (string \<times> string \<times> string \<times> int64) list" where
  "service_metrics bi st = request_metrics bi st @ dns_metrics st @ probe_metrics st"

lemmas metric_lists = service_metrics_def request_metrics_def dns_metrics_def probe_metrics_def

definition metricsHandler ::
  "build_info \<Rightarrow> (string \<Rightarrow> sample_value) \<Rightarrow> request \<Rightarrow> server \<Rightarrow> response \<times> server" where
  "metricsHandler bi read r st =
     (let st = stats_add MetricsRequests 1 st;
          w = set_header ''Content-Type'' ''text/plain; version=0.0.4'' new_response;
          bw = fold (\<lambda>(name, help, metricType, value) bw. writeMetric bw name help metricType value []) (service_metrics bi st) [];
          bw = writeRuntimeMetrics read bw
      in (Write bw w, st))"

section \<open>Probes\<close>

definition healthCheck :: bool where "healthCheck \<longleftrightarrow> True"
definition readyCheck :: bool where "readyCheck \<longleftrightarrow> True"
definition aliveCheck :: bool where "aliveCheck \<longleftrightarrow> True"

definition healthHandler :: "LogLevel \<Rightarrow> request \<Rightarrow> server \<Rightarrow> response \<times> server" where
  "healthHandler gLogLevel r st =
     (let st = (if gLogLevel \<ge> LOG_DEBUG then log_call (LogMsg LOG_DEBUG ''Health Request [%s] : %v'') st else st) in
      if healthCheck then (Write ''ready'' (WriteHeader 200 new_response), stats_add HealthSuccess 1 st)
      else (http_Error ''not healthy'' 503 new_response, stats_add HealthFailure 1 st))"

definition readyHandler :: "LogLevel \<Rightarrow> request \<Rightarrow> server \<Rightarrow> response \<times> server" where
  "readyHandler gLogLevel r st =
     (let st = (if gLogLevel \<ge> LOG_DEBUG then log_call (LogMsg LOG_DEBUG ''Ready Request [%s] : %v'') st else st) in
      if readyCheck then (Write ''ready'' (WriteHeader 200 new_response), stats_add ReadinessSuccess 1 st)
      else (http_Error ''not ready'' 503 new_response, stats_add ReadinessFailure 1 st))"

definition liveHandler :: "LogLevel \<Rightarrow> request \<Rightarrow> server \<Rightarrow> response \<times> server" where
  "liveHandler gLogLevel r st =
     (let st = (if gLogLevel \<ge> LOG_DEBUG then log_call (LogMsg LOG_DEBUG ''Live Request [%s] : %v'') st else st) in
      if aliveCheck then (Write ''alive'' (WriteHeader 200 new_response), stats_add LivenessSuccess 1 st)
      else (http_Error ''not alive'' 503 new_response, stats_add LivenessFailure 1 st))"

definition notFoundHandler :: "request \<Rightarrow> server \<Rightarrow> response \<times> server" where
  "notFoundHandler r st = (http_Error ''404 page not found'' 404 new_response, stats_add InvalidEndpointRequests 1 st)"

text \<open>The routes of the metrics listener serve every method.\<close>

definition metricsListener ::
  "build_info \<Rightarrow> (string \<Rightarrow> sample_value) \<Rightarrow> LogLevel \<Rightarrow> http_request \<Rightarrow> server \<Rightarrow> response \<times> server" where
  "metricsListener bi read gLogLevel hr st =
     (let req = path_request (hr_Method hr) [] (hr_Query hr) in
      if hr_Path hr = [''metrics''] then metricsHandler bi read req st
      else if hr_Path hr = [''healthz''] then healthHandler gLogLevel req st
      else if hr_Path hr = [''livez''] then liveHandler gLogLevel req st
      else if hr_Path hr = [''readyz''] then readyHandler gLogLevel req st
      else notFoundHandler req st)"

section \<open>Reading the page\<close>

text \<open>A scraper's view of the exposition: the sample lines as name and value.\<close>

definition scrape :: "string \<Rightarrow> (string \<times> string) list" where
  "scrape body =
     map (\<lambda>l. (takeWhile (\<lambda>c. c \<noteq> CHR '' '') l, tl (dropWhile (\<lambda>c. c \<noteq> CHR '' '') l)))
       (filter (\<lambda>l. l \<noteq> [] \<and> hd l \<noteq> CHR ''#'') (split_on LF body))"

definition row_ok :: "string \<times> string \<times> string \<times> string \<Rightarrow> bool" where
  "row_ok row \<longleftrightarrow> (case row of (name, help, metricType, value) \<Rightarrow>
     name \<noteq> [] \<and> hd name \<noteq> CHR ''#'' \<and> CHR '' '' \<notin> set name \<and> LF \<notin> set name \<and> LF \<notin> set help \<and>
     LF \<notin> set metricType \<and> LF \<notin> set value)"

definition row_text :: "string \<times> string \<times> string \<times> string \<Rightarrow> string" where
  "row_text row = (case row of (name, help, metricType, value) \<Rightarrow> writeMetricString [] name help metricType value [])"

lemma scrape_row:
  assumes "row_ok (name, help, metricType, value)"
  shows "scrape (row_text (name, help, metricType, value) @ r) = (name, value) # scrape r"
proof -
  let ?l1 = "''# HELP '' @ name @ '' '' @ help" and ?l2 = "''# TYPE '' @ name @ '' '' @ metricType" and ?l3 = "name @ '' '' @ value"
  note ok = assms [unfolded row_ok_def, simplified]
  have "row_text (name, help, metricType, value) @ r = ?l1 @ LF # (?l2 @ LF # (?l3 @ LF # r))"
    by (simp add: row_text_def writeMetricString_def label_text_def Let_def)
  moreover have "LF \<notin> set ?l1" "LF \<notin> set ?l2" "LF \<notin> set ?l3" using ok by auto
  note split_on_append [OF this(1)] split_on_append [OF this(2)] split_on_append [OF this(3)]
  ultimately have "split_on LF (row_text (name, help, metricType, value) @ r) = ?l1 # ?l2 # ?l3 # split_on LF r"
    by metis
  moreover have "takeWhile (\<lambda>c. c \<noteq> CHR '' '') ?l3 = name" "dropWhile (\<lambda>c. c \<noteq> CHR '' '') ?l3 = CHR '' '' # value"
    using ok by (simp_all add: takeWhile_notin dropWhile_notin)
  ultimately show ?thesis using ok by (simp add: scrape_def)
qed

lemma scrape_rows:
  "\<forall>row \<in> set rows. row_ok row \<Longrightarrow>
   scrape (concat (map row_text rows)) = map (\<lambda>(name, help, metricType, value). (name, value)) rows"
proof (induction rows)
  case Nil
  then show ?case by (simp add: scrape_def)
next
  case (Cons row rows)
  obtain n h t v where "row = (n, h, t, v)" by (cases row)
  with Cons scrape_row [of n h t v] show ?case by simp
qed

text \<open>The page as a list of rows.\<close>

definition service_row :: "string \<times> string \<times> string \<times> int64 \<Rightarrow> string \<times> string \<times> string \<times> string" where
  "service_row m = (case m of (name, help, metricType, value) \<Rightarrow> (name, help, metricType, dec_int value))"

definition sample_rows :: "string \<times> sample_value \<Rightarrow> (string \<times> string \<times> string \<times> string) list" where
  "sample_rows s =
     (let name = ''go_'' @ sanitizeMetricName (fst s); help = ''Go runtime metric '' @ fst s in
      case snd s of
        KindUint64 v \<Rightarrow> [(name, help, ''gauge'', dec_int (wrap64 (int v)))]
      | KindFloat64 v \<Rightarrow> [(name, help, ''gauge'', v)]
      | _ \<Rightarrow> [])"

lemma fold_service_metrics:
  "fold (\<lambda>(name, help, metricType, value) bw. writeMetric bw name help metricType value []) ms bw =
   bw @ concat (map row_text (map service_row ms))"
proof (induction ms arbitrary: bw)
  case (Cons m ms)
  then show ?case by (cases m) (simp add: service_row_def row_text_def writeMetric_def writeMetricString_def Let_def)
qed simp

lemma fold_write_sample: "fold write_sample ss bw = bw @ concat (map row_text (concat (map sample_rows ss)))"
proof (induction ss arbitrary: bw)
  case (Cons s ss)
  have "write_sample s bw = bw @ concat (map row_text (sample_rows s))"
    by (simp add: write_sample_def sample_rows_def row_text_def writeMetric_def writeMetricFloat_def writeMetricString_def Let_def
        split: sample_value.splits)
  with Cons show ?case by simp
qed simp

lemma metricsHandler_body:
  "res_Body (fst (metricsHandler bi read r st)) =
   concat (map row_text (map service_row (service_metrics bi (stats_add MetricsRequests 1 st)) @
     concat (map sample_rows (metrics_Read read initRuntimeMetrics))))"
  by (simp add: metricsHandler_def Let_def fold_service_metrics writeRuntimeMetrics_def fold_write_sample
      Write_def WriteHeader_def new_response_def set_header_def)

lemma LF_notin_dec_int [simp]: "LF \<notin> set (dec_int i)"
  by (auto simp: dec_int_def is_digit_def dest!: dec_digits)

lemma service_rows_ok:
  assumes "LF \<notin> set (gBuildPlatform bi)" "LF \<notin> set (gGoVersion bi)"
  shows "\<forall>row \<in> set (map service_row (service_metrics bi st)). row_ok row"
  using assms not_digit_notin_dec [of LF]
  by (simp add: metric_lists service_row_def row_ok_def gVersionStr_def gEndpointMetrics_def gEndpointHealth_def
      gEndpointLive_def gEndpointReady_def is_digit_def)

definition samples_ok :: "(string \<Rightarrow> sample_value) \<Rightarrow> bool" where
  "samples_ok read \<longleftrightarrow> (\<forall>n v. read n = KindFloat64 v \<longrightarrow> LF \<notin> set v)"

lemma sanitize_clean:
  "CHR ''/'' \<notin> set (sanitizeMetricName n)" "CHR '':'' \<notin> set (sanitizeMetricName n)" "CHR ''-'' \<notin> set (sanitizeMetricName n)"
  by (auto simp: sanitizeMetricName_def replace_byte_def)

lemma sanitize_no_new: "c \<noteq> CHR ''_'' \<Longrightarrow> c \<notin> set n \<Longrightarrow> c \<notin> set (sanitizeMetricName n)"
  by (auto simp: sanitizeMetricName_def replace_byte_def split: if_splits)

lemma runtimeMetricNames_text: "\<forall>n \<in> set runtimeMetricNames. LF \<notin> set n \<and> CHR '' '' \<notin> set n"
  by (simp add: runtimeMetricNames_def)

lemma sample_rows_ok:
  assumes "samples_ok read"
  shows "\<forall>row \<in> set (concat (map sample_rows (metrics_Read read initRuntimeMetrics))). row_ok row"
proof -
  have "\<forall>row \<in> set (sample_rows (n, read n)). row_ok row" if "n \<in> set runtimeMetricNames" for n
    using assms runtimeMetricNames_text that sanitize_no_new [of LF n] sanitize_no_new [of "CHR '' ''" n]
    by (auto simp: samples_ok_def sample_rows_def row_ok_def Let_def split: sample_value.splits)
  then show ?thesis by (auto simp: metrics_Read_def initRuntimeMetrics_def)
qed

definition numeric_sample :: "sample_value \<Rightarrow> bool" where
  "numeric_sample v \<longleftrightarrow> (case v of KindUint64 _ \<Rightarrow> True | KindFloat64 _ \<Rightarrow> True | _ \<Rightarrow> False)"

definition sample_name :: "string \<Rightarrow> string" where
  "sample_name n = ''go_'' @ sanitizeMetricName n"

lemma sample_row_names:
  "map fst (concat (map sample_rows (metrics_Read read initRuntimeMetrics))) =
   map sample_name (filter (\<lambda>n. numeric_sample (read n)) runtimeMetricNames)"
proof -
  have "map fst (concat (map sample_rows (map (\<lambda>(n, _). (n, read n)) (map (\<lambda>n. (n, KindBad)) ns)))) =
      map sample_name (filter (\<lambda>n. numeric_sample (read n)) ns)" for ns
    by (induction ns) (auto simp: sample_rows_def numeric_sample_def sample_name_def Let_def split: sample_value.splits)
  then show ?thesis by (simp only: metrics_Read_def initRuntimeMetrics_def)
qed

lemma distinct_sample_names: "distinct (map sample_name runtimeMetricNames)"
  by (simp add: runtimeMetricNames_def sample_name_def sanitizeMetricName_def replace_byte_def)

lemma service_names: "map fst (service_metrics bi st) = map fst (service_metrics bi' st')"
  by (simp add: metric_lists)

lemma distinct_service_names: "distinct (map fst (service_metrics bi st))"
  by (simp add: metric_lists)

lemma service_names_prefix: "\<forall>n \<in> set (map fst (service_metrics bi st)). hd n = CHR ''o''"
  by (simp add: metric_lists)

text \<open>The name under which a counter is published.\<close>

definition counter_metric :: "counter \<Rightarrow> string" where
  "counter_metric c =
     (case c of
        RequestsLookup \<Rightarrow> ''open-blocklist_requests_lookup_total''
      | RequestsAuth \<Rightarrow> ''open-blocklist_requests_auth_total''
      | RequestsPut \<Rightarrow> ''open-blocklist_requests_put_total''
      | RequestsDelete \<Rightarrow> ''open-blocklist_requests_delete_total''
      | RequestsList \<Rightarrow> ''open-blocklist_requests_list_total''
      | RequestsHealth \<Rightarrow> ''open-blocklist_requests_health_total''
      | RequestsWriteActive \<Rightarrow> ''open-blocklist_requests_write_active''
      | ConfigErrors \<Rightarrow> ''open-blocklist_config_errors_total''
      | LogDropped \<Rightarrow> ''open-blocklist_log_dropped_total''
      | ReqDnsInvalidQuery \<Rightarrow> ''open-blocklist_dns_invalid_query_total''
      | ReqDnsWrongZone \<Rightarrow> ''open-blocklist_dns_wrong_zone_total''
      | ReqDnsBlocked \<Rightarrow> ''open-blocklist_dns_blocked_total''
      | ReqDnsNotListed \<Rightarrow> ''open-blocklist_dns_not_listed_total''
      | ReqDnsOtherQueryType \<Rightarrow> ''open-blocklist_dns_other_query_type_total''
      | MetricsRequests \<Rightarrow> ''open-blocklist_metrics_requests_total''
      | InvalidEndpointRequests \<Rightarrow> ''open-blocklist_invalid_endpoint_requests_total''
      | HealthSuccess \<Rightarrow> ''open-blocklist_health_probe_success_total''
      | HealthFailure \<Rightarrow> ''open-blocklist_health_probe_failure_total''
      | LivenessSuccess \<Rightarrow> ''open-blocklist_liveness_probe_success_total''
      | LivenessFailure \<Rightarrow> ''open-blocklist_liveness_probe_failure_total''
      | ReadinessSuccess \<Rightarrow> ''open-blocklist_readiness_probe_success_total''
      | ReadinessFailure \<Rightarrow> ''open-blocklist_readiness_probe_failure_total'')"

lemma counter_published:
  "(counter_metric c, dec_int (stats st c)) \<in> set (map (\<lambda>(name, help, metricType, v). (name, dec_int v)) (service_metrics bi st))"
  by (cases c) (simp_all add: metric_lists counter_metric_def)

text \<open>C31: A scrape of the metrics page returns every metric once, with its value. Whatever the
  build texts and samples are (in single lines), the sample lines of the page are exactly the
  metrics of the service, in order, followed by the numeric runtime samples; no name occurs
  twice, and every one of the 22 counters is there with the value it has, the request for the
  page included.\<close>

theorem metrics_page_exact:
  assumes "LF \<notin> set (gBuildPlatform bi)" "LF \<notin> set (gGoVersion bi)" "samples_ok read"
  shows "\<exists>st'. st' = snd (metricsHandler bi read r st) \<and>
    (\<exists>page. page = scrape (res_Body (fst (metricsHandler bi read r st))) \<and>
      page = map (\<lambda>(name, help, metricType, v). (name, dec_int v)) (service_metrics bi st') @
        map (\<lambda>(name, help, metricType, v). (name, v)) (concat (map sample_rows (metrics_Read read initRuntimeMetrics))) \<and>
      distinct (map fst page) \<and>
      (\<forall>c. map_of page (counter_metric c) = Some (dec_int (stats st' c))))"
proof -
  let ?st = "stats_add MetricsRequests 1 st"
  let ?samples = "concat (map sample_rows (metrics_Read read initRuntimeMetrics))"
  let ?page = "map (\<lambda>(name, help, metricType, v). (name, dec_int v)) (service_metrics bi ?st) @
        map (\<lambda>(name, help, metricType, v). (name, v)) ?samples"
  have st: "snd (metricsHandler bi read r st) = ?st" by (simp add: metricsHandler_def Let_def)
  have "\<forall>row \<in> set (map service_row (service_metrics bi ?st) @ ?samples). row_ok row"
    using service_rows_ok [OF assms(1,2), of ?st] sample_rows_ok [OF assms(3)] by auto
  from scrape_rows [OF this] have page: "scrape (res_Body (fst (metricsHandler bi read r st))) = ?page"
    unfolding metricsHandler_body by (simp add: service_row_def case_prod_unfold comp_def)
  have fsts: "map fst ?page = map fst (service_metrics bi ?st) @ map fst ?samples"
    by (simp add: comp_def case_prod_unfold)
  have "hd n = CHR ''g''" if "n \<in> set (map fst ?samples)" for n
    using that unfolding sample_row_names by (auto simp: sample_name_def)
  then have "set (map fst (service_metrics bi ?st)) \<inter> set (map fst ?samples) = {}"
    using service_names_prefix [of bi ?st] by fastforce
  then have dist: "distinct (map fst ?page)"
    unfolding fsts distinct_append sample_row_names
    using distinct_service_names distinct_map_filter [OF distinct_sample_names] by blast
  have "(counter_metric c, dec_int (stats ?st c)) \<in> set ?page" for c
    using counter_published [of c ?st bi] by (simp only: set_append UnI1)
  with dist have "\<forall>c. map_of ?page (counter_metric c) = Some (dec_int (stats ?st c))"
    by (intro allI map_of_is_SomeI)
  with st page dist show ?thesis by auto
qed

definition sample_build :: build_info where
  "sample_build = \<lparr>gBuildPlatform = ''linux'', gGoVersion = ''go1.25.3'', gGoVersionBuild = 12503\<rparr>"

theorem metrics_page_exact_witness:
  "map_of (scrape (res_Body (fst (metricsHandler sample_build (\<lambda>_. KindUint64 7) sample_put (initial_server False)))))
     ''open-blocklist_metrics_requests_total'' = Some ''1''"
proof -
  obtain page where "page = scrape (res_Body (fst (metricsHandler sample_build (\<lambda>_. KindUint64 7) sample_put (initial_server False))))"
    "map_of page (counter_metric MetricsRequests) =
      Some (dec_int (stats (snd (metricsHandler sample_build (\<lambda>_. KindUint64 7) sample_put (initial_server False))) MetricsRequests))"
    using metrics_page_exact [of sample_build "\<lambda>_. KindUint64 7" sample_put "initial_server False"]
    by (auto simp: sample_build_def samples_ok_def)
  moreover have "stats (snd (metricsHandler sample_build (\<lambda>_. KindUint64 7) sample_put (initial_server False))) MetricsRequests = 1"
    by (simp add: metricsHandler_def Let_def stats_add_def initial_server_def wrap64_def)
  ultimately show ?thesis by (simp add: counter_metric_def dec_int_def dec_small)
qed

text \<open>The metric names of the data model of Prometheus: a letter, underscore or colon, then these
  or digits.\<close>

definition name_char :: "char \<Rightarrow> bool" where
  "name_char c \<longleftrightarrow>
     (let n = (of_char c :: nat) in
      (65 \<le> n \<and> n \<le> 90) \<or> (97 \<le> n \<and> n \<le> 122) \<or> n = 95 \<or> n = 58)"

definition valid_metric_name :: "string \<Rightarrow> bool" where
  "valid_metric_name s \<longleftrightarrow> s \<noteq> [] \<and> name_char (hd s) \<and> list_all (\<lambda>c. name_char c \<or> is_digit c) s"

text \<open>All metrics of the service but one have names that the data model of Prometheus does
  not allow, because they contain a hyphen; the runtime metrics, whose names go through
  \<open>sanitizeMetricName\<close>, are all valid, and for names without hyphens, colons and slashes
  \<open>sanitizeMetricName\<close> is the identity.\<close>

theorem only_one_service_metric_valid:
  "filter valid_metric_name (map fst (service_metrics bi st)) = [''open_blocklist_ip_entries''] \<and>
   list_all (\<lambda>n. valid_metric_name (''go_'' @ sanitizeMetricName n)) runtimeMetricNames \<and>
   sanitizeMetricName (sanitizeMetricName n) = sanitizeMetricName n \<and>
   length (sanitizeMetricName n) = length n"
proof -
  have "filter valid_metric_name (map fst (service_metrics bi st)) = [''open_blocklist_ip_entries'']"
    by (simp add: metric_lists valid_metric_name_def name_char_def is_digit_def)
  moreover have "list_all (\<lambda>n. valid_metric_name (''go_'' @ sanitizeMetricName n)) runtimeMetricNames"
    by (simp add: runtimeMetricNames_def valid_metric_name_def name_char_def is_digit_def sanitizeMetricName_def replace_byte_def)
  moreover have "sanitizeMetricName (sanitizeMetricName n) = sanitizeMetricName n"
    using sanitize_clean [of n] by (simp add: sanitizeMetricName_def [of "sanitizeMetricName n"] replace_byte_id)
  moreover have "length (sanitizeMetricName n) = length n" by (simp add: sanitizeMetricName_def replace_byte_def)
  ultimately show ?thesis by blast
qed

text \<open>The probes always succeed and count. Whatever the state of the service, \<open>/healthz\<close>,
  \<open>/livez\<close> and \<open>/readyz\<close> answer 200 and add one to their success counter; no request to the
  metrics listener changes a table or sends anything to etcd.\<close>

theorem metrics_listener_read_only:
  "same_store (snd (metricsListener bi read lvl hr st)) st \<and>
   status_code (fst (healthHandler lvl r st)) = 200 \<and> status_code (fst (readyHandler lvl r st)) = 200 \<and>
   status_code (fst (liveHandler lvl r st)) = 200 \<and>
   stats (snd (healthHandler lvl r st)) = (stats st)(HealthSuccess := wrap64 (stats st HealthSuccess + 1)) \<and>
   stats (snd (readyHandler lvl r st)) = (stats st)(ReadinessSuccess := wrap64 (stats st ReadinessSuccess + 1)) \<and>
   stats (snd (liveHandler lvl r st)) = (stats st)(LivenessSuccess := wrap64 (stats st LivenessSuccess + 1)) \<and>
   (status_code (fst (metricsListener bi read lvl hr st)) = 404 \<longleftrightarrow>
      hr_Path hr \<notin> {[''metrics''], [''healthz''], [''livez''], [''readyz'']})"
proof -
  note defs = metricsListener_def metricsHandler_def healthHandler_def readyHandler_def liveHandler_def notFoundHandler_def
    healthCheck_def readyCheck_def aliveCheck_def Let_def
  note w = status_code_def Write_def WriteHeader_def new_response_def http_Error_def set_header_def
  have "same_store (snd (metricsListener bi read lvl hr st)) st"
    by (simp add: defs same_store_def)
  moreover have "status_code (fst (metricsListener bi read lvl hr st)) = 404 \<longleftrightarrow>
      hr_Path hr \<notin> {[''metrics''], [''healthz''], [''livez''], [''readyz'']}"
    by (simp add: defs w)
  ultimately show ?thesis by (simp add: healthHandler_def readyHandler_def liveHandler_def healthCheck_def readyCheck_def aliveCheck_def
        Let_def w stats_add_def)
qed

end
