(* ===== verification/Expiry.thy ===== *)
theory Expiry
  imports HandlerProps
begin

text \<open>
  The expiration worker of \<open>src/src/main.go\<close>: one tick collects the keys of the expired
  entries of each table and then removes them one by one, from etcd and from the table (in
  both instance modes). The loop runs one tick per interval, each with its own clock reading.
\<close>

section \<open>Definitions\<close>

definition expiredIPs :: "int64 \<Rightarrow> server \<Rightarrow> string list" where
  "expiredIPs now st =
     map fst (filter (\<lambda>(ip, entry). be_Expiration entry > 0 \<and> be_Expiration entry \<le> now) (ipTable st))"

definition expireIP :: "string \<Rightarrow> server \<Rightarrow> server" where
  "expireIP ipstr st =
     (case ParseIP ipstr of
        None \<Rightarrow> st
      | Some ip \<Rightarrow>
          let st = etcdDelete (rblKey ip) st;
              st = etcdDelete (reverseKey ip) st;
              st = ipTable_delete ipstr st
          in log_call (LogMsg LOG_INFO ''Expired block removed: %s'') st)"

definition expiredCIDRs :: "int64 \<Rightarrow> server \<Rightarrow> string list" where
  "expiredCIDRs now st =
     map ce_CIDR (filter (\<lambda>e. ce_Expiration e > 0 \<and> ce_Expiration e \<le> now) (cidrTable st))"

definition expireCIDR :: "string \<Rightarrow> server \<Rightarrow> server" where
  "expireCIDR cidr st =
     (let st = etcdDeleteCIDR cidr st;
          st = cidrTable_remove cidr st
      in log_call (LogMsg LOG_INFO ''Expired CIDR block removed: %s'') st)"

definition expirationTick :: "int64 \<Rightarrow> server \<Rightarrow> server" where
  "expirationTick now st =
     (let st = fold expireIP (expiredIPs now st) st
      in fold expireCIDR (expiredCIDRs now st) st)"

text \<open>The endless loop, run for the given ticks.\<close>

definition expirationWorker :: "int64 list \<Rightarrow> server \<Rightarrow> server" where
  "expirationWorker ticks st = fold expirationTick ticks st"

section \<open>What the removals do\<close>

lemma expireIP_simps:
  "ipTable (expireIP ip st) = (if ParseIP ip = None then ipTable st else ip_del ip (ipTable st))"
  "cidrTable (expireIP ip st) = cidrTable st"
  "etcd_requests (expireIP ip st) = etcd_requests st @
     (case ParseIP ip of None \<Rightarrow> []
      | Some a \<Rightarrow> map (\<lambda>k. EtcdRequest ''/v3/kv/deleterange'' (JObj [(''key'', JStr (b64 k))])) [rblKey a, reverseKey a])"
  by (auto simp: expireIP_def Let_def etcdDelete_def split: option.splits)

lemma expireCIDR_simps:
  "ipTable (expireCIDR c st) = ipTable st"
  "cidrTable (expireCIDR c st) = cidr_remove c (cidrTable st)"
  by (simp_all add: expireCIDR_def etcdDeleteCIDR_def etcdDelete_def)

lemma fold_expireIP:
  "ipTable (fold expireIP ks st) = fold ip_del (filter (\<lambda>k. ParseIP k \<noteq> None) ks) (ipTable st)"
  "cidrTable (fold expireIP ks st) = cidrTable st"
  by (induction ks arbitrary: st) (simp_all add: expireIP_simps)

lemma fold_expireCIDR:
  "ipTable (fold expireCIDR ks st) = ipTable st"
  "cidrTable (fold expireCIDR ks st) = fold cidr_remove ks (cidrTable st)"
  by (induction ks arbitrary: st) (simp_all add: expireCIDR_simps)

lemma tick_ip_get:
  assumes "tables_ok st"
  shows "ip_get (ipTable (expirationTick now st)) k =
    (case ip_get (ipTable st) k of None \<Rightarrow> None
     | Some e \<Rightarrow> if expired now (be_Expiration e) \<and> ParseIP k \<noteq> None then None else Some e)"
proof -
  have inv: "ip_invar (ipTable st)" using assms by (simp add: tables_ok_def)
  let ?P = "\<lambda>e. expired now (be_Expiration e) \<and> ParseIP (be_IP e) \<noteq> None"
  have "ipTable (expirationTick now st) = fold ip_del (map be_IP (filter ?P (ip_entries (ipTable st)))) (ipTable st)"
    using keys_of_entries [OF inv, of "\<lambda>k e. expired now (be_Expiration e)"]
    by (simp add: expirationTick_def Let_def fold_expireIP fold_expireCIDR expiredIPs_def expired_def
        filter_map comp_def conj_commute)
  then show ?thesis
    using ips.lookup_purge [OF inv, of ?P k] ips.lookup_key [OF inv, of k] by (auto split: option.splits)
qed

lemma tick_cidr_find:
  assumes "tables_ok st"
  shows "cidr_find (cidrTable (expirationTick now st)) k =
    (case cidr_find (cidrTable st) k of None \<Rightarrow> None
     | Some e \<Rightarrow> if expired now (ce_Expiration e) then None else Some e)"
proof -
  have inv: "cidr_invar (cidrTable st)" using assms by (simp add: tables_ok_def)
  have "cidrTable (expirationTick now st) =
      fold cidr_remove (map ce_CIDR (filter (\<lambda>e. expired now (ce_Expiration e)) (cidr_entries (cidrTable st)))) (cidrTable st)"
    by (simp add: expirationTick_def Let_def fold_expireIP fold_expireCIDR expiredCIDRs_def expired_def
        cidr_entries_def)
  then show ?thesis using cidrs.lookup_purge [OF inv] by simp
qed

lemma tables_ok_tick:
  assumes "tables_ok st"
  shows "tables_ok (expirationTick now st)"
  using assms ips.invar_dels cidrs.invar_dels
  by (simp add: tables_ok_def expirationTick_def Let_def fold_expireIP fold_expireCIDR)

lemma tables_ok_worker: "tables_ok st \<Longrightarrow> tables_ok (expirationWorker ticks st)"
  unfolding expirationWorker_def by (induction ticks arbitrary: st) (simp_all add: tables_ok_tick)

section \<open>Properties\<close>

text \<open>C7: One tick of the expiration worker removes exactly the expired entries. An address
  entry disappears if and only if it has a positive expiration that is not after the tick and
  its key is an address; a network entry if and only if it has expired; every other entry of
  both tables is kept unchanged, although \<open>remove\<close> moves entries inside the slice.\<close>

theorem expiration_tick_exact:
  assumes "tables_ok st"
  shows "ip_get (ipTable (expirationTick now st)) k =
      (case ip_get (ipTable st) k of None \<Rightarrow> None
       | Some e \<Rightarrow> if expired now (be_Expiration e) \<and> ParseIP k \<noteq> None then None else Some e) \<and>
    cidr_find (cidrTable (expirationTick now st)) c =
      (case cidr_find (cidrTable st) c of None \<Rightarrow> None
       | Some e \<Rightarrow> if expired now (ce_Expiration e) then None else Some e)"
  using tick_ip_get [OF assms] tick_cidr_find [OF assms] by simp

text \<open>A table with one expired and one permanent entry, for the witness.\<close>

definition sample_entry :: "string \<Rightarrow> int64 \<Rightarrow> BlockEntry" where
  "sample_entry ip expiration =
     \<lparr>be_IP = ip, be_Source = ''openbl'', be_Scenario = [], be_Action = ''ban'', be_CreateRevision = 0,
      be_ModRevision = 0, be_FirstSeen = 1, be_LastSeen = 1, be_Expiration = expiration, be_ReturnCode = 0x7F000002\<rparr>"

definition sample_tables :: server where
  "sample_tables = (initial_server False)\<lparr>ipTable :=
     [(''192.0.2.1'', sample_entry ''192.0.2.1'' 10), (''192.0.2.9'', sample_entry ''192.0.2.9'' 0)]\<rparr>"

lemma tables_ok_sample: "tables_ok sample_tables"
  by (simp add: tables_ok_def sample_tables_def ip_invar_def sample_entry_def)

theorem expiration_tick_exact_witness:
  "ip_get (ipTable (expirationTick 20 sample_tables)) ''192.0.2.1'' = None \<and>
   ip_get (ipTable (expirationTick 20 sample_tables)) ''192.0.2.9'' = Some (sample_entry ''192.0.2.9'' 0)"
proof -
  have "ParseIP ''192.0.2.1'' \<noteq> None" by (simp add: net_eval)
  then show ?thesis
    using expiration_tick_exact [OF tables_ok_sample, of 20 "''192.0.2.1''"]
      expiration_tick_exact [OF tables_ok_sample, of 20 "''192.0.2.9''"]
    by (simp add: sample_tables_def sample_entry_def ip_get_def expired_def)
qed

text \<open>Expiry is never late by more than the worker: after a tick at time \<open>now\<close>, no DNS or
  HTTP lookup at that time hides an entry: every entry left in the tables that can be looked
  up as an address is live, and both tables are well formed after any number of ticks.\<close>

theorem after_tick_all_live:
  assumes "tables_ok st"
  shows "tables_ok (expirationWorker ticks (expirationTick now st)) \<and>
    (ip_get (ipTable (expirationTick now st)) k = Some e \<and> IsValidIP k \<longrightarrow> \<not> expired now (be_Expiration e)) \<and>
    (c \<in> set (cidrTable (expirationTick now st)) \<longrightarrow> \<not> expired now (ce_Expiration c))"
proof -
  note ok = tables_ok_tick [OF assms, of now]
  have "cidr_find (cidrTable (expirationTick now st)) (ce_CIDR c) = Some c"
    if "c \<in> set (cidrTable (expirationTick now st))"
    using that ok cidrs.entries_lookup by (simp add: tables_ok_def cidr_entries_def)
  then have "c \<in> set (cidrTable (expirationTick now st)) \<longrightarrow> \<not> expired now (ce_Expiration c)"
    using tick_cidr_find [OF assms, of now "ce_CIDR c"] by (auto split: option.splits if_splits)
  moreover have "ip_get (ipTable (expirationTick now st)) k = Some e \<and> IsValidIP k \<longrightarrow> \<not> expired now (be_Expiration e)"
    using tick_ip_get [OF assms, of now k] by (auto simp: IsValidIP_def split: option.splits if_splits)
  ultimately show ?thesis using tables_ok_worker [OF ok] by blast
qed

theorem after_tick_all_live_witness: "tables_ok (expirationWorker [30, 40] (expirationTick 20 sample_tables))"
  using after_tick_all_live [OF tables_ok_sample] by blast

end
