(* ===== verification/CrowdSec.thy ===== *)
theory CrowdSec
  imports Expiry
begin

text \<open>
  The CrowdSec bouncer of \<open>src/src/crowdsec.go\<close>. The decision stream of the local API is an
  input: the loop is run on the list of the replies it gets (\<open>None\<close> for a failed fetch). A
  clock reading is in nanoseconds, because \<open>time.Now().Add(d).Unix()\<close> adds a duration before
  it rounds down to seconds; \<open>clk i\<close> is the \<open>i\<close>-th reading of one decision.
\<close>

section \<open>Definitions\<close>

record csDecision =
  cs_ID :: int64
  cs_Value :: string
  cs_Type :: string
  cs_Origin :: string
  cs_Scenario :: string
  cs_Duration :: string
  cs_Scope :: string

record csDecisionStream =
  cs_New :: "csDecision list"
  cs_Deleted :: "csDecision list"

definition unix :: "int \<Rightarrow> int64" where
  "unix ns = ns div second"

definition cs_record :: "string \<Rightarrow> csDecision \<Rightarrow> int64 \<Rightarrow> int64 \<Rightarrow> int64 \<Rightarrow> BlockRecord" where
  "cs_record source d firstSeen now expiration =
     \<lparr>br_Version = 1, br_TTL = gRecordTTL, br_Host = defaultReturn, br_Source = source,
      br_Scenario = cs_Scenario d, br_Action = cs_Type d, br_FirstSeen = firstSeen,
      br_LastSeen = now, br_Expiration = expiration, br_CreateRevision = 0, br_ModRevision = 0\<rparr>"

definition cs_entry :: "string \<Rightarrow> string \<Rightarrow> csDecision \<Rightarrow> int64 \<Rightarrow> int64 \<Rightarrow> int64 \<Rightarrow> BlockEntry" where
  "cs_entry ipstr source d firstSeen now expiration =
     \<lparr>be_IP = ipstr, be_Source = source, be_Scenario = cs_Scenario d, be_Action = cs_Type d,
      be_CreateRevision = 0, be_ModRevision = 0, be_FirstSeen = firstSeen, be_LastSeen = now,
      be_Expiration = expiration, be_ReturnCode = IPv4StrToUint32 defaultReturn\<rparr>"

definition crowdSecApplyIP ::
  "int \<Rightarrow> csDecision \<Rightarrow> string \<Rightarrow> int64 \<Rightarrow> int64 \<Rightarrow> server \<Rightarrow> server" where
  "crowdSecApplyIP clk d source now expiration st =
     (case ParseIP (cs_Value d) of
        None \<Rightarrow> log_call (LogMsg LOG_ERROR ''CrowdSec: invalid IP %q'') st
      | Some ip \<Rightarrow>
          let ipstr = IP_String ip;
              (existing, st) = ipTableLookup (unix clk) ipstr st;
              firstSeen = (case existing of Some e \<Rightarrow> be_FirstSeen e | None \<Rightarrow> now);
              st = etcdPut (rblKey ip) (BlockRecord_json (cs_record source d firstSeen now expiration)) st;
              st = etcdPut (reverseKey ip) (PTRRecord_json ptr_record) st;
              st = (if \<not> gMultiInstanceMode st
                    then ipTable_store (cs_entry ipstr source d firstSeen now expiration) st else st)
          in log_call (LogMsg LOG_VERBOSE ''CrowdSec: blocked IP %s (scenario=%s action=%s)'') st)"

definition cs_cidr_entry ::
  "string \<Rightarrow> IPNet \<Rightarrow> string \<Rightarrow> csDecision \<Rightarrow> int64 \<Rightarrow> int64 \<Rightarrow> int64 \<Rightarrow> CIDREntry" where
  "cs_cidr_entry cidr network source d firstSeen now expiration =
     \<lparr>ce_CIDR = cidr, ce_Net = network, ce_Source = source, ce_Scenario = cs_Scenario d,
      ce_Action = cs_Type d, ce_ReturnCode = IPv4StrToUint32 defaultReturn,
      ce_FirstSeen = firstSeen, ce_LastSeen = now, ce_Expiration = expiration\<rparr>"

definition crowdSecApplyCIDR ::
  "csDecision \<Rightarrow> string \<Rightarrow> int64 \<Rightarrow> int64 \<Rightarrow> server \<Rightarrow> server" where
  "crowdSecApplyCIDR d source now expiration st =
     (case ParseCIDR (cs_Value d) of
        None \<Rightarrow> log_call (LogMsg LOG_ERROR ''CrowdSec: invalid CIDR %q: %v'') st
      | Some network \<Rightarrow>
          let cidr = IPNet_String network;
              firstSeen = (case findByCIDR cidr st of Some e \<Rightarrow> ce_FirstSeen e | None \<Rightarrow> now);
              st = etcdPutCIDR cidr (cs_record source d firstSeen now expiration) st;
              st = (if \<not> gMultiInstanceMode st
                    then cidrTable_upsert (cs_cidr_entry cidr network source d firstSeen now expiration) st
                    else st)
          in log_call (LogMsg LOG_VERBOSE ''CrowdSec: blocked CIDR %s (scenario=%s action=%s)'') st)"

definition cs_source :: "csDecision \<Rightarrow> string" where
  "cs_source d =
     (if cs_Origin d \<noteq> [] \<and> cs_Origin d \<noteq> ''crowdsec'' then ''crowdsec:'' @ cs_Origin d else ''crowdsec'')"

definition cs_expiration :: "int \<Rightarrow> csDecision \<Rightarrow> server \<Rightarrow> int64 \<times> server" where
  "cs_expiration now_ns d st =
     (if cs_Duration d \<noteq> [] then
        (case ParseDuration (cs_Duration d) of
           None \<Rightarrow> (0, log_call (LogMsg LOG_ERROR ''CrowdSec: invalid duration %q for %s: %v'') st)
         | Some dur \<Rightarrow> (unix (now_ns + dur), st))
      else (0, st))"

definition crowdSecApply :: "(nat \<Rightarrow> int) \<Rightarrow> csDecision \<Rightarrow> server \<Rightarrow> server" where
  "crowdSecApply clk d st =
     (let source = cs_source d;
          (expiration, st) = cs_expiration (clk 0) d st;
          now = unix (clk 1)
      in if contains_byte (cs_Value d) CHR ''/''
         then crowdSecApplyCIDR d source now expiration st
         else crowdSecApplyIP (clk 2) d source now expiration st)"

definition crowdSecRemove :: "csDecision \<Rightarrow> server \<Rightarrow> server" where
  "crowdSecRemove d st =
     (if contains_byte (cs_Value d) CHR ''/'' then
        (case ParseCIDR (cs_Value d) of
           None \<Rightarrow> log_call (LogMsg LOG_ERROR ''CrowdSec: invalid CIDR %q: %v'') st
         | Some network \<Rightarrow>
             let cidr = IPNet_String network;
                 st = etcdDeleteCIDR cidr st;
                 st = (if \<not> gMultiInstanceMode st then cidrTable_remove cidr st else st)
             in log_call (LogMsg LOG_VERBOSE ''CrowdSec: unblocked CIDR %s'') st)
      else
        (case ParseIP (cs_Value d) of
           None \<Rightarrow> log_call (LogMsg LOG_ERROR ''CrowdSec: invalid IP %q'') st
         | Some ip \<Rightarrow>
             let st = etcdDelete (rblKey ip) st;
                 st = etcdDelete (reverseKey ip) st;
                 st = (if \<not> gMultiInstanceMode st then ipTable_delete (IP_String ip) st else st)
             in log_call (LogMsg LOG_VERBOSE ''CrowdSec: unblocked IP %s'') st))"

text \<open>The canonical value of a decision, as \<open>crowdSecReconcile\<close> collects them.\<close>

definition cs_canonical :: "csDecision \<Rightarrow> string option" where
  "cs_canonical d =
     (if contains_byte (cs_Value d) CHR ''/''
      then map_option IPNet_String (ParseCIDR (cs_Value d))
      else map_option IP_String (ParseIP (cs_Value d)))"

definition csValues :: "csDecision list \<Rightarrow> string list" where
  "csValues ds = List.map_filter cs_canonical ds"

definition staleIPs :: "string list \<Rightarrow> server \<Rightarrow> string list" where
  "staleIPs vals st =
     map fst (filter (\<lambda>(ip, entry). has_prefix (be_Source entry) ''crowdsec'' \<and> ip \<notin> set vals) (ipTable st))"

definition reconcile_removeIP :: "string \<Rightarrow> server \<Rightarrow> server" where
  "reconcile_removeIP ipstr st =
     (let st = (case ParseIP ipstr of
                  None \<Rightarrow> st
                | Some parsed \<Rightarrow> etcdDelete (reverseKey parsed) (etcdDelete (rblKey parsed) st));
          st = (if \<not> gMultiInstanceMode st then ipTable_delete ipstr st else st)
      in log_call (LogMsg LOG_INFO ''CrowdSec reconcile: removed stale IP %s'') st)"

definition staleCIDRs :: "string list \<Rightarrow> server \<Rightarrow> string list" where
  "staleCIDRs vals st =
     map ce_CIDR (filter (\<lambda>e. has_prefix (ce_Source e) ''crowdsec'' \<and> ce_CIDR e \<notin> set vals) (cidrTable st))"

definition reconcile_removeCIDR :: "string \<Rightarrow> server \<Rightarrow> server" where
  "reconcile_removeCIDR cidr st =
     (let st = etcdDeleteCIDR cidr st;
          st = (if \<not> gMultiInstanceMode st then cidrTable_remove cidr st else st)
      in log_call (LogMsg LOG_INFO ''CrowdSec reconcile: removed stale CIDR %s'') st)"

text \<open>Applying a list of decisions; the \<open>i\<close>-th decision has its own clock readings.\<close>

fun apply_all :: "(nat \<Rightarrow> nat \<Rightarrow> int) \<Rightarrow> nat \<Rightarrow> csDecision list \<Rightarrow> server \<Rightarrow> server" where
  "apply_all clk i [] st = st"
| "apply_all clk i (d # ds) st = apply_all clk (Suc i) ds (crowdSecApply (clk i) d st)"

definition crowdSecReconcile :: "(nat \<Rightarrow> nat \<Rightarrow> int) \<Rightarrow> csDecisionStream \<Rightarrow> server \<Rightarrow> server" where
  "crowdSecReconcile clk stream st =
     (let vals = csValues (cs_New stream);
          st = fold reconcile_removeIP (staleIPs vals st) st;
          st = fold reconcile_removeCIDR (staleCIDRs vals st) st;
          st = apply_all clk 0 (cs_New stream) st
      in log_call (LogMsg LOG_INFO ''CrowdSec reconcile complete: %d decisions, %d stale IPs, %d stale CIDRs removed'') st)"

text \<open>One round of \<open>crowdSecLoop\<close>: the flag is \<open>startup\<close>.\<close>

definition crowdSecRound ::
  "(nat \<Rightarrow> nat \<Rightarrow> int) \<Rightarrow> csDecisionStream option \<Rightarrow> bool \<times> server \<Rightarrow> bool \<times> server" where
  "crowdSecRound clk reply s =
     (case s of (startup, st) \<Rightarrow>
        (case reply of
           None \<Rightarrow> (startup, log_call (LogMsg LOG_ERROR ''CrowdSec fetch failed: %v'') st)
         | Some stream \<Rightarrow>
             if startup then (False, crowdSecReconcile clk stream st)
             else (False, fold crowdSecRemove (cs_Deleted stream) (apply_all clk 0 (cs_New stream) st))))"

fun crowdSecLoop ::
  "(nat \<Rightarrow> nat \<Rightarrow> nat \<Rightarrow> int) \<Rightarrow> nat \<Rightarrow> csDecisionStream option list \<Rightarrow> bool \<times> server \<Rightarrow> bool \<times> server" where
  "crowdSecLoop clk n [] s = s"
| "crowdSecLoop clk n (reply # replies) s = crowdSecLoop clk (Suc n) replies (crowdSecRound (clk n) reply s)"

section \<open>What the operations do to the tables\<close>

lemma cs_expiration_simps [simp]:
  "ipTable (snd (cs_expiration t d st)) = ipTable st" "cidrTable (snd (cs_expiration t d st)) = cidrTable st"
  "gMultiInstanceMode (snd (cs_expiration t d st)) = gMultiInstanceMode st"
  by (simp_all add: cs_expiration_def split: option.splits)

definition is_ip_decision :: "csDecision \<Rightarrow> bool" where
  "is_ip_decision d \<longleftrightarrow> \<not> contains_byte (cs_Value d) CHR ''/''"

lemma crowdSecApply_multi:
  "gMultiInstanceMode (crowdSecApply clk d st) = gMultiInstanceMode st"
  by (simp add: crowdSecApply_def crowdSecApplyIP_def crowdSecApplyCIDR_def Let_def case_prod_unfold etcd_defs
      split: option.splits)

text \<open>In single-instance mode an address decision writes exactly the entry of its canonical text.\<close>

lemma crowdSecApply_ip:
  assumes "is_ip_decision d" "\<not> gMultiInstanceMode st"
  shows "cidrTable (crowdSecApply clk d st) = cidrTable st"
    and "ipTable (crowdSecApply clk d st) =
      (case cs_canonical d of None \<Rightarrow> ipTable st
       | Some k \<Rightarrow> ip_put (cs_entry k (cs_source d) d
            (case live_ip (unix (clk 2)) k (ipTable st) of Some e \<Rightarrow> be_FirstSeen e | None \<Rightarrow> unix (clk 1))
            (unix (clk 1)) (fst (cs_expiration (clk 0) d st))) (ipTable st))"
  using assms
  by (simp_all add: crowdSecApply_def crowdSecApplyIP_def is_ip_decision_def cs_canonical_def Let_def
      case_prod_unfold etcd_defs fst_ipTableLookup_live split: option.splits)

lemma crowdSecApply_cidr:
  assumes "\<not> is_ip_decision d" "\<not> gMultiInstanceMode st"
  shows "ipTable (crowdSecApply clk d st) = ipTable st"
    and "cs_canonical d = None \<Longrightarrow> cidrTable (crowdSecApply clk d st) = cidrTable st"
    and "cs_canonical d = Some k \<Longrightarrow>
      \<exists>e. cidrTable (crowdSecApply clk d st) = cidr_upsert e (cidrTable st) \<and>
        ce_CIDR e = k \<and> ce_Source e = cs_source d"
  using assms
  by (auto simp: crowdSecApply_def crowdSecApplyCIDR_def is_ip_decision_def cs_canonical_def Let_def
      case_prod_unfold etcd_defs cs_cidr_entry_def split: option.splits)

lemma crowdSecRemove_multi:
  "gMultiInstanceMode (crowdSecRemove d st) = gMultiInstanceMode st"
  by (simp add: crowdSecRemove_def Let_def etcd_defs split: option.splits)

lemma crowdSecRemove_single:
  assumes "\<not> gMultiInstanceMode st"
  shows "ipTable (crowdSecRemove d st) =
      (if is_ip_decision d then case cs_canonical d of None \<Rightarrow> ipTable st | Some k \<Rightarrow> ip_del k (ipTable st)
       else ipTable st)"
    and "cidrTable (crowdSecRemove d st) =
      (if is_ip_decision d then cidrTable st
       else case cs_canonical d of None \<Rightarrow> cidrTable st | Some k \<Rightarrow> cidr_remove k (cidrTable st))"
  using assms
  by (simp_all add: crowdSecRemove_def is_ip_decision_def cs_canonical_def Let_def etcd_defs split: option.splits)

section \<open>Runs of decisions\<close>

definition ip_keys :: "csDecision list \<Rightarrow> string set" where
  "ip_keys ds = {k. \<exists>d \<in> set ds. is_ip_decision d \<and> cs_canonical d = Some k}"

definition cidr_keys :: "csDecision list \<Rightarrow> string set" where
  "cidr_keys ds = {k. \<exists>d \<in> set ds. \<not> is_ip_decision d \<and> cs_canonical d = Some k}"

lemma keys_Cons:
  "ip_keys (d # ds) = {k. is_ip_decision d \<and> cs_canonical d = Some k} \<union> ip_keys ds"
  "cidr_keys (d # ds) = {k. \<not> is_ip_decision d \<and> cs_canonical d = Some k} \<union> cidr_keys ds"
  by (auto simp: ip_keys_def cidr_keys_def)

lemma keys_Nil [simp]: "ip_keys [] = {}" "cidr_keys [] = {}"
  by (simp_all add: ip_keys_def cidr_keys_def)

definition from_crowdsec_ip :: "BlockEntry option \<Rightarrow> bool" where
  "from_crowdsec_ip r \<longleftrightarrow> (\<exists>e. r = Some e \<and> has_prefix (be_Source e) ''crowdsec'')"

definition from_crowdsec_cidr :: "CIDREntry option \<Rightarrow> bool" where
  "from_crowdsec_cidr r \<longleftrightarrow> (\<exists>e. r = Some e \<and> has_prefix (ce_Source e) ''crowdsec'')"

lemma cs_source_prefix: "has_prefix (cs_source d) ''crowdsec''"
  by (simp add: cs_source_def has_prefix_def)

text \<open>One decision: the tables stay well formed, its own key holds a CrowdSec entry, every other
  key is untouched.\<close>

lemma crowdSecApply_effect:
  fixes clk :: "nat \<Rightarrow> int" and d :: csDecision
  assumes "tables_ok st" "\<not> gMultiInstanceMode st"
  defines "st' \<equiv> crowdSecApply clk d st"
  shows "tables_ok st'" "\<not> gMultiInstanceMode st'"
    and "k \<notin> ip_keys [d] \<Longrightarrow> ip_get (ipTable st') k = ip_get (ipTable st) k"
    and "k \<in> ip_keys [d] \<Longrightarrow> from_crowdsec_ip (ip_get (ipTable st') k)"
    and "k \<notin> cidr_keys [d] \<Longrightarrow> cidr_find (cidrTable st') k = cidr_find (cidrTable st) k"
    and "k \<in> cidr_keys [d] \<Longrightarrow> from_crowdsec_cidr (cidr_find (cidrTable st') k)"
proof -
  have inv: "ip_invar (ipTable st)" "cidr_invar (cidrTable st)" using assms(1) by (simp_all add: tables_ok_def)
  show "\<not> gMultiInstanceMode st'" using assms by (simp add: crowdSecApply_multi)
  consider (none) "cs_canonical d = None" | (ip) c where "is_ip_decision d" "cs_canonical d = Some c"
    | (cidr) c where "\<not> is_ip_decision d" "cs_canonical d = Some c" by (cases "cs_canonical d") auto
  then have "tables_ok st' \<and>
    (k \<notin> ip_keys [d] \<longrightarrow> ip_get (ipTable st') k = ip_get (ipTable st) k) \<and>
    (k \<in> ip_keys [d] \<longrightarrow> from_crowdsec_ip (ip_get (ipTable st') k)) \<and>
    (k \<notin> cidr_keys [d] \<longrightarrow> cidr_find (cidrTable st') k = cidr_find (cidrTable st) k) \<and>
    (k \<in> cidr_keys [d] \<longrightarrow> from_crowdsec_cidr (cidr_find (cidrTable st') k))" for k
  proof cases
    case none
    then have "ipTable st' = ipTable st" "cidrTable st' = cidrTable st"
      using crowdSecApply_ip [where d = d and st = st and clk = clk] crowdSecApply_cidr [where d = d and st = st and clk = clk] assms(2)
      by (cases "is_ip_decision d"; simp add: st'_def)+
    with none assms(1) show ?thesis by (simp add: tables_ok_def keys_Cons)
  next
    case (ip c)
    with crowdSecApply_ip [where clk = clk, OF ip(1) assms(2)] obtain e where
      e: "ipTable st' = ip_put e (ipTable st)" "be_IP e = c" "be_Source e = cs_source d"
        "cidrTable st' = cidrTable st"
      by (simp add: st'_def cs_entry_def)
    with ip inv show ?thesis
      by (auto simp: tables_ok_def keys_Cons ips.invar_put ips.lookup_put from_crowdsec_ip_def cs_source_prefix)
  next
    case (cidr c)
    with crowdSecApply_cidr(1,3) [where clk = clk, OF cidr(1) assms(2)] obtain e where
      e: "cidrTable st' = cidr_upsert e (cidrTable st)" "ce_CIDR e = c" "ce_Source e = cs_source d"
        "ipTable st' = ipTable st"
      unfolding st'_def by metis
    with cidr inv show ?thesis
      by (auto simp: tables_ok_def keys_Cons cidrs.invar_put cidrs.lookup_put from_crowdsec_cidr_def cs_source_prefix)
  qed
  then show "tables_ok st'"
    and "k \<notin> ip_keys [d] \<Longrightarrow> ip_get (ipTable st') k = ip_get (ipTable st) k"
    and "k \<in> ip_keys [d] \<Longrightarrow> from_crowdsec_ip (ip_get (ipTable st') k)"
    and "k \<notin> cidr_keys [d] \<Longrightarrow> cidr_find (cidrTable st') k = cidr_find (cidrTable st) k"
    and "k \<in> cidr_keys [d] \<Longrightarrow> from_crowdsec_cidr (cidr_find (cidrTable st') k)" by blast+
qed

lemma apply_all_effect:
  assumes "tables_ok st" "\<not> gMultiInstanceMode st"
  shows "tables_ok (apply_all clk i ds st) \<and> \<not> gMultiInstanceMode (apply_all clk i ds st) \<and>
    (k \<notin> ip_keys ds \<longrightarrow> ip_get (ipTable (apply_all clk i ds st)) k = ip_get (ipTable st) k) \<and>
    (k \<in> ip_keys ds \<longrightarrow> from_crowdsec_ip (ip_get (ipTable (apply_all clk i ds st)) k)) \<and>
    (k \<notin> cidr_keys ds \<longrightarrow> cidr_find (cidrTable (apply_all clk i ds st)) k = cidr_find (cidrTable st) k) \<and>
    (k \<in> cidr_keys ds \<longrightarrow> from_crowdsec_cidr (cidr_find (cidrTable (apply_all clk i ds st)) k))"
  using assms
proof (induction ds arbitrary: i st)
  case (Cons d ds)
  note eff = crowdSecApply_effect [where clk = "clk i" and d = d, OF Cons.prems]
  note IH = Cons.IH [OF eff(1,2), of "Suc i"]
  have mem: "k \<in> ip_keys (d # ds) \<longleftrightarrow> k \<in> ip_keys [d] \<or> k \<in> ip_keys ds"
    "k \<in> cidr_keys (d # ds) \<longleftrightarrow> k \<in> cidr_keys [d] \<or> k \<in> cidr_keys ds"
    by (auto simp: keys_Cons)
  show ?case using IH eff(3-6) [of k] by (simp add: mem) metis
qed simp

lemma crowdSecRemove_effect:
  assumes "tables_ok st" "\<not> gMultiInstanceMode st"
  shows "tables_ok (crowdSecRemove d st) \<and> \<not> gMultiInstanceMode (crowdSecRemove d st) \<and>
    ip_get (ipTable (crowdSecRemove d st)) k = (if k \<in> ip_keys [d] then None else ip_get (ipTable st) k) \<and>
    cidr_find (cidrTable (crowdSecRemove d st)) k = (if k \<in> cidr_keys [d] then None else cidr_find (cidrTable st) k)"
  using assms crowdSecRemove_single [OF assms(2), of d]
  by (auto simp: tables_ok_def crowdSecRemove_multi keys_Cons ips.invar_del cidrs.invar_del ips.lookup_del
      cidrs.lookup_del split: option.splits)

lemma fold_crowdSecRemove_effect:
  assumes "tables_ok st" "\<not> gMultiInstanceMode st"
  shows "tables_ok (fold crowdSecRemove ds st) \<and> \<not> gMultiInstanceMode (fold crowdSecRemove ds st) \<and>
    ip_get (ipTable (fold crowdSecRemove ds st)) k = (if k \<in> ip_keys ds then None else ip_get (ipTable st) k) \<and>
    cidr_find (cidrTable (fold crowdSecRemove ds st)) k =
      (if k \<in> cidr_keys ds then None else cidr_find (cidrTable st) k)"
  using assms
proof (induction ds arbitrary: st)
  case (Cons d ds)
  note eff = crowdSecRemove_effect [OF Cons.prems, of d k]
  have mem: "k \<in> ip_keys (d # ds) \<longleftrightarrow> k \<in> ip_keys [d] \<or> k \<in> ip_keys ds"
    "k \<in> cidr_keys (d # ds) \<longleftrightarrow> k \<in> cidr_keys [d] \<or> k \<in> cidr_keys ds"
    by (auto simp: keys_Cons)
  show ?case using Cons.IH [of "crowdSecRemove d st"] eff by (simp add: mem)
qed simp

section \<open>Reconciliation\<close>

lemma reconcile_remove_simps:
  "\<not> gMultiInstanceMode st \<Longrightarrow> ipTable (reconcile_removeIP k st) = ip_del k (ipTable st)"
  "cidrTable (reconcile_removeIP k st) = cidrTable st"
  "gMultiInstanceMode (reconcile_removeIP k st) = gMultiInstanceMode st"
  "ipTable (reconcile_removeCIDR k st) = ipTable st"
  "\<not> gMultiInstanceMode st \<Longrightarrow> cidrTable (reconcile_removeCIDR k st) = cidr_remove k (cidrTable st)"
  "gMultiInstanceMode (reconcile_removeCIDR k st) = gMultiInstanceMode st"
  by (auto simp: reconcile_removeIP_def reconcile_removeCIDR_def Let_def etcd_defs split: option.splits)

lemma fold_reconcile_removeIP:
  "\<not> gMultiInstanceMode st \<Longrightarrow>
   ipTable (fold reconcile_removeIP ks st) = fold ip_del ks (ipTable st) \<and>
   cidrTable (fold reconcile_removeIP ks st) = cidrTable st \<and>
   \<not> gMultiInstanceMode (fold reconcile_removeIP ks st)"
  by (induction ks arbitrary: st) (simp_all add: reconcile_remove_simps)

lemma fold_reconcile_removeCIDR:
  "\<not> gMultiInstanceMode st \<Longrightarrow>
   cidrTable (fold reconcile_removeCIDR ks st) = fold cidr_remove ks (cidrTable st) \<and>
   ipTable (fold reconcile_removeCIDR ks st) = ipTable st \<and>
   \<not> gMultiInstanceMode (fold reconcile_removeCIDR ks st)"
  by (induction ks arbitrary: st) (simp_all add: reconcile_remove_simps)

text \<open>The state after the two removal passes.\<close>

definition purge_stale :: "string list \<Rightarrow> server \<Rightarrow> server" where
  "purge_stale vals st =
     (let st = fold reconcile_removeIP (staleIPs vals st) st
      in fold reconcile_removeCIDR (staleCIDRs vals st) st)"

lemma purge_stale_effect:
  assumes "tables_ok st" "\<not> gMultiInstanceMode st"
  shows "tables_ok (purge_stale vals st)" "\<not> gMultiInstanceMode (purge_stale vals st)"
    and "ip_get (ipTable (purge_stale vals st)) k =
      (case ip_get (ipTable st) k of None \<Rightarrow> None
       | Some e \<Rightarrow> if has_prefix (be_Source e) ''crowdsec'' \<and> k \<notin> set vals then None else Some e)"
    and "cidr_find (cidrTable (purge_stale vals st)) k =
      (case cidr_find (cidrTable st) k of None \<Rightarrow> None
       | Some e \<Rightarrow> if has_prefix (ce_Source e) ''crowdsec'' \<and> k \<notin> set vals then None else Some e)"
proof -
  have inv: "ip_invar (ipTable st)" "cidr_invar (cidrTable st)" using assms(1) by (simp_all add: tables_ok_def)
  let ?P = "\<lambda>e. has_prefix (be_Source e) ''crowdsec'' \<and> be_IP e \<notin> set vals"
  let ?Q = "\<lambda>e. has_prefix (ce_Source e) ''crowdsec'' \<and> ce_CIDR e \<notin> set vals"
  have keys: "staleIPs vals st = map be_IP (filter ?P (ip_entries (ipTable st)))"
    using keys_of_entries [OF inv(1)] by (simp add: staleIPs_def)
  have cidr_keys: "staleCIDRs vals s = map ce_CIDR (filter ?Q (cidr_entries (cidrTable s)))" for s
    by (simp add: staleCIDRs_def cidr_entries_def)
  note tabs = fold_reconcile_removeIP [OF assms(2), of "staleIPs vals st"]
  have "ipTable (purge_stale vals st) = fold ip_del (staleIPs vals st) (ipTable st)"
    "cidrTable (purge_stale vals st) = fold cidr_remove (staleCIDRs vals st) (cidrTable st)"
    "\<not> gMultiInstanceMode (purge_stale vals st)"
    using tabs fold_reconcile_removeCIDR [of "fold reconcile_removeIP (staleIPs vals st) st"]
    by (simp_all add: purge_stale_def Let_def staleCIDRs_def)
  then show "tables_ok (purge_stale vals st)" "\<not> gMultiInstanceMode (purge_stale vals st)"
    and "ip_get (ipTable (purge_stale vals st)) k =
      (case ip_get (ipTable st) k of None \<Rightarrow> None
       | Some e \<Rightarrow> if has_prefix (be_Source e) ''crowdsec'' \<and> k \<notin> set vals then None else Some e)"
    and "cidr_find (cidrTable (purge_stale vals st)) k =
      (case cidr_find (cidrTable st) k of None \<Rightarrow> None
       | Some e \<Rightarrow> if has_prefix (ce_Source e) ''crowdsec'' \<and> k \<notin> set vals then None else Some e)"
    using inv ips.invar_dels cidrs.invar_dels ips.lookup_purge [OF inv(1), of ?P k] ips.lookup_key [OF inv(1), of k]
      cidrs.lookup_purge [OF inv(2), of ?Q k] cidrs.lookup_key [OF inv(2), of k]
    by (auto simp: tables_ok_def keys cidr_keys split: option.splits)
qed

lemma crowdSecReconcile_purge:
  "crowdSecReconcile clk stream st =
   log_call (LogMsg LOG_INFO ''CrowdSec reconcile complete: %d decisions, %d stale IPs, %d stale CIDRs removed'')
     (apply_all clk 0 (cs_New stream) (purge_stale (csValues (cs_New stream)) st))"
  by (simp add: crowdSecReconcile_def purge_stale_def Let_def)

section \<open>Properties\<close>

text \<open>C6: Reconciliation at startup makes the CrowdSec part of the blocklist equal to the
  decisions. In single-instance mode, after \<open>crowdSecReconcile\<close> every decision with a valid
  address or network is present as an entry from CrowdSec; an entry from CrowdSec whose key is
  not among the decisions is gone; an entry of another source whose key is not among the
  decisions is unchanged.\<close>

theorem reconcile_synchronises:
  assumes "tables_ok st" "\<not> gMultiInstanceMode st"
  shows "(k \<in> ip_keys (cs_New stream) \<longrightarrow> from_crowdsec_ip (ip_get (ipTable (crowdSecReconcile clk stream st)) k)) \<and>
    (k \<in> cidr_keys (cs_New stream) \<longrightarrow>
      from_crowdsec_cidr (cidr_find (cidrTable (crowdSecReconcile clk stream st)) k)) \<and>
    (k \<notin> set (csValues (cs_New stream)) \<longrightarrow>
      ip_get (ipTable (crowdSecReconcile clk stream st)) k =
        (if from_crowdsec_ip (ip_get (ipTable st) k) then None else ip_get (ipTable st) k) \<and>
      cidr_find (cidrTable (crowdSecReconcile clk stream st)) k =
        (if from_crowdsec_cidr (cidr_find (cidrTable st) k) then None else cidr_find (cidrTable st) k))"
proof -
  let ?vals = "csValues (cs_New stream)"
  note pur = purge_stale_effect [OF assms, of ?vals]
  note app = apply_all_effect [OF pur(1,2), of clk 0 "cs_New stream" k]
  have "k \<notin> ip_keys (cs_New stream)" "k \<notin> cidr_keys (cs_New stream)" if "k \<notin> set ?vals"
    using that by (force simp: csValues_def ip_keys_def cidr_keys_def List.map_filter_def)+
  with app pur(3,4) [of k] show ?thesis
    by (auto simp: crowdSecReconcile_purge from_crowdsec_ip_def from_crowdsec_cidr_def split: option.splits)
qed

definition sample_decision :: "string \<Rightarrow> csDecision" where
  "sample_decision v = \<lparr>cs_ID = 1, cs_Value = v, cs_Type = ''ban'', cs_Origin = ''crowdsec'',
     cs_Scenario = ''ssh-bf'', cs_Duration = [], cs_Scope = ''Ip''\<rparr>"

lemma sample_decision_keys:
  "ip_keys [sample_decision ''192.0.2.7''] = {''192.0.2.7''}" "cidr_keys [sample_decision ''192.0.2.7''] = {}"
  by (simp_all add: keys_Cons sample_decision_def is_ip_decision_def contains_byte_def cs_canonical_def net_eval
      singleton_conv2)

theorem reconcile_synchronises_witness:
  "from_crowdsec_ip (ip_get (ipTable (crowdSecReconcile (\<lambda>_ _. 0)
     \<lparr>cs_New = [sample_decision ''192.0.2.7''], cs_Deleted = []\<rparr> sample_tables)) ''192.0.2.7'')"
  using reconcile_synchronises [OF tables_ok_sample, of "''192.0.2.7''"
      "\<lparr>cs_New = [sample_decision ''192.0.2.7''], cs_Deleted = []\<rparr>" "\<lambda>_ _. 0"]
  by (simp add: sample_decision_keys sample_tables_def)

text \<open>C30: A poll applies the new decisions and then the deletions. In single-instance mode,
  after a successful round of \<open>crowdSecLoop\<close> past startup, a deleted value is absent (even if
  the same reply also lists it as new), a new value that is not deleted is present as an entry
  from CrowdSec, and every other key is unchanged; a failed fetch changes no table and stays in
  the startup phase.\<close>

theorem poll_applies_then_deletes:
  assumes "tables_ok st" "\<not> gMultiInstanceMode st"
  shows "(let st' = snd (crowdSecRound clk (Some stream) (False, st)) in
      ip_get (ipTable st') k =
        (if k \<in> ip_keys (cs_Deleted stream) then None
         else ip_get (ipTable (apply_all clk 0 (cs_New stream) st)) k) \<and>
      (k \<in> ip_keys (cs_New stream) - ip_keys (cs_Deleted stream) \<longrightarrow> from_crowdsec_ip (ip_get (ipTable st') k)) \<and>
      (k \<notin> ip_keys (cs_New stream) \<union> ip_keys (cs_Deleted stream) \<longrightarrow>
        ip_get (ipTable st') k = ip_get (ipTable st) k) \<and>
      (k \<in> cidr_keys (cs_Deleted stream) \<longrightarrow> cidr_find (cidrTable st') k = None) \<and>
      (k \<in> cidr_keys (cs_New stream) - cidr_keys (cs_Deleted stream) \<longrightarrow>
        from_crowdsec_cidr (cidr_find (cidrTable st') k)) \<and>
      (k \<notin> cidr_keys (cs_New stream) \<union> cidr_keys (cs_Deleted stream) \<longrightarrow>
        cidr_find (cidrTable st') k = cidr_find (cidrTable st) k)) \<and>
    (case crowdSecRound clk None (startup, st) of
       (startup', st') \<Rightarrow> startup' = startup \<and> ipTable st' = ipTable st \<and> cidrTable st' = cidrTable st)"
proof -
  note app = apply_all_effect [OF assms, of clk 0 "cs_New stream" k]
  have rem: "ip_get (ipTable (fold crowdSecRemove ds (apply_all clk 0 (cs_New stream) st))) k =
      (if k \<in> ip_keys ds then None else ip_get (ipTable (apply_all clk 0 (cs_New stream) st)) k)"
    "cidr_find (cidrTable (fold crowdSecRemove ds (apply_all clk 0 (cs_New stream) st))) k =
      (if k \<in> cidr_keys ds then None else cidr_find (cidrTable (apply_all clk 0 (cs_New stream) st)) k)" for ds
    using fold_crowdSecRemove_effect [of "apply_all clk 0 (cs_New stream) st" ds k] app by simp_all
  show ?thesis using app by (simp add: crowdSecRound_def Let_def rem)
qed

theorem poll_applies_then_deletes_witness:
  "ip_get (ipTable (snd (crowdSecRound (\<lambda>_ _. 0) (Some \<lparr>cs_New = [sample_decision ''192.0.2.7''],
      cs_Deleted = [sample_decision ''192.0.2.7'']\<rparr>) (False, sample_tables)))) ''192.0.2.7'' = None"
  using poll_applies_then_deletes [OF tables_ok_sample, of "\<lambda>_ _. 0"
      "\<lparr>cs_New = [sample_decision ''192.0.2.7''], cs_Deleted = [sample_decision ''192.0.2.7'']\<rparr>" "''192.0.2.7''"]
  by (simp add: sample_decision_keys sample_tables_def Let_def)

end
