(* ===== verification/Etcd.thy ===== *)
theory Etcd
  imports Router JsonRoundTrip
begin

text \<open>
  The etcd side of \<open>src/src/etcd.go\<close>: the key ranges, loading both tables at startup and the
  two watch loops of multi-instance mode. The replies of the gateway are inputs: the body of a
  range reply, and for a watch the outcome of each connection with the body it delivers. Bodies are decoded with the models of \<open>encoding/json\<close> and \<open>encoding/base64\<close>. A call
  of \<open>logFatal\<close> ends the process, which is the result \<open>None\<close> of \<open>loadFromEtcd\<close>.
\<close>

section \<open>Ranges and revisions\<close>

fun prefixRangeEnd_loop :: "nat \<Rightarrow> byte list \<Rightarrow> byte list" where
  "prefixRangeEnd_loop 0 end' = [0]"
| "prefixRangeEnd_loop (Suc i) end' =
     (if end' ! i < 0xff then take (i + 1) (end'[i := end' ! i + 1]) else prefixRangeEnd_loop i end')"

definition prefixRangeEnd :: "byte list \<Rightarrow> byte list" where
  "prefixRangeEnd prefix = prefixRangeEnd_loop (length prefix) prefix"

definition updateRevision :: "int64 \<Rightarrow> server \<Rightarrow> server" where
  "updateRevision rvn st = (if rvn > gEtcdRevision st then st\<lparr>gEtcdRevision := rvn\<rparr> else st)"

definition ipFromKey :: "string \<Rightarrow> string" where
  "ipFromKey key =
     (let parts = split_on CHR ''/'' key in
      if length parts < 4 then []
      else
        let ip = join_with ''.'' (drop (length parts - 4) parts)
        in if ParseIP ip \<noteq> None then ip else [])"

section \<open>Decoding\<close>

definition b64d :: "string \<Rightarrow> string" where
  "b64d s = base64_decode s"

definition parseInt64 :: "string \<Rightarrow> int64" where
  "parseInt64 s = fst (ParseInt s)"

definition zero_BlockRecord :: BlockRecord where
  "zero_BlockRecord =
     \<lparr>br_Version = 0, br_TTL = 0, br_Host = [], br_Source = [], br_Scenario = [], br_Action = [],
      br_FirstSeen = 0, br_LastSeen = 0, br_Expiration = 0, br_CreateRevision = 0, br_ModRevision = 0\<rparr>"

definition store_BlockRecord :: "string \<Rightarrow> jvalue \<Rightarrow> BlockRecord \<Rightarrow> BlockRecord \<times> bool" where
  "store_BlockRecord key v r =
     (if key_matches key ''v'' then apfst (\<lambda>x. r\<lparr>br_Version := x\<rparr>) (store_int v (br_Version r))
      else if key_matches key ''ttl'' then apfst (\<lambda>x. r\<lparr>br_TTL := x\<rparr>) (store_int v (br_TTL r))
      else if key_matches key ''host'' then apfst (\<lambda>x. r\<lparr>br_Host := x\<rparr>) (store_string v (br_Host r))
      else if key_matches key ''source'' then apfst (\<lambda>x. r\<lparr>br_Source := x\<rparr>) (store_string v (br_Source r))
      else if key_matches key ''scenario'' then apfst (\<lambda>x. r\<lparr>br_Scenario := x\<rparr>) (store_string v (br_Scenario r))
      else if key_matches key ''action'' then apfst (\<lambda>x. r\<lparr>br_Action := x\<rparr>) (store_string v (br_Action r))
      else if key_matches key ''first_seen'' then apfst (\<lambda>x. r\<lparr>br_FirstSeen := x\<rparr>) (store_int v (br_FirstSeen r))
      else if key_matches key ''last_seen'' then apfst (\<lambda>x. r\<lparr>br_LastSeen := x\<rparr>) (store_int v (br_LastSeen r))
      else if key_matches key ''expiration'' then apfst (\<lambda>x. r\<lparr>br_Expiration := x\<rparr>) (store_int v (br_Expiration r))
      else (r, False))"

text \<open>A slice of structs: every element starts from the zero value.\<close>

definition store_slice ::
  "(string \<Rightarrow> jvalue \<Rightarrow> 'r \<Rightarrow> 'r \<times> bool) \<Rightarrow> 'r \<Rightarrow> jvalue \<Rightarrow> 'r list \<Rightarrow> 'r list \<times> bool" where
  "store_slice store zero v old =
     (case v of
        VArr vs \<Rightarrow> (let rs = map (\<lambda>v. store_struct store v zero) vs in (map fst rs, list_ex snd rs))
      | VNull \<Rightarrow> ([], False)
      | _ \<Rightarrow> (old, True))"

record EtcdKV =
  kv_Key :: string
  kv_Value :: string
  kv_CreateRevision :: string
  kv_ModRevision :: string
  kv_Version :: string

definition zero_EtcdKV :: EtcdKV where
  "zero_EtcdKV = \<lparr>kv_Key = [], kv_Value = [], kv_CreateRevision = [], kv_ModRevision = [], kv_Version = []\<rparr>"

definition store_EtcdKV :: "string \<Rightarrow> jvalue \<Rightarrow> EtcdKV \<Rightarrow> EtcdKV \<times> bool" where
  "store_EtcdKV key v r =
     (if key_matches key ''key'' then apfst (\<lambda>x. r\<lparr>kv_Key := x\<rparr>) (store_string v (kv_Key r))
      else if key_matches key ''value'' then apfst (\<lambda>x. r\<lparr>kv_Value := x\<rparr>) (store_string v (kv_Value r))
      else if key_matches key ''create_revision''
        then apfst (\<lambda>x. r\<lparr>kv_CreateRevision := x\<rparr>) (store_string v (kv_CreateRevision r))
      else if key_matches key ''mod_revision''
        then apfst (\<lambda>x. r\<lparr>kv_ModRevision := x\<rparr>) (store_string v (kv_ModRevision r))
      else if key_matches key ''version'' then apfst (\<lambda>x. r\<lparr>kv_Version := x\<rparr>) (store_string v (kv_Version r))
      else (r, False))"

definition store_header :: "string \<Rightarrow> jvalue \<Rightarrow> string \<Rightarrow> string \<times> bool" where
  "store_header key v r = (if key_matches key ''revision'' then store_string v r else (r, False))"

record range_response =
  rr_Revision :: string
  rr_Kvs :: "EtcdKV list"

definition store_range_response :: "string \<Rightarrow> jvalue \<Rightarrow> range_response \<Rightarrow> range_response \<times> bool" where
  "store_range_response key v r =
     (if key_matches key ''header''
      then apfst (\<lambda>x. r\<lparr>rr_Revision := x\<rparr>) (store_struct store_header v (rr_Revision r))
      else if key_matches key ''kvs''
      then apfst (\<lambda>x. r\<lparr>rr_Kvs := x\<rparr>) (store_slice store_EtcdKV zero_EtcdKV v (rr_Kvs r))
      else (r, False))"

section \<open>Loading\<close>

text \<open>\<open>etcdRange\<close>: the request it posts, and what it makes of the reply (\<open>None\<close> when the post
  fails). Errors of the decoder are dropped.\<close>

definition etcdRange_request :: "string \<Rightarrow> etcd_request" where
  "etcdRange_request prefix =
     EtcdRequest ''/v3/kv/range''
       (JObj [(''key'', JStr (b64 prefix)), (''range_end'', JStr (b64 (prefix @ [CHR 0xFF])))])"

definition etcdRange :: "string option \<Rightarrow> (EtcdKV list \<times> int64) option" where
  "etcdRange reply =
     map_option (\<lambda>raw.
       let r = fst (Unmarshal store_range_response raw \<lparr>rr_Revision = [], rr_Kvs = []\<rparr>)
       in (rr_Kvs r, fst (ParseInt (rr_Revision r)))) reply"

definition record_entry :: "string \<Rightarrow> BlockRecord \<Rightarrow> int64 \<Rightarrow> int64 \<Rightarrow> BlockEntry" where
  "record_entry ip rec createRevision modRevision =
     \<lparr>be_IP = ip, be_Source = br_Source rec, be_Scenario = br_Scenario rec, be_Action = br_Action rec,
      be_CreateRevision = createRevision, be_ModRevision = modRevision,
      be_FirstSeen = br_FirstSeen rec, be_LastSeen = br_LastSeen rec, be_Expiration = br_Expiration rec,
      be_ReturnCode = IPv4StrToUint32 (br_Host rec)\<rparr>"

definition record_cidr_entry :: "string \<Rightarrow> IPNet \<Rightarrow> BlockRecord \<Rightarrow> CIDREntry" where
  "record_cidr_entry cidr network rec =
     \<lparr>ce_CIDR = cidr, ce_Net = network, ce_Source = br_Source rec, ce_Scenario = br_Scenario rec,
      ce_Action = br_Action rec, ce_ReturnCode = IPv4StrToUint32 (br_Host rec),
      ce_FirstSeen = br_FirstSeen rec, ce_LastSeen = br_LastSeen rec, ce_Expiration = br_Expiration rec\<rparr>"

definition load_kv :: "EtcdKV \<Rightarrow> server \<Rightarrow> server" where
  "load_kv kv st =
     (let key = b64d (kv_Key kv);
          val = b64d (kv_Value kv);
          rec = fst (Unmarshal store_BlockRecord val zero_BlockRecord);
          parts = split_on CHR ''/'' key;
          n = length parts
      in if n < 4 then st
         else
           let ip = parts ! (n - 4) @ ''.'' @ parts ! (n - 3) @ ''.'' @ parts ! (n - 2) @ ''.'' @ parts ! (n - 1)
           in ipTable_store (record_entry ip rec (parseInt64 (kv_CreateRevision kv)) (parseInt64 (kv_ModRevision kv))) st)"

definition loadFromEtcd :: "string option \<Rightarrow> server \<Rightarrow> server option" where
  "loadFromEtcd reply st =
     (let st = send_etcd (etcdRange_request rblPrefixScan) st in
      case etcdRange reply of
        None \<Rightarrow> None
      | Some (kvs, revision) \<Rightarrow>
          let st = st\<lparr>gEtcdRevision := revision\<rparr>;
              st = log_call (LogMsg LOG_INFO ''Loading Etcd revision: %d'') st;
              st = fold load_kv kvs st
          in Some (log_call (LogMsg LOG_INFO ''Loaded entries from etcd: %d (last revision: %d)'') st))"

definition load_cidr_kv :: "EtcdKV \<Rightarrow> server \<Rightarrow> server" where
  "load_cidr_kv kv st =
     (let key = b64d (kv_Key kv);
          val = b64d (kv_Value kv);
          cidr = cidrFromEtcdKey key
      in if cidr = [] then st
         else case Unmarshal store_BlockRecord val zero_BlockRecord of
           (rec, err) \<Rightarrow>
             if err then log_call (LogMsg LOG_ERROR ''CIDR etcd decode failed for %s: %v'') st
             else (case ParseCIDR cidr of
                     None \<Rightarrow> log_call (LogMsg LOG_ERROR ''Invalid CIDR in etcd %s: %v'') st
                   | Some network \<Rightarrow> cidrTable_upsert (record_cidr_entry cidr network rec) st))"

definition loadCIDRFromEtcd :: "string option \<Rightarrow> server \<Rightarrow> server" where
  "loadCIDRFromEtcd reply st =
     (let st = send_etcd (etcdRange_request cidrPrefixScan) st in
      case etcdRange reply of
        None \<Rightarrow> log_call (LogMsg LOG_ERROR ''CIDR load from etcd failed: %v'') st
      | Some (kvs, _) \<Rightarrow>
          log_call (LogMsg LOG_INFO ''Loaded CIDR entries from etcd: %d'') (fold load_cidr_kv kvs st))"

section \<open>Watching\<close>

record watchEvent =
  ev_Type :: string
  ev_Key :: string
  ev_Value :: string
  ev_CreateRevision :: int64
  ev_ModRevision :: int64
  ev_Version :: int64

record watchResponse =
  wr_Revision :: string
  wr_Events :: "watchEvent list"
  wr_Created :: bool
  wr_Canceled :: bool

definition zero_watchEvent :: watchEvent where
  "zero_watchEvent =
     \<lparr>ev_Type = [], ev_Key = [], ev_Value = [], ev_CreateRevision = 0, ev_ModRevision = 0, ev_Version = 0\<rparr>"

definition store_kv :: "string \<Rightarrow> jvalue \<Rightarrow> watchEvent \<Rightarrow> watchEvent \<times> bool" where
  "store_kv key v r =
     (if key_matches key ''key'' then apfst (\<lambda>x. r\<lparr>ev_Key := x\<rparr>) (store_string v (ev_Key r))
      else if key_matches key ''value'' then apfst (\<lambda>x. r\<lparr>ev_Value := x\<rparr>) (store_string v (ev_Value r))
      else if key_matches key ''create_revision''
        then apfst (\<lambda>x. r\<lparr>ev_CreateRevision := x\<rparr>) (store_quoted_int v (ev_CreateRevision r))
      else if key_matches key ''mod_revision''
        then apfst (\<lambda>x. r\<lparr>ev_ModRevision := x\<rparr>) (store_quoted_int v (ev_ModRevision r))
      else if key_matches key ''version''
        then apfst (\<lambda>x. r\<lparr>ev_Version := x\<rparr>) (store_quoted_int v (ev_Version r))
      else (r, False))"

definition store_watchEvent :: "string \<Rightarrow> jvalue \<Rightarrow> watchEvent \<Rightarrow> watchEvent \<times> bool" where
  "store_watchEvent key v r =
     (if key_matches key ''type'' then apfst (\<lambda>x. r\<lparr>ev_Type := x\<rparr>) (store_string v (ev_Type r))
      else if key_matches key ''kv'' then store_struct store_kv v r
      else (r, False))"

definition store_result :: "string \<Rightarrow> jvalue \<Rightarrow> watchResponse \<Rightarrow> watchResponse \<times> bool" where
  "store_result key v r =
     (if key_matches key ''header''
      then apfst (\<lambda>x. r\<lparr>wr_Revision := x\<rparr>) (store_struct store_header v (wr_Revision r))
      else if key_matches key ''events''
      then apfst (\<lambda>x. r\<lparr>wr_Events := x\<rparr>) (store_slice store_watchEvent zero_watchEvent v (wr_Events r))
      else if key_matches key ''created'' then apfst (\<lambda>x. r\<lparr>wr_Created := x\<rparr>) (store_bool v (wr_Created r))
      else if key_matches key ''canceled'' then apfst (\<lambda>x. r\<lparr>wr_Canceled := x\<rparr>) (store_bool v (wr_Canceled r))
      else (r, False))"

definition store_watchResponse :: "string \<Rightarrow> jvalue \<Rightarrow> watchResponse \<Rightarrow> watchResponse \<times> bool" where
  "store_watchResponse key v r =
     (if key_matches key ''result'' then store_struct store_result v r else (r, False))"

definition zero_watchResponse :: watchResponse where
  "zero_watchResponse = \<lparr>wr_Revision = [], wr_Events = [], wr_Created = False, wr_Canceled = False\<rparr>"

definition watch_event :: "watchEvent \<Rightarrow> server \<Rightarrow> server" where
  "watch_event ev st =
     (let ip = ipFromKey (base64_decode (ev_Key ev)) in
      if ip = [] then log_call (LogMsg LOG_ERROR ''No IP address found'') st
      else if ev_Type ev = ''DELETE'' then
        ipTable_delete ip (log_call (LogMsg LOG_INFO ''Delete event received for: %v'') st)
      else
        let st = log_call (LogMsg LOG_INFO ''Update event received for: %v'') st in
        case Unmarshal store_BlockRecord (base64_decode (ev_Value ev)) zero_BlockRecord of
          (rec, err) \<Rightarrow>
            if err then log_call (LogMsg LOG_ERROR ''JSON decode of value failed: %v'') st
            else if ParseIP ip = None then log_call (LogMsg LOG_ERROR ''Cannot parse IP address'') st
            else
              ipTable_store (record_entry ip rec (ev_CreateRevision ev) (ev_ModRevision ev))
                (log_call (LogMsg LOG_INFO ''Entry received: %v'') st))"

definition watch_revision :: "string \<Rightarrow> server \<Rightarrow> server" where
  "watch_revision rvn st =
     (if rvn = [] then st
      else case ParseInt rvn of
        (newRev, err) \<Rightarrow>
          if err then st
          else if newRev > gEtcdRevision st then
            log_call (LogMsg LOG_INFO ''Revision updated: %d -> %d'') (st\<lparr>gEtcdRevision := newRev\<rparr>)
          else st)"

definition watch_line :: "string \<Rightarrow> server \<Rightarrow> server" where
  "watch_line line st =
     (case Unmarshal store_watchResponse line zero_watchResponse of
        (msg, err) \<Rightarrow>
          if err then log_call (LogMsg LOG_ERROR ''JSON Unmarshal failed: %v'') st
          else fold watch_event (wr_Events msg) (watch_revision (wr_Revision msg) st))"

definition string_bytes :: "string \<Rightarrow> byte list" where
  "string_bytes s = map (\<lambda>c. of_nat (of_char c)) s"

definition bytes_string :: "byte list \<Rightarrow> string" where
  "bytes_string bs = map (\<lambda>b. char_of (unat b)) bs"

definition watch_request :: "string \<Rightarrow> int64 \<Rightarrow> etcd_request" where
  "watch_request prefix rvn =
     (let create = [(''key'', JStr (base64_encode prefix)),
                    (''range_end'', JStr (base64_encode (bytes_string (prefixRangeEnd (string_bytes prefix)))))];
          create = (if rvn > 0 then create @ [(''start_revision'', JInt (wrap64 (rvn + 1)))] else create)
      in EtcdRequest ''/v3/watch'' (JObj [(''create_request'', json_map create)]))"

text \<open>\<open>bufio.Scanner\<close> with a buffer of the given size: the lines of the body without their line
  ends, and whether a line did not fit. The lines before it are delivered. The watchers use a
  buffer of one megabyte.\<close>

definition maxTokenSize :: nat where
  "maxTokenSize = 1024 * 1024"

definition dropCR :: "string \<Rightarrow> string" where
  "dropCR l = (if l \<noteq> [] \<and> last l = CHR 0x0D then butlast l else l)"

lemma dropWhile_shorter: "dropWhile P xs = y # ys \<Longrightarrow> length ys < length xs"
  using length_dropWhile_le [of P xs] by simp

function scan_lines :: "nat \<Rightarrow> string \<Rightarrow> string list \<times> bool" where
  "scan_lines limit [] = ([], False)"
| "scan_lines limit (c # cs) =
     (let l = takeWhile (\<lambda>x. x \<noteq> CHR 0x0A) (c # cs) in
      if length l \<ge> limit then ([], True)
      else case dropWhile (\<lambda>x. x \<noteq> CHR 0x0A) (c # cs) of
             [] \<Rightarrow> ([dropCR l], False)
           | _ # rest \<Rightarrow> apfst ((#) (dropCR l)) (scan_lines limit rest))"
  by pat_completeness auto
termination
  by (relation "measure (length \<circ> snd)") (auto dest: dropWhile_shorter split: if_splits)

text \<open>What one attempt of a watch loop meets: the request cannot be built, the connection
  fails, or it is served with a body, whose reading may end in an error.\<close>

datatype watch_connection =
    RequestFailed
  | ConnectFailed
  | Connected string bool

text \<open>One round of \<open>watchLoop\<close> and the loop on a list of connections.\<close>

definition watch_round :: "watch_connection \<Rightarrow> server \<Rightarrow> server" where
  "watch_round conn st =
     (let rvn = gEtcdRevision st;
          st = (if rvn > 0 then log_call (LogMsg LOG_VERBOSE ''Starting watch from revision: %d'') st else st)
      in case conn of
           RequestFailed \<Rightarrow> log_call (LogMsg LOG_ERROR ''Watch request creation failed: %v'') st
         | ConnectFailed \<Rightarrow>
             log_call (LogMsg LOG_ERROR ''Etcd watch connect failed: %v'') (send_etcd (watch_request rblPrefix rvn) st)
         | Connected body err \<Rightarrow>
             (let st = send_etcd (watch_request rblPrefix rvn) st;
                  st = log_call (LogMsg LOG_INFO ''Etcd watch connected'') st;
                  (lines, tooLong) = scan_lines maxTokenSize body;
                  st = fold watch_line lines st;
                  st = (if tooLong \<or> err then log_call (LogMsg LOG_ERROR ''Watch scanner error: %v'') st else st)
              in log_call (LogMsg LOG_ERROR ''Watch connection closed, reconnecting'') st))"

definition watchLoop :: "watch_connection list \<Rightarrow> server \<Rightarrow> server" where
  "watchLoop conns st =
     fold watch_round conns (log_call (LogMsg LOG_VERBOSE ''Watching for events for prefix: %s, key: %s'') st)"

definition cidr_watch_event :: "watchEvent \<Rightarrow> server \<Rightarrow> server" where
  "cidr_watch_event ev st =
     (let cidr = cidrFromEtcdKey (base64_decode (ev_Key ev)) in
      if cidr = [] then log_call (LogMsg LOG_ERROR ''CIDR watch: cannot extract CIDR from key %s'') st
      else if ev_Type ev = ''DELETE'' then
        log_call (LogMsg LOG_INFO ''CIDR delete event: %s'') (cidrTable_remove cidr st)
      else
        case Unmarshal store_BlockRecord (base64_decode (ev_Value ev)) zero_BlockRecord of
          (rec, err) \<Rightarrow>
            if err then log_call (LogMsg LOG_ERROR ''CIDR watch: JSON decode failed: %v'') st
            else (case ParseCIDR cidr of
                    None \<Rightarrow> log_call (LogMsg LOG_ERROR ''CIDR watch: invalid CIDR %s: %v'') st
                  | Some network \<Rightarrow>
                      log_call (LogMsg LOG_INFO ''CIDR update event: %s'')
                        (cidrTable_upsert (record_cidr_entry cidr network rec) st)))"

definition cidr_watch_line :: "string \<Rightarrow> server \<Rightarrow> server" where
  "cidr_watch_line line st =
     (case Unmarshal store_watchResponse line zero_watchResponse of
        (msg, err) \<Rightarrow>
          if err then log_call (LogMsg LOG_ERROR ''CIDR watch JSON decode failed: %v'') st
          else
            let st = (if wr_Revision msg = [] then st
                      else case ParseInt (wr_Revision msg) of
                        (newRev, err) \<Rightarrow> if err then st else updateRevision newRev st)
            in fold cidr_watch_event (wr_Events msg) st)"

definition cidr_watch_round :: "watch_connection \<Rightarrow> server \<Rightarrow> server" where
  "cidr_watch_round conn st =
     (let rvn = gEtcdRevision st
      in case conn of
           RequestFailed \<Rightarrow> log_call (LogMsg LOG_ERROR ''CIDR watch request failed: %v'') st
         | ConnectFailed \<Rightarrow>
             log_call (LogMsg LOG_ERROR ''CIDR watch connect failed: %v'') (send_etcd (watch_request cidrPrefix rvn) st)
         | Connected body err \<Rightarrow>
             (let st = send_etcd (watch_request cidrPrefix rvn) st;
                  st = log_call (LogMsg LOG_INFO ''CIDR watch connected'') st;
                  (lines, tooLong) = scan_lines maxTokenSize body;
                  st = fold cidr_watch_line lines st;
                  st = (if tooLong \<or> err then log_call (LogMsg LOG_ERROR ''CIDR watch scanner error: %v'') st else st)
              in log_call (LogMsg LOG_ERROR ''CIDR watch connection closed, reconnecting'') st))"

definition cidrWatchLoop :: "watch_connection list \<Rightarrow> server \<Rightarrow> server" where
  "cidrWatchLoop conns st =
     fold cidr_watch_round conns (log_call (LogMsg LOG_VERBOSE ''Watching CIDR events for prefix: %s'') st)"

end
