(* ===== verification/EtcdProps.thy ===== *)
theory EtcdProps
  imports Etcd
begin

text \<open>
  What the etcd side promises: the watched key range is exactly the keys with the prefix, the
  revision never goes back, the tables stay well formed, and a record that one instance writes
  is the record another instance stores.
\<close>

section \<open>The key range of a prefix\<close>

lemma less_list_append: "(p :: byte list) @ t < p @ u \<longleftrightarrow> t < u"
  by (induction p) simp_all

lemma le_list_append_left: "(p :: byte list) \<le> p @ t"
  by (induction p) simp_all

lemma byte_less_Suc: "(b :: byte) < 0xff \<Longrightarrow> x < b + 1 \<longleftrightarrow> x \<le> b"
  by (simp add: word_less_nat_alt word_le_nat_alt unat_word_ariths less_Suc_eq_le)

lemma byte_not_less_ff: "\<not> (b :: byte) < 0xff \<Longrightarrow> b = 0xff"
  using unat_byte_le [of b] by (simp add: word_less_nat_alt word_unat_eq_iff)

text \<open>The loop stops at the last byte below \<open>0xff\<close>.\<close>

lemma prefixRangeEnd_loop_split:
  "i \<le> length p \<Longrightarrow> \<exists>j<i. p ! j < 0xff \<Longrightarrow>
   \<exists>q b m. take i p = q @ b # replicate m 0xff \<and> b < 0xff \<and> prefixRangeEnd_loop i p = q @ [b + 1]"
proof (induction i)
  case (Suc i)
  show ?case
  proof (cases "p ! i < 0xff")
    case True
    have "take (Suc i) p = take i p @ p ! i # replicate 0 0xff"
      using Suc.prems(1) by (simp add: take_Suc_conv_app_nth)
    moreover have "prefixRangeEnd_loop (Suc i) p = take i p @ [p ! i + 1]"
      using True Suc.prems(1) by (simp add: take_Suc_conv_app_nth)
    ultimately show ?thesis using True by blast
  next
    case False
    then have "\<exists>j<i. p ! j < 0xff" using Suc.prems(2) less_Suc_eq by metis
    then obtain q b m where IH: "take i p = q @ b # replicate m 0xff" "b < 0xff" "prefixRangeEnd_loop i p = q @ [b + 1]"
      using Suc.IH Suc.prems(1) by auto
    have "p ! i = 0xff"
      using False by (rule byte_not_less_ff)
    then have "take (Suc i) p = q @ b # replicate (Suc m) 0xff"
      using IH(1) Suc.prems(1) by (simp add: take_Suc_conv_app_nth replicate_append_same)
    moreover have "prefixRangeEnd_loop (Suc i) p = q @ [b + 1]" using IH(3) False by simp
    ultimately show ?thesis using IH(2) by blast
  qed
qed simp

lemma ones_prefix: "replicate m (0xff :: byte) \<le> k \<Longrightarrow> \<exists>t. k = replicate m 0xff @ t"
proof (induction m arbitrary: k)
  case (Suc m)
  then obtain z zs where k: "k = z # zs" by (cases k) auto
  with Suc.prems have "z = 0xff" "replicate m 0xff \<le> zs"
    using byte_not_less_ff [of z] unat_byte_le [of z] by (auto simp: word_less_nat_alt)
  with Suc.IH k show ?case by auto
qed simp

lemma range_prefix:
  assumes "b < 0xff" "q @ b # replicate m 0xff \<le> k" "k < q @ [b + 1 :: byte]"
  shows "\<exists>t. k = (q @ b # replicate m 0xff) @ t"
  using assms
proof (induction q arbitrary: k)
  case Nil
  then obtain y ys where k: "k = y # ys" by (cases k) auto
  with Nil.prems have "y < b + 1" by auto
  then have "y \<le> b" using Nil.prems(1) by (simp add: byte_less_Suc)
  with k Nil.prems(2) have "y = b" "replicate m 0xff \<le> ys" by auto
  with k ones_prefix show ?case by auto
next
  case (Cons x q)
  then obtain y ys where k: "k = y # ys" by (cases k) auto
  with Cons.prems have "y = x" "q @ b # replicate m 0xff \<le> ys" "ys < q @ [b + 1]" by auto
  with Cons.IH [OF Cons.prems(1)] k show ?case by auto
qed

lemma prefix_in_range:
  assumes "b < (0xff :: byte)"
  shows "q @ b # ones \<le> (q @ b # ones) @ t" "(q @ b # ones) @ t < q @ [b + 1]"
proof -
  show "q @ b # ones \<le> (q @ b # ones) @ t" by (rule le_list_append_left)
  have "b < b + 1" using assms by (simp add: byte_less_Suc)
  then show "(q @ b # ones) @ t < q @ [b + 1]" by (simp add: less_list_append)
qed

section \<open>Properties of ranges and revisions\<close>

text \<open>C24: The watch requests cover exactly the prefix. For a prefix with some byte below
  \<open>0xff\<close>, the half-open range from the prefix to \<open>prefixRangeEnd\<close> of it, in the byte order of
  etcd, contains a key if and only if the key starts with the prefix.\<close>

theorem prefix_range_exact:
  assumes "\<exists>b \<in> set prefix. b < 0xff"
  shows "prefix \<le> key \<and> key < prefixRangeEnd prefix \<longleftrightarrow> (\<exists>t. key = prefix @ t)"
proof -
  have "\<exists>j<length prefix. prefix ! j < 0xff" using assms by (auto simp: in_set_conv_nth)
  then obtain q b m where "prefix = q @ b # replicate m 0xff" "b < 0xff" "prefixRangeEnd prefix = q @ [b + 1]"
    using prefixRangeEnd_loop_split [of "length prefix" prefix] by (auto simp: prefixRangeEnd_def)
  then show ?thesis using range_prefix [of b q m key] prefix_in_range [of b q "replicate m 0xff"] by auto
qed

theorem prefix_range_exact_witness:
  "(string_bytes rblPrefix \<le> string_bytes rblPrefixScan \<and>
    string_bytes rblPrefixScan < prefixRangeEnd (string_bytes rblPrefix)) \<longleftrightarrow>
   (\<exists>t. string_bytes rblPrefixScan = string_bytes rblPrefix @ t)"
  by (rule prefix_range_exact) (simp add: string_bytes_def rblPrefix_def SKY_DNS_PREFIX_def)

section \<open>The record format\<close>

text \<open>The field names are different under case folding.\<close>

lemma fold_name_fields:
  "fold_name ''v'' = ''V''" "fold_name ''ttl'' = ''TTL''" "fold_name ''host'' = ''HOST''"
  "fold_name ''source'' = ''SOURCE''" "fold_name ''scenario'' = ''SCENARIO''" "fold_name ''action'' = ''ACTION''"
  "fold_name ''first_seen'' = ''FIRST_SEEN''" "fold_name ''last_seen'' = ''LAST_SEEN''"
  "fold_name ''expiration'' = ''EXPIRATION''"
  by (simp_all add: char_of_def bit_iff_odd)

lemma store_fields_append:
  "store_fields store (xs @ ys) acc = store_fields store ys (store_fields store xs acc)"
  by (simp add: store_fields_def)

lemma store_fields_single:
  "store_fields store [(k, v)] (r, err) = (case store k v r of (r', e) \<Rightarrow> (r', err \<or> e))"
  "store_fields store [] acc = acc"
  by (simp_all add: store_fields_def)

lemma store_int_dec: "int64_range i \<Longrightarrow> store_int (VNum (dec_int i)) old = (i, False)"
  by (simp add: store_int_def ParseInt_dec_int)

abbreviation jfields :: "(string \<times> json) list \<Rightarrow> (string \<times> jvalue) list" where
  "jfields \<equiv> map (\<lambda>(k, v). (k, jvalue_of v))"

text \<open>A field left out by \<open>omitempty\<close> has its zero value already.\<close>

lemma store_omit_int:
  assumes "int64_range i" "store k (VNum (dec_int i)) r = (set_field i, False)" "set_field 0 = r"
  shows "store_fields store (jfields (omit_int k i)) (r, False) = (set_field i, False)"
  using assms by (simp add: omit_int_def store_fields_single)

lemma store_omit_str:
  assumes "store k (VStr s) r = (set_field s, False)" "set_field [] = r"
  shows "store_fields store (jfields (omit_str k s)) (r, False) = (set_field s, False)"
  using assms by (simp add: omit_str_def store_fields_single)

definition record_ok :: "BlockRecord \<Rightarrow> bool" where
  "record_ok r \<longleftrightarrow>
     valid_utf8 (br_Host r) \<and> valid_utf8 (br_Source r) \<and> valid_utf8 (br_Scenario r) \<and> valid_utf8 (br_Action r) \<and>
     int64_range (br_Version r) \<and> int64_range (br_TTL r) \<and> int64_range (br_FirstSeen r) \<and>
     int64_range (br_LastSeen r) \<and> int64_range (br_Expiration r) \<and>
     br_CreateRevision r = 0 \<and> br_ModRevision r = 0"

lemma valid_utf8_names:
  "valid_utf8 ''v''" "valid_utf8 ''ttl''" "valid_utf8 ''host''" "valid_utf8 ''source''" "valid_utf8 ''scenario''"
  "valid_utf8 ''action''" "valid_utf8 ''first_seen''" "valid_utf8 ''last_seen''" "valid_utf8 ''expiration''"
  by simp_all

lemma valid_BlockRecord_json: "record_ok r \<Longrightarrow> valid_json (BlockRecord_json r)"
  by (simp add: BlockRecord_json_def record_ok_def omit_int_def omit_str_def del: valid_utf8.simps
      add: valid_utf8_names)

lemma Unmarshal_BlockRecord:
  assumes "record_ok r"
  shows "Unmarshal store_BlockRecord (json_encode (BlockRecord_json r)) zero_BlockRecord = (r, False)"
proof -
  note ok = assms [unfolded record_ok_def]
  note s = store_BlockRecord_def key_matches_def fold_name_fields store_int_dec store_string_def
  let ?st = "store_fields store_BlockRecord"
  have 1: "?st [(''v'', VNum (dec_int (br_Version r)))] (zero_BlockRecord, False) =
      (zero_BlockRecord\<lparr>br_Version := br_Version r\<rparr>, False)" (is "_ = (?r1, _)")
    using ok by (simp add: store_fields_single s)
  have 2: "?st (jfields (omit_int ''ttl'' (br_TTL r))) (?r1, False) = (?r1\<lparr>br_TTL := br_TTL r\<rparr>, False)" (is "_ = (?r2, _)")
    using ok by (intro store_omit_int) (simp_all add: s zero_BlockRecord_def)
  have 3: "?st (jfields (omit_str ''host'' (br_Host r))) (?r2, False) = (?r2\<lparr>br_Host := br_Host r\<rparr>, False)" (is "_ = (?r3, _)")
    by (intro store_omit_str) (simp_all add: s zero_BlockRecord_def)
  have 4: "?st (jfields (omit_str ''source'' (br_Source r))) (?r3, False) = (?r3\<lparr>br_Source := br_Source r\<rparr>, False)" (is "_ = (?r4, _)")
    by (intro store_omit_str) (simp_all add: s zero_BlockRecord_def)
  have 5: "?st (jfields (omit_str ''scenario'' (br_Scenario r))) (?r4, False) = (?r4\<lparr>br_Scenario := br_Scenario r\<rparr>, False)" (is "_ = (?r5, _)")
    by (intro store_omit_str) (simp_all add: s zero_BlockRecord_def)
  have 6: "?st (jfields (omit_str ''action'' (br_Action r))) (?r5, False) = (?r5\<lparr>br_Action := br_Action r\<rparr>, False)" (is "_ = (?r6, _)")
    by (intro store_omit_str) (simp_all add: s zero_BlockRecord_def)
  have 7: "?st (jfields (omit_int ''first_seen'' (br_FirstSeen r))) (?r6, False) = (?r6\<lparr>br_FirstSeen := br_FirstSeen r\<rparr>, False)" (is "_ = (?r7, _)")
    using ok by (intro store_omit_int) (simp_all add: s zero_BlockRecord_def)
  have 8: "?st (jfields (omit_int ''last_seen'' (br_LastSeen r))) (?r7, False) = (?r7\<lparr>br_LastSeen := br_LastSeen r\<rparr>, False)" (is "_ = (?r8, _)")
    using ok by (intro store_omit_int) (simp_all add: s zero_BlockRecord_def)
  have 9: "?st (jfields (omit_int ''expiration'' (br_Expiration r))) (?r8, False) = (?r8\<lparr>br_Expiration := br_Expiration r\<rparr>, False)" (is "_ = (?r9, _)")
    using ok by (intro store_omit_int) (simp_all add: s zero_BlockRecord_def)
  have "?r9 = r" using ok by (simp add: zero_BlockRecord_def)
  moreover have "Unmarshal store_BlockRecord (json_encode (BlockRecord_json r)) zero_BlockRecord = (?r9, False)"
    using json_parse_encode [OF valid_BlockRecord_json [OF assms]] 1
    by (simp only: Unmarshal_def option.case BlockRecord_json_def jvalue_of.simps store_struct_def jvalue.case
        map_append list.map prod.case store_fields_append 2 3 4 5 6 7 8 9)
  ultimately show ?thesis by simp
qed

section \<open>Keys of events\<close>

text \<open>The last four segments of a key under the prefix.\<close>

lemma split_rblKey:
  assumes "length ip = 16"
  shows "split_on CHR ''/'' (rblKey ip) = [[], ''skydns'', ''internal'', ''open-blocklist''] @ ip_parts ip"
proof -
  have ne: "ip_parts ip \<noteq> []" using ip_parts_nonempty [OF assms] .
  have "rblKey ip = join_with ''/'' ([[], ''skydns'', ''internal'', ''open-blocklist''] @ ip_parts ip)"
    using ne by (simp add: rblKey_parts [OF assms] rblPrefixScan_def rblPrefix_def SKY_DNS_PREFIX_def RBL_ZONE_def
        join_with_append join_with_Cons)
  moreover have "split_on CHR ''/'' (join_with ''/'' ([[], ''skydns'', ''internal'', ''open-blocklist''] @ ip_parts ip)) =
      [[], ''skydns'', ''internal'', ''open-blocklist''] @ ip_parts ip"
    using ip_parts_no_slash [OF assms] by (intro split_on_join) auto
  ultimately show ?thesis by simp
qed

lemma ip_parts_v4_text:
  "length p = 4 \<Longrightarrow> join_with ''.'' (ip_parts (v4InV6Prefix @ p)) = string4 p"
  by (simp add: ip_parts_v4 string4_def)

lemma ipFromKey_v4:
  assumes "length p = 4"
  shows "ipFromKey (rblKey (v4InV6Prefix @ p)) = string4 p"
proof -
  have l: "length (v4InV6Prefix @ p) = 16" using assms by simp
  have "length (ip_parts (v4InV6Prefix @ p)) = 4" using length_ip_parts [OF l] assms by simp
  then show ?thesis
    using ParseIP_string4 [OF assms] ip_parts_v4_text [OF assms]
    by (simp add: ipFromKey_def split_rblKey [OF l] Let_def)
qed

lemma string4_nonempty: "p \<noteq> [] \<Longrightarrow> string4 p \<noteq> []"
  by (cases p; cases "tl p") (auto simp: string4_def join_with_Cons)

text \<open>An update event with a well-formed record stores exactly that record.\<close>

lemma watch_event_put:
  assumes p: "length p = 4" and rec: "record_ok rec" and t: "ev_Type ev \<noteq> ''DELETE''"
    and k: "ev_Key ev = b64 (rblKey (v4InV6Prefix @ p))" and v: "ev_Value ev = b64 (json_encode (BlockRecord_json rec))"
  shows "ipTable (watch_event ev st) =
    ip_put (record_entry (string4 p) rec (ev_CreateRevision ev) (ev_ModRevision ev)) (ipTable st)"
proof -
  have "string4 p \<noteq> []" using p by (intro string4_nonempty) auto
  then show ?thesis
    using Unmarshal_BlockRecord [OF rec] ParseIP_string4 [OF p] t
    by (simp add: watch_event_def k v b64_def ipFromKey_v4 [OF p] Let_def)
qed

lemma watch_event_delete:
  assumes p: "length p = 4" and t: "ev_Type ev = ''DELETE''" and k: "ev_Key ev = b64 (rblKey (v4InV6Prefix @ p))"
  shows "ipTable (watch_event ev st) = ip_del (string4 p) (ipTable st)"
proof -
  have "string4 p \<noteq> []" using p by (intro string4_nonempty) auto
  then show ?thesis using t by (simp add: watch_event_def k b64_def ipFromKey_v4 [OF p] Let_def)
qed

section \<open>Invariants of the watch loops\<close>

text \<open>What a round of either loop keeps: well-formed tables, and a revision that never decreases.\<close>

definition watch_inv :: "server \<Rightarrow> server \<Rightarrow> bool" where
  "watch_inv st st' \<longleftrightarrow> (tables_ok st \<longrightarrow> tables_ok st') \<and> gEtcdRevision st \<le> gEtcdRevision st'"

lemma watch_inv_refl [simp]: "watch_inv st st"
  by (simp add: watch_inv_def)

lemma watch_inv_trans: "watch_inv st st' \<Longrightarrow> watch_inv st' st'' \<Longrightarrow> watch_inv st st''"
  by (auto simp: watch_inv_def)

lemma watch_inv_effects [simp]:
  "watch_inv st (log_call l st') = watch_inv st st'" "watch_inv (log_call l st) st' = watch_inv st st'"
  "watch_inv st (send_etcd r st') = watch_inv st st'" "watch_inv (send_etcd r st) st' = watch_inv st st'"
  by (simp_all add: watch_inv_def tables_ok_def)

interpretation watch_order: step_order watch_inv
  by unfold_locales (auto intro: watch_inv_trans)

lemma watch_inv_fold: "(\<And>x s. watch_inv s (f x s)) \<Longrightarrow> watch_inv st (fold f xs st)"
  by (rule watch_order.fold_ordered)

lemma watch_inv_tables:
  "watch_inv st (ipTable_store e st)" "watch_inv st (ipTable_delete k st)"
  "watch_inv st (cidrTable_upsert c st)" "watch_inv st (cidrTable_remove k st)"
  by (simp_all add: watch_inv_def tables_ok_def ips.invar_put ips.invar_del cidrs.invar_put cidrs.invar_del)

lemma watch_inv_tables_log:
  "watch_inv st (ipTable_store e (log_call l (log_call l' st)))" "watch_inv st (ipTable_delete k (log_call l st))"
  using watch_inv_tables(1) [of "log_call l (log_call l' st)"] watch_inv_tables(2) [of "log_call l st"] by simp_all

lemma watch_inv_event: "watch_inv st (watch_event ev st)"
  by (auto simp: watch_event_def Let_def case_prod_unfold watch_inv_tables_log)

lemma watch_inv_cidr_event: "watch_inv st (cidr_watch_event ev st)"
  by (auto simp: cidr_watch_event_def Let_def case_prod_unfold watch_inv_tables split: option.splits)

lemma watch_inv_revision: "watch_inv st (watch_revision r st)" "watch_inv st (updateRevision n st)"
  by (auto simp: watch_revision_def updateRevision_def watch_inv_def tables_ok_def case_prod_unfold)

lemma watch_inv_line: "watch_inv st (watch_line line st)" "watch_inv st (cidr_watch_line line st)"
proof -
  show "watch_inv st (watch_line line st)"
    using watch_inv_trans [OF watch_inv_revision(1) watch_inv_fold [of watch_event, OF watch_inv_event]]
    by (simp add: watch_line_def case_prod_unfold)
  show "watch_inv st (cidr_watch_line line st)"
    using watch_inv_trans [OF watch_inv_revision(2) watch_inv_fold [of cidr_watch_event, OF watch_inv_cidr_event]]
      watch_inv_fold [of cidr_watch_event, OF watch_inv_cidr_event]
    by (simp add: cidr_watch_line_def case_prod_unfold Let_def)
qed

lemma watch_inv_lines:
  "watch_inv st (fold watch_line ls st)" "watch_inv st (fold cidr_watch_line ls st)"
  by (rule watch_inv_fold, rule watch_inv_line)+

text \<open>A run that starts after log statements and requests starts from the same tables.\<close>

lemma watch_inv_after:
  assumes "\<And>s. watch_inv s (f s)"
  shows "watch_inv st (f (log_call l st))" "watch_inv st (f (log_call l (send_etcd r st)))"
    "watch_inv st (f (log_call l (send_etcd r (log_call l' st))))"
  using assms [of "log_call l st"] assms [of "log_call l (send_etcd r st)"]
    assms [of "log_call l (send_etcd r (log_call l' st))"] by simp_all

lemma watch_inv_round: "watch_inv st (watch_round conn st)" "watch_inv st (cidr_watch_round conn st)"
  by (simp_all add: watch_round_def cidr_watch_round_def Let_def case_prod_unfold
      watch_inv_after [of "fold watch_line _", OF watch_inv_lines(1)]
      watch_inv_after [of "fold cidr_watch_line _", OF watch_inv_lines(2)] split: watch_connection.splits)

text \<open>The watch loops keep the tables well formed and never move the revision back.
  Whatever the gateway delivers on whatever sequence of connections, including lines that are
  not JSON, keys that are no address and values that do not decode, both loops keep one entry
  per key in both tables, and the revision from which the next watch starts does not decrease.\<close>

theorem watch_loops_keep_tables_ok:
  assumes "tables_ok st"
  shows "tables_ok (watchLoop conns st) \<and> tables_ok (cidrWatchLoop conns st) \<and>
    gEtcdRevision st \<le> gEtcdRevision (watchLoop conns st) \<and>
    gEtcdRevision st \<le> gEtcdRevision (cidrWatchLoop conns st)"
proof -
  have "watch_inv st (watchLoop conns st)" "watch_inv st (cidrWatchLoop conns st)"
    unfolding watchLoop_def cidrWatchLoop_def
    by (rule watch_inv_after(1) [of "fold watch_round conns", OF watch_inv_fold [OF watch_inv_round(1)]],
        rule watch_inv_after(1) [of "fold cidr_watch_round conns", OF watch_inv_fold [OF watch_inv_round(2)]])
  then show ?thesis using assms by (simp add: watch_inv_def)
qed

theorem watch_loops_keep_tables_ok_witness:
  "tables_ok (watchLoop [RequestFailed, Connected ''{'' False] (initial_server True)) \<and>
   gEtcdRevision (initial_server True) \<le> gEtcdRevision (watchLoop [RequestFailed, Connected ''{'' False] (initial_server True))"
  using watch_loops_keep_tables_ok [of "initial_server True" "[RequestFailed, Connected ''{'' False]"]
  by (simp add: tables_ok_def)

end
