(* ===== verification/Replication.thy ===== *)
theory Replication
  imports EtcdProps Expiry
begin

text \<open>
  Two instances and the store between them. A write that one instance accepts in multi-instance
  mode reaches the others as an event of their watch; these theorems follow the texts the whole
  way: the request handler's record through JSON and base 64 into the request to etcd, the same
  key and value through the JSON of the watch stream into the table of the other instance. The
  form of the stream is the one the JSON gateway of etcd documents.
\<close>

section \<open>The text of an event\<close>

lemma ascii_valid_utf8: "(\<And>c. c \<in> set s \<Longrightarrow> (of_char c :: nat) < 128) \<Longrightarrow> valid_utf8 s"
  by (induction s) simp_all

lemma base64_ascii: "c \<in> set (base64_encode s) \<Longrightarrow> (of_char c :: nat) < 128"
proof (induction s rule: base64_encode.induct)
  case (4 a b c s)
  have "x div 262144 < 64" if "x = of_char a * 65536 + of_char b * 256 + (of_char c :: nat)" for x
    using of_char_less [of a] of_char_less [of b] of_char_less [of c] that by linarith
  with 4 show ?case by (auto simp: Let_def of_char_b64_char)
next
  case (3 a b)
  have "x div 262144 < 64" if "x = of_char a * 65536 + (of_char b * 256 :: nat)" for x
    using of_char_less [of a] of_char_less [of b] that by linarith
  with 3 show ?case by (auto simp: Let_def of_char_b64_char)
next
  case (2 a)
  have "x div 262144 < 64" if "x = of_char a * (65536 :: nat)" for x
    using of_char_less [of a] that by linarith
  with 2 show ?case by (auto simp: Let_def of_char_b64_char)
qed simp

lemma valid_utf8_b64 [simp]: "valid_utf8 (b64 s)"
  by (auto simp: b64_def intro: ascii_valid_utf8 base64_ascii)

lemma is_digit_ascii: "is_digit c \<Longrightarrow> (of_char c :: nat) < 128"
  by (simp add: is_digit_def)

lemma valid_utf8_dec_int [simp]: "valid_utf8 (dec_int i)"
  by (auto simp: dec_int_def intro!: ascii_valid_utf8 is_digit_ascii dest: dec_digits)

text \<open>The gateway leaves out empty texts and zero numbers, and quotes 64-bit numbers.\<close>

definition omit_quoted :: "string \<Rightarrow> int64 \<Rightarrow> (string \<times> json) list" where
  "omit_quoted k i = (if i = 0 then [] else [(k, JStr (dec_int i))])"

definition event_json :: "watchEvent \<Rightarrow> json" where
  "event_json ev =
     JObj (omit_str ''type'' (ev_Type ev) @
       [(''kv'', JObj (omit_str ''key'' (ev_Key ev) @ omit_quoted ''create_revision'' (ev_CreateRevision ev) @
          omit_quoted ''mod_revision'' (ev_ModRevision ev) @ omit_quoted ''version'' (ev_Version ev) @
          omit_str ''value'' (ev_Value ev)))])"

definition watch_message :: "int64 \<Rightarrow> watchEvent list \<Rightarrow> string" where
  "watch_message rvn evs =
     json_encode (JObj [(''result'', JObj [(''header'', JObj [(''revision'', JStr (dec_int rvn))]),
       (''events'', JArr (map event_json evs))])])"

definition event_ok :: "watchEvent \<Rightarrow> bool" where
  "event_ok ev \<longleftrightarrow> valid_utf8 (ev_Type ev) \<and> valid_utf8 (ev_Key ev) \<and> valid_utf8 (ev_Value ev) \<and>
     int64_range (ev_CreateRevision ev) \<and> int64_range (ev_ModRevision ev) \<and> int64_range (ev_Version ev)"

lemma store_quoted_int_dec:
  assumes "int64_range i"
  shows "store_quoted_int (VStr (dec_int i)) old = (i, False)"
proof -
  have "is_digit (hd (dec n))" for n by (rule dec_digits [of _ n]) simp
  then have "hd (dec_int i) = CHR ''-'' \<or> is_digit (hd (dec_int i))" "dec_int i \<noteq> []"
    by (simp_all add: dec_int_def)
  moreover from this have "dec_int i \<noteq> ''null''" by (auto simp: is_digit_def)
  ultimately show ?thesis using ParseInt_dec_int [OF assms] by (simp add: store_quoted_int_def)
qed

lemma store_omit_quoted:
  assumes "int64_range i" "store k (VStr (dec_int i)) r = (set_field i, False)" "set_field 0 = r"
  shows "store_fields store (jfields (omit_quoted k i)) (r, False) = (set_field i, False)"
  using assms by (simp add: omit_quoted_def store_fields_single)

lemma fold_name_events:
  "fold_name ''type'' = ''TYPE''" "fold_name ''kv'' = ''KV''" "fold_name ''key'' = ''KEY''" "fold_name ''value'' = ''VALUE''"
  "fold_name ''create_revision'' = ''CREATE_REVISION''" "fold_name ''mod_revision'' = ''MOD_REVISION''"
  "fold_name ''version'' = ''VERSION''" "fold_name ''result'' = ''RESULT''" "fold_name ''header'' = ''HEADER''"
  "fold_name ''revision'' = ''REVISION''" "fold_name ''events'' = ''EVENTS''"
  by (simp_all add: char_of_def bit_iff_odd)

lemmas event_store =
  store_kv_def store_watchEvent_def store_result_def store_watchResponse_def store_header_def
  key_matches_def fold_name_events store_quoted_int_dec store_string_def

lemma store_event:
  assumes "event_ok ev"
  shows "store_struct store_watchEvent (jvalue_of (event_json ev)) zero_watchEvent = (ev, False)"
proof -
  note ok = assms [unfolded event_ok_def]
  let ?st = "store_fields store_kv" and ?r1 = "zero_watchEvent\<lparr>ev_Type := ev_Type ev\<rparr>"
  have 1: "store_fields store_watchEvent (jfields (omit_str ''type'' (ev_Type ev))) (zero_watchEvent, False) = (?r1, False)"
    by (intro store_omit_str) (simp_all add: event_store zero_watchEvent_def)
  have 2: "?st (jfields (omit_str ''key'' (ev_Key ev))) (?r1, False) = (?r1\<lparr>ev_Key := ev_Key ev\<rparr>, False)" (is "_ = (?r2, _)")
    by (intro store_omit_str) (simp_all add: event_store zero_watchEvent_def)
  have 3: "?st (jfields (omit_quoted ''create_revision'' (ev_CreateRevision ev))) (?r2, False) =
      (?r2\<lparr>ev_CreateRevision := ev_CreateRevision ev\<rparr>, False)" (is "_ = (?r3, _)")
    using ok by (intro store_omit_quoted) (simp_all add: event_store zero_watchEvent_def)
  have 4: "?st (jfields (omit_quoted ''mod_revision'' (ev_ModRevision ev))) (?r3, False) =
      (?r3\<lparr>ev_ModRevision := ev_ModRevision ev\<rparr>, False)" (is "_ = (?r4, _)")
    using ok by (intro store_omit_quoted) (simp_all add: event_store zero_watchEvent_def)
  have 5: "?st (jfields (omit_quoted ''version'' (ev_Version ev))) (?r4, False) =
      (?r4\<lparr>ev_Version := ev_Version ev\<rparr>, False)" (is "_ = (?r5, _)")
    using ok by (intro store_omit_quoted) (simp_all add: event_store zero_watchEvent_def)
  have 6: "?st (jfields (omit_str ''value'' (ev_Value ev))) (?r5, False) = (?r5\<lparr>ev_Value := ev_Value ev\<rparr>, False)" (is "_ = (?r6, _)")
    by (intro store_omit_str) (simp_all add: event_store zero_watchEvent_def)
  let ?kv = "jfields (omit_str ''key'' (ev_Key ev) @ omit_quoted ''create_revision'' (ev_CreateRevision ev) @
      omit_quoted ''mod_revision'' (ev_ModRevision ev) @ omit_quoted ''version'' (ev_Version ev) @ omit_str ''value'' (ev_Value ev))"
  have kv: "store_struct store_kv (VObj ?kv) ?r1 = (?r6, False)"
    by (simp only: store_struct_def jvalue.case map_append store_fields_append 2 3 4 5 6)
  have "?r6 = ev" by (simp add: zero_watchEvent_def)
  moreover have "store_struct store_watchEvent (jvalue_of (event_json ev)) zero_watchEvent = (?r6, False)"
    using 1 kv by (simp add: store_struct_def [of store_watchEvent] event_json_def store_fields_append store_fields_single
        store_watchEvent_def [of "''kv''"] key_matches_def fold_name_events)
  ultimately show ?thesis by simp
qed

lemma valid_utf8_event_names:
  "valid_utf8 ''type''" "valid_utf8 ''kv''" "valid_utf8 ''key''" "valid_utf8 ''value''" "valid_utf8 ''create_revision''"
  "valid_utf8 ''mod_revision''" "valid_utf8 ''version''" "valid_utf8 ''result''" "valid_utf8 ''header''"
  "valid_utf8 ''revision''" "valid_utf8 ''events''"
  by simp_all

lemma valid_event_json: "event_ok ev \<Longrightarrow> valid_json (event_json ev)"
  by (simp add: event_json_def event_ok_def omit_quoted_def omit_str_def valid_utf8_event_names del: valid_utf8.simps)

text \<open>The decoder reads back every event of a message and the revision of its header.\<close>

lemma Unmarshal_watch_message:
  assumes "\<forall>ev \<in> set evs. event_ok ev"
  shows "Unmarshal store_watchResponse (watch_message rvn evs) zero_watchResponse =
    (zero_watchResponse\<lparr>wr_Revision := dec_int rvn, wr_Events := evs\<rparr>, False)"
proof -
  have slice: "store_slice store_watchEvent zero_watchEvent (VArr (map jvalue_of (map event_json evs))) old = (evs, False)" for old
    using assms store_event by (simp add: store_slice_def Let_def comp_def map_idI list_ex_iff)
  have ok: "valid_json (JObj [(''result'', JObj [(''header'', JObj [(''revision'', JStr (dec_int rvn))]),
      (''events'', JArr (map event_json evs))])])"
    using assms valid_event_json by (simp add: valid_utf8_event_names list_all_iff del: valid_utf8.simps)
  have hdr: "store_struct store_header (VObj [(''revision'', VStr (dec_int rvn))]) old = (dec_int rvn, False)" for old
    by (simp add: store_struct_def store_fields_single event_store)
  have result: "store_struct store_result (VObj ([(''header'', VObj [(''revision'', VStr (dec_int rvn))])] @
      [(''events'', VArr (map jvalue_of (map event_json evs)))])) zero_watchResponse =
    (zero_watchResponse\<lparr>wr_Revision := dec_int rvn, wr_Events := evs\<rparr>, False)"
    by (simp only: store_struct_def [of store_result] jvalue.case store_fields_append)
      (simp add: store_fields_single store_result_def key_matches_def fold_name_events hdr slice del: map_map)
  show ?thesis
    using json_parse_encode [OF ok] result
    by (simp add: Unmarshal_def watch_message_def store_struct_def [of store_watchResponse] store_fields_single
        store_watchResponse_def key_matches_def del: map_map)
qed

lemma watch_line_message:
  assumes "\<forall>ev \<in> set evs. event_ok ev" "int64_range rvn"
  shows "watch_line (watch_message rvn evs) st = fold watch_event evs (watch_revision (dec_int rvn) st)"
    and "cidr_watch_line (watch_message rvn evs) st = fold cidr_watch_event evs (updateRevision rvn st)"
proof -
  have ne: "dec_int rvn \<noteq> []" by (simp add: dec_int_def)
  show "watch_line (watch_message rvn evs) st = fold watch_event evs (watch_revision (dec_int rvn) st)"
    by (simp add: watch_line_def Unmarshal_watch_message [OF assms(1)])
  show "cidr_watch_line (watch_message rvn evs) st = fold cidr_watch_event evs (updateRevision rvn st)"
    using ne by (simp add: cidr_watch_line_def Unmarshal_watch_message [OF assms(1)] ParseInt_dec_int [OF assms(2)])
qed

section \<open>Addresses\<close>

abbreviation put_request :: "string \<Rightarrow> string \<Rightarrow> etcd_request" where
  "put_request k v \<equiv> EtcdRequest ''/v3/kv/put'' (JObj [(''key'', JStr k), (''value'', JStr v)])"

abbreviation delete_request :: "string \<Rightarrow> etcd_request" where
  "delete_request k \<equiv> EtcdRequest ''/v3/kv/deleterange'' (JObj [(''key'', JStr k)])"

text \<open>The events with which the store answers these requests on every watch: an update carries
  the key and the value of the request and the revisions the store has assigned.\<close>

definition put_event :: "string \<Rightarrow> string \<Rightarrow> int64 \<Rightarrow> int64 \<Rightarrow> watchEvent" where
  "put_event k v create modr =
     zero_watchEvent\<lparr>ev_Key := k, ev_Value := v, ev_CreateRevision := create, ev_ModRevision := modr\<rparr>"

definition delete_event :: "string \<Rightarrow> int64 \<Rightarrow> watchEvent" where
  "delete_event k modr = zero_watchEvent\<lparr>ev_Type := ''DELETE'', ev_Key := k, ev_ModRevision := modr\<rparr>"

lemma event_ok_events:
  "int64_range create \<Longrightarrow> int64_range modr \<Longrightarrow> event_ok (put_event (b64 k) (b64 v) create modr)"
  "int64_range modr \<Longrightarrow> event_ok (delete_event (b64 k) modr)"
  by (simp_all add: put_event_def delete_event_def event_ok_def zero_watchEvent_def int64_range_def)

lemma record_entry_put_record:
  "record_entry ip (put_record f fs) create modr =
   (put_entry ip f fs)\<lparr>be_CreateRevision := create, be_ModRevision := modr\<rparr>"
  by (simp add: record_entry_def put_record_def put_entry_def Uint32ToIPv4Str_eq IPv4StrToUint32_Uint32ToIPv4)

lemma watch_revision_simps [simp]:
  "ipTable (watch_revision s st) = ipTable st" "cidrTable (watch_revision s st) = cidrTable st"
  "ipTable (updateRevision n st) = ipTable st" "cidrTable (updateRevision n st) = cidrTable st"
  by (auto simp: watch_revision_def updateRevision_def case_prod_unfold)

lemma gEtcdRevision_watch_revision:
  "int64_range n \<Longrightarrow> gEtcdRevision (watch_revision (dec_int n) st) = max (gEtcdRevision st) n"
  "gEtcdRevision (updateRevision n st) = max (gEtcdRevision st) n"
proof -
  have "dec_int n \<noteq> []" by (simp add: dec_int_def)
  then show "int64_range n \<Longrightarrow> gEtcdRevision (watch_revision (dec_int n) st) = max (gEtcdRevision st) n"
    by (simp add: watch_revision_def ParseInt_dec_int)
qed (simp add: updateRevision_def)

lemma watch_event_revision: "gEtcdRevision (watch_event ev st) = gEtcdRevision st"
  "gEtcdRevision (cidr_watch_event ev st) = gEtcdRevision st"
  by (simp_all add: watch_event_def cidr_watch_event_def Let_def case_prod_unfold split: option.splits)

text \<open>C4: A block accepted by one instance reaches the others unchanged. When an instance accepts
  \<open>PUT /block/ip\<close> for an IPv4 address, with parameters in valid UTF-8, the first request it
  sends to etcd is a write whose key and value, delivered as an update event of the watch
  stream, make any other instance store under the same address exactly the entry the first
  one answered with, plus the revisions of the store; no other entry changes, and the next
  \<open>/auth\<close> request for the address on the other instance is forbidden until the entry expires.\<close>

theorem put_replicates:
  assumes p: "length p = 4" "req_PathValue r ''ip'' = string4 p" "put_params (clk 0) (req_Query r) = Inr f"
    and fs: "fs = put_first_seen (clk 0) (clk 1) (string4 p) stA" "record_ok (put_record f fs)"
    and rng: "int64_range create" "int64_range modr" "int64_range rvn"
    and inv: "ip_invar (ipTable stB)"
  shows "\<exists>k v k' v'. etcd_requests (snd (handlePut clk r stA)) = etcd_requests stA @ [put_request k v, put_request k' v'] \<and>
    (\<exists>stB'. stB' = watch_line (watch_message rvn [put_event k v create modr]) stB \<and>
      (\<forall>a. ip_get (ipTable stB') a =
        (if a = string4 p then Some ((put_entry (string4 p) f fs)\<lparr>be_CreateRevision := create, be_ModRevision := modr\<rparr>)
         else ip_get (ipTable stB) a)) \<and>
      gEtcdRevision stB' = max (gEtcdRevision stB) rvn \<and>
      (req_PathValue r' ''ip'' = string4 p \<and> \<not> expired (clk' 0) (pf_Expiration f) \<longrightarrow>
        status_code (fst (handleAuth clk' r' stB')) = 403))"
proof -
  let ?ip = "v4InV6Prefix @ p"
  let ?k = "b64 (rblKey ?ip)" and ?v = "b64 (json_encode (BlockRecord_json (put_record f fs)))"
  let ?ev = "put_event ?k ?v create modr"
  let ?stB = "watch_line (watch_message rvn [?ev]) stB"
  let ?e = "(put_entry (string4 p) f fs)\<lparr>be_CreateRevision := create, be_ModRevision := modr\<rparr>"
  have ip: "ParseIP (req_PathValue r ''ip'') = Some ?ip" using p by (simp add: ParseIP_string4)
  have reqs: "etcd_requests (snd (handlePut clk r stA)) = etcd_requests stA @ [put_request ?k ?v,
      put_request (b64 (reverseKey ?ip)) (b64 (json_encode (PTRRecord_json ptr_record)))]"
    using handlePut_accepts(5) [where clk = clk and st = stA, OF ip p(3)] p fs by (simp add: etcdPut_def)
  have line: "?stB = watch_event ?ev (watch_revision (dec_int rvn) stB)"
    using watch_line_message(1) [of "[?ev]" rvn stB] event_ok_events(1) [OF rng(1,2)] rng(3) by simp
  have "ipTable ?stB = ip_put ?e (ipTable stB)"
    unfolding line using watch_event_put [OF p(1) fs(2), of ?ev]
    by (simp add: put_event_def zero_watchEvent_def record_entry_put_record)
  then have get: "ip_get (ipTable ?stB) a = (if a = string4 p then Some ?e else ip_get (ipTable stB) a)" for a
    using ips.lookup_put [OF inv, of ?e] by (simp add: put_entry_def)
  have rv: "gEtcdRevision ?stB = max (gEtcdRevision stB) rvn"
    using watch_event_revision gEtcdRevision_watch_revision(1) [OF rng(3)] by (simp add: line)
  have "status_code (fst (handleAuth clk' r' ?stB)) = 403"
    if "req_PathValue r' ''ip'' = string4 p" "\<not> expired (clk' 0) (pf_Expiration f)"
    using that get [of "string4 p"] ip p(2)
    by (simp add: status_handleAuth blocked_by_def live_ip_def put_entry_def IsValidIP_def)
  with reqs get rv show ?thesis by blast
qed

lemma valid_utf8_Uint32ToIPv4: "valid_utf8 (Uint32ToIPv4 n)"
  by (rule ascii_valid_utf8) (auto simp: Uint32ToIPv4_def dest: dec_digits [THEN is_digit_ascii])

lemma record_ok_put_record:
  "valid_utf8 (pf_Source f) \<Longrightarrow> valid_utf8 (pf_Scenario f) \<Longrightarrow> valid_utf8 (pf_Action f) \<Longrightarrow>
   int64_range fs \<Longrightarrow> int64_range (pf_LastSeen f) \<Longrightarrow> int64_range (pf_Expiration f) \<Longrightarrow> record_ok (put_record f fs)"
  by (simp add: record_ok_def put_record_def Uint32ToIPv4Str_eq valid_utf8_Uint32ToIPv4 gRecordTTL_def int64_range_def)

lemma sample_put_replica:
  "req_PathValue sample_put ''ip'' = string4 [192, 0, 2, 1]"
  "record_ok (put_record ((put_defaults 7)\<lparr>pf_Scenario := ''ssh-bf''\<rparr>) 7)"
  by (simp add: sample_put_facts(1) net_eval, rule record_ok_put_record)
    (simp_all add: put_defaults_def defaultSource_def int64_range_def)

theorem put_replicates_witness:
  "\<exists>k v k' v'. etcd_requests (snd (handlePut (\<lambda>_. 7) sample_put (initial_server True))) = [put_request k v, put_request k' v'] \<and>
     status_code (fst (handleAuth (\<lambda>_. 8) sample_put
       (watch_line (watch_message 5 [put_event k v 5 5]) (initial_server True)))) = 403"
  using put_replicates [of "[192, 0, 2, 1]" sample_put "\<lambda>_. 7" _ 7 "initial_server True" 5 5 5 "initial_server True" sample_put "\<lambda>_. 8",
      OF _ sample_put_replica(1) sample_put_facts(3) _ sample_put_replica(2)]
  by (auto simp: put_first_seen_def live_ip_def ip_get_def ip_invar_def int64_range_def put_defaults_def expired_def
      sample_put_replica(1))

text \<open>C13: An unblock reaches the others. When an instance accepts \<open>DELETE /block/ip\<close> for an IPv4
  address, the first request it sends to etcd deletes a key, and the delete event for that
  key makes any other instance drop the entry of the address, and no other entry.\<close>

theorem delete_replicates:
  assumes p: "length p = 4" "req_PathValue r ''ip'' = string4 p"
    and rng: "int64_range modr" "int64_range rvn"
    and inv: "ip_invar (ipTable stB)"
  shows "\<exists>k k'. etcd_requests (snd (handleDelete r stA)) = etcd_requests stA @ [delete_request k, delete_request k'] \<and>
    (\<forall>a. ip_get (ipTable (watch_line (watch_message rvn [delete_event k modr]) stB)) a =
      (if a = string4 p then None else ip_get (ipTable stB) a))"
proof -
  let ?ip = "v4InV6Prefix @ p" and ?k = "b64 (rblKey (v4InV6Prefix @ p))"
  let ?ev = "delete_event ?k modr"
  have ip: "ParseIP (req_PathValue r ''ip'') = Some ?ip" using p by (simp add: ParseIP_string4)
  have reqs: "etcd_requests (snd (handleDelete r stA)) = etcd_requests stA @ [delete_request ?k, delete_request (b64 (reverseKey ?ip))]"
    using handleDelete_accepts(4) [OF ip, of stA] by (simp add: etcdDelete_def)
  have "watch_line (watch_message rvn [?ev]) stB = watch_event ?ev (watch_revision (dec_int rvn) stB)"
    using watch_line_message(1) [of "[?ev]" rvn stB] event_ok_events(2) [OF rng(1)] rng(2) by simp
  then have "ipTable (watch_line (watch_message rvn [?ev]) stB) = ip_del (string4 p) (ipTable stB)"
    using watch_event_delete [OF p(1), of ?ev] by (simp add: delete_event_def zero_watchEvent_def)
  with reqs ips.lookup_del [OF inv] show ?thesis by auto
qed

theorem delete_replicates_witness:
  "\<exists>k k'. etcd_requests (snd (handleDelete sample_put (initial_server True))) = [delete_request k, delete_request k'] \<and>
     ip_get (ipTable (watch_line (watch_message 9 [delete_event k 9]) sample_tables)) ''192.0.2.1'' = None"
  using delete_replicates [of "[192, 0, 2, 1]" sample_put 9 9 sample_tables "initial_server True", OF _ sample_put_replica(1)]
    tables_ok_sample
  by (auto simp: int64_range_def tables_ok_def sample_put_replica(1) [symmetric] sample_put_facts(1))

section \<open>Networks\<close>

text \<open>A network blocked on one instance and unblocked again, as the others see it: the key of
  the request gives back the canonical text, and the network parsed from it has the members
  of the one that was blocked.\<close>

lemma cidr_events:
  assumes "ParseCIDR s = Some net"
  defines "cidr \<equiv> IPNet_String net" and "k \<equiv> b64 (cidrToEtcdKey (IPNet_String net))"
  shows "\<exists>net'. (\<forall>ip. length ip = 16 \<longrightarrow> Contains net' ip = Contains net ip) \<and>
      (\<forall>rec st create modr. record_ok rec \<longrightarrow>
        cidrTable (cidr_watch_event (put_event k (b64 (json_encode (BlockRecord_json rec))) create modr) st) =
          cidr_upsert (record_cidr_entry cidr net' rec) (cidrTable st))"
    and "cidrTable (cidr_watch_event (delete_event k modr) st) = cidr_remove cidr (cidrTable st)"
proof -
  obtain net' where n: "cidrFromEtcdKey (cidrToEtcdKey cidr) = cidr" "ParseCIDR cidr = Some net'"
      "\<forall>ip. length ip = 16 \<longrightarrow> Contains net' ip = Contains net ip"
    using network_key_facts [OF assms(1)] by (auto simp: cidr_def)
  have "ParseCIDR [] = None" by (simp add: ParseCIDR_def)
  then have ne: "cidr \<noteq> []" using n(2) by auto
  have "cidrTable (cidr_watch_event (put_event k (b64 (json_encode (BlockRecord_json rec))) create modr) st) =
      cidr_upsert (record_cidr_entry cidr net' rec) (cidrTable st)" if "record_ok rec" for rec st create modr
    using n(1,2) ne Unmarshal_BlockRecord [OF that]
    by (simp add: cidr_watch_event_def put_event_def zero_watchEvent_def k_def b64_def cidr_def)
  with n(3) show "\<exists>net'. (\<forall>ip. length ip = 16 \<longrightarrow> Contains net' ip = Contains net ip) \<and>
      (\<forall>rec st create modr. record_ok rec \<longrightarrow>
        cidrTable (cidr_watch_event (put_event k (b64 (json_encode (BlockRecord_json rec))) create modr) st) =
          cidr_upsert (record_cidr_entry cidr net' rec) (cidrTable st))" by blast
  show "cidrTable (cidr_watch_event (delete_event k modr) st) = cidr_remove cidr (cidrTable st)"
    using n(1) ne by (simp add: cidr_watch_event_def delete_event_def zero_watchEvent_def k_def b64_def cidr_def)
qed

lemma cidr_line_single:
  "event_ok ev \<Longrightarrow> int64_range rvn \<Longrightarrow>
   cidrTable (cidr_watch_line (watch_message rvn [ev]) st) = cidrTable (cidr_watch_event ev (updateRevision rvn st))"
  by (simp add: watch_line_message(2))

text \<open>C14: Blocked and unblocked networks reach the other instances. An accepted
  \<open>PUT /block-network\<close> sends one write to etcd; the update event for it makes any other
  instance store, under the canonical text of the network, the entry of the first instance
  with a network of exactly the same members. An accepted \<open>DELETE /block-network\<close> sends one
  deletion, whose event removes exactly that entry.\<close>

theorem network_replicates:
  assumes net: "ParseCIDR (network_text r) = Some net" "put_params (clk 0) (req_Query r) = Inr f"
    and fs: "fs = (case cidr_find (cidrTable stA) (IPNet_String net) of Some e \<Rightarrow> ce_FirstSeen e | None \<Rightarrow> clk 0)"
      "record_ok (put_record f fs)"
    and rng: "int64_range create" "int64_range modr" "int64_range rvn"
    and inv: "cidr_invar (cidrTable stB)"
  shows "\<exists>k v net'. etcd_requests (snd (handlePutNetwork clk r stA)) = etcd_requests stA @ [put_request k v] \<and>
    etcd_requests (snd (handleDeleteNetwork r stA)) = etcd_requests stA @ [delete_request k] \<and>
    (\<forall>ip. length ip = 16 \<longrightarrow> Contains net' ip = Contains net ip) \<and>
    (\<forall>c. cidr_find (cidrTable (cidr_watch_line (watch_message rvn [put_event k v create modr]) stB)) c =
      (if c = IPNet_String net then Some (put_cidr_entry (IPNet_String net) net' f fs) else cidr_find (cidrTable stB) c)) \<and>
    (\<forall>c. cidr_find (cidrTable (cidr_watch_line (watch_message rvn [delete_event k modr]) stB)) c =
      (if c = IPNet_String net then None else cidr_find (cidrTable stB) c))"
proof -
  let ?k = "b64 (cidrToEtcdKey (IPNet_String net))" and ?v = "b64 (json_encode (BlockRecord_json (put_record f fs)))"
  obtain net' where n: "\<forall>ip. length ip = 16 \<longrightarrow> Contains net' ip = Contains net ip"
      "\<And>st. cidrTable (cidr_watch_event (put_event ?k ?v create modr) st) =
        cidr_upsert (record_cidr_entry (IPNet_String net) net' (put_record f fs)) (cidrTable st)"
    using cidr_events(1) [OF net(1)] fs(2) by blast
  have e: "record_cidr_entry (IPNet_String net) net' (put_record f fs) = put_cidr_entry (IPNet_String net) net' f fs"
    by (simp add: record_cidr_entry_def put_record_def put_cidr_entry_def Uint32ToIPv4Str_eq IPv4StrToUint32_Uint32ToIPv4)
  have reqs: "etcd_requests (snd (handlePutNetwork clk r stA)) = etcd_requests stA @ [put_request ?k ?v]"
    using handlePutNetwork_accepts(4) [where clk = clk and st = stA, OF net] fs(1) by (simp add: etcdPutCIDR_def etcdPut_def)
  have dels: "etcd_requests (snd (handleDeleteNetwork r stA)) = etcd_requests stA @ [delete_request ?k]"
    using handleDeleteNetwork_accepts(4) [OF net(1), of stA] by (simp add: etcdDeleteCIDR_def etcdDelete_def)
  have "cidrTable (cidr_watch_line (watch_message rvn [put_event ?k ?v create modr]) stB) =
      cidr_upsert (put_cidr_entry (IPNet_String net) net' f fs) (cidrTable stB)"
    using n(2) e event_ok_events(1) [OF rng(1,2)] rng(3) by (simp add: cidr_line_single)
  moreover have "cidrTable (cidr_watch_line (watch_message rvn [delete_event ?k modr]) stB) =
      cidr_remove (IPNet_String net) (cidrTable stB)"
    using cidr_events(2) [OF net(1)] event_ok_events(2) [OF rng(2)] rng(3) by (simp add: cidr_line_single)
  ultimately show ?thesis
    using reqs dels n(1) cidrs.lookup_put [OF inv, of "put_cidr_entry (IPNet_String net) net' f fs"] cidrs.lookup_del [OF inv]
    by (intro exI [of _ ?k] exI [of _ ?v] exI [of _ net']) (auto simp: put_cidr_entry_def)
qed

definition sample_put_network :: request where
  "sample_put_network = path_request ''PUT'' [(''net'', ''10.0.0.0''), (''prefix'', ''8'')] []"

theorem network_replicates_witness:
  "\<exists>k v. etcd_requests (snd (handlePutNetwork (\<lambda>_. 7) sample_put_network (initial_server True))) = [put_request k v] \<and>
     cidr_find (cidrTable (cidr_watch_line (watch_message 5 [put_event k v 5 5]) (initial_server True))) ''10.0.0.0/8'' \<noteq> None"
proof -
  obtain net where net: "ParseCIDR (network_text sample_put_network) = Some net" "IPNet_String net = ''10.0.0.0/8''"
    by (simp add: network_text_def sample_put_network_def net_eval)
  have f: "put_params 7 (req_Query sample_put_network) = Inr (put_defaults 7)"
    by (simp add: sample_put_network_def put_params_def put_names_def query_get_def put_texts_def put_last_seen_def
        put_duration_def put_expiration_def Let_def)
  have ok: "record_ok (put_record (put_defaults 7) 7)"
    by (rule record_ok_put_record) (simp_all add: put_defaults_def defaultSource_def int64_range_def)
  obtain k v net' where "etcd_requests (snd (handlePutNetwork (\<lambda>_. 7) sample_put_network (initial_server True))) = [put_request k v]"
    "\<forall>c. cidr_find (cidrTable (cidr_watch_line (watch_message 5 [put_event k v 5 5]) (initial_server True))) c =
      (if c = IPNet_String net then Some (put_cidr_entry (IPNet_String net) net' (put_defaults 7) 7) else cidr_find [] c)"
    using network_replicates [where clk = "\<lambda>_. 7" and stA = "initial_server True" and stB = "initial_server True" and fs = 7
        and create = 5 and modr = 5 and rvn = 5, OF net(1) f _ ok]
    by (auto simp: int64_range_def cidr_find_def)
  with net(2) show ?thesis by auto
qed

section \<open>Keys of IPv6 addresses\<close>

text \<open>The last four segments of the key of an IPv6 address are its last four nibbles.\<close>

definition nibble_text :: "IP \<Rightarrow> string" where
  "nibble_text ip = join_with ''.'' (map (\<lambda>c. [c]) (drop 28 (hex_encode ip)))"

lemma v6_key_parts:
  assumes "length ip = 16" "To4 ip = None"
  shows "length (split_on CHR ''/'' (rblKey ip)) = 36"
    and "drop 32 (split_on CHR ''/'' (rblKey ip)) = map (\<lambda>c. [c]) (drop 28 (hex_encode ip))"
  using assms by (simp_all add: split_rblKey ip_parts_v6 drop_map)

lemma ipFromKey_v6:
  assumes "length ip = 16" "To4 ip = None"
  shows "ipFromKey (rblKey ip) = (if ParseIP (nibble_text ip) \<noteq> None then nibble_text ip else [])"
  using v6_key_parts [OF assms] by (simp add: ipFromKey_def nibble_text_def)

lemma four_of: "length xs = 4 \<Longrightarrow> xs = [xs ! 0, xs ! 1, xs ! 2, xs ! 3]"
  by (auto simp: numeral_eq_Suc length_Suc_conv)

lemma nibble_text_nth:
  assumes "length ip = 16" "To4 ip = None"
  shows "(let parts = split_on CHR ''/'' (rblKey ip) in
    parts ! 32 @ ''.'' @ parts ! 33 @ ''.'' @ parts ! 34 @ ''.'' @ parts ! 35) = nibble_text ip"
proof -
  let ?parts = "split_on CHR ''/'' (rblKey ip)"
  have "length (drop 32 ?parts) = 4" using v6_key_parts(1) [OF assms] by simp
  from four_of [OF this] have "drop 32 ?parts = [?parts ! 32, ?parts ! 33, ?parts ! 34, ?parts ! 35]"
    using v6_key_parts(1) [OF assms] by simp
  then show ?thesis
    using v6_key_parts(2) [OF assms] by (simp add: nibble_text_def join_with_Cons Let_def)
qed

lemma nibble_text_not_address:
  assumes "length ip = 16" "To4 ip = None"
  shows "nibble_text ip \<noteq> IP_String ip"
proof -
  have "length (drop 28 (hex_encode ip)) = 4" using assms(1) by simp
  from four_of [OF this] have "CHR ''.'' \<in> set (nibble_text ip)"
    unfolding nibble_text_def by (metis (no_types, lifting) append_Cons in_set_conv_decomp join_with_Cons list.simps(3,9))
  then show ?thesis using assms(2) punct_notin_string6(1) [of ip] by (auto simp: IP_String_def)
qed

text \<open>C37: The watcher and the loader misread the keys of IPv6 addresses. They take the last four
  segments of a key for the octets of an IPv4 address, but the segments of an IPv6 key are
  nibbles: an event for an IPv6 address never touches the entry of that address, it can only
  change the entry of the four last nibbles written with dots (\<open>1.2.3.4\<close> for
  \<open>2001:db8::1234\<close>), and loading such a key always stores its record there.\<close>

theorem ipv6_keys_misread:
  assumes ip: "length ip = 16" "To4 ip = None" and inv: "ip_invar (ipTable st)"
    and keys: "ev_Key ev = b64 (rblKey ip)" "kv_Key kv = b64 (rblKey ip)"
  shows "nibble_text ip \<noteq> IP_String ip \<and>
    (\<forall>a. a \<noteq> nibble_text ip \<longrightarrow> ip_get (ipTable (watch_event ev st)) a = ip_get (ipTable st) a \<and>
      ip_get (ipTable (load_kv kv st)) a = ip_get (ipTable st) a) \<and>
    ip_get (ipTable (load_kv kv st)) (nibble_text ip) =
      Some (record_entry (nibble_text ip) (fst (Unmarshal store_BlockRecord (b64d (kv_Value kv)) zero_BlockRecord))
        (parseInt64 (kv_CreateRevision kv)) (parseInt64 (kv_ModRevision kv)))"
proof -
  let ?e = "record_entry (nibble_text ip) (fst (Unmarshal store_BlockRecord (b64d (kv_Value kv)) zero_BlockRecord))
        (parseInt64 (kv_CreateRevision kv)) (parseInt64 (kv_ModRevision kv))"
  have "ipTable (load_kv kv st) = ip_put ?e (ipTable st)"
    using v6_key_parts(1) [OF ip] nibble_text_nth [OF ip] by (simp add: load_kv_def keys b64_def b64d_def Let_def)
  then have load: "ip_get (ipTable (load_kv kv st)) a = (if a = nibble_text ip then Some ?e else ip_get (ipTable st) a)" for a
    using ips.lookup_put [OF inv, of ?e] by (simp add: record_entry_def)
  have "ip_get (ipTable (watch_event ev st)) a = ip_get (ipTable st) a" if "a \<noteq> nibble_text ip" for a
    using that ips.lookup_put [OF inv] ips.lookup_del [OF inv]
    by (simp add: watch_event_def keys b64_def ipFromKey_v6 [OF ip] Let_def case_prod_unfold record_entry_def)
  with load nibble_text_not_address [OF ip] show ?thesis by simp
qed

theorem ipv6_keys_misread_witness:
  "nibble_text [0x20, 0x01, 0x0d, 0xb8, 0, 0, 0, 0, 0, 0, 0, 0, 0, 0, 0x12, 0x34] = ''1.2.3.4'' \<and>
   ip_get (ipTable (load_kv (zero_EtcdKV\<lparr>kv_Key :=
     b64 (rblKey [0x20, 0x01, 0x0d, 0xb8, 0, 0, 0, 0, 0, 0, 0, 0, 0, 0, 0x12, 0x34])\<rparr>) (initial_server True))) ''1.2.3.4'' \<noteq> None"
proof -
  let ?ip = "[0x20, 0x01, 0x0d, 0xb8, 0, 0, 0, 0, 0, 0, 0, 0, 0, 0, 0x12, 0x34] :: IP"
  have t: "nibble_text ?ip = ''1.2.3.4''"
    by (simp add: nibble_text_def join_with_Cons hex_digit_numeral)
  show ?thesis
    using ipv6_keys_misread [of ?ip "initial_server True" "zero_watchEvent\<lparr>ev_Key := b64 (rblKey ?ip)\<rparr>"
        "zero_EtcdKV\<lparr>kv_Key := b64 (rblKey ?ip)\<rparr>"] t
    by (simp add: To4_def v4InV6Prefix_def ip_invar_def)
qed

section \<open>Starting from a filled store\<close>

definition kv_json :: "EtcdKV \<Rightarrow> json" where
  "kv_json kv =
     JObj [(''key'', JStr (kv_Key kv)), (''create_revision'', JStr (kv_CreateRevision kv)),
       (''mod_revision'', JStr (kv_ModRevision kv)), (''version'', JStr (kv_Version kv)), (''value'', JStr (kv_Value kv))]"

definition range_message :: "int64 \<Rightarrow> EtcdKV list \<Rightarrow> string" where
  "range_message rvn kvs =
     json_encode (JObj [(''header'', JObj [(''revision'', JStr (dec_int rvn))]), (''kvs'', JArr (map kv_json kvs)),
       (''count'', JStr (dec (length kvs)))])"

definition kv_ok :: "EtcdKV \<Rightarrow> bool" where
  "kv_ok kv \<longleftrightarrow> valid_utf8 (kv_Key kv) \<and> valid_utf8 (kv_Value kv) \<and> valid_utf8 (kv_CreateRevision kv) \<and>
     valid_utf8 (kv_ModRevision kv) \<and> valid_utf8 (kv_Version kv)"

lemma fold_name_kvs: "fold_name ''kvs'' = ''KVS''" "fold_name ''count'' = ''COUNT''"
  by (simp_all add: char_of_def bit_iff_odd)

lemma store_kv_json: "store_struct store_EtcdKV (jvalue_of (kv_json kv)) zero_EtcdKV = (kv, False)"
  by (simp add: store_struct_def store_fields_def kv_json_def store_EtcdKV_def key_matches_def fold_name_events
      store_string_def zero_EtcdKV_def)

lemma valid_utf8_dec [simp]: "valid_utf8 (dec n)"
  using valid_utf8_dec_int [of "int n"] by (simp add: dec_int_def)

lemma etcdRange_message:
  assumes "\<forall>kv \<in> set kvs. kv_ok kv" "int64_range rvn"
  shows "etcdRange (Some (range_message rvn kvs)) = Some (kvs, rvn)"
proof -
  have slice: "store_slice store_EtcdKV zero_EtcdKV (VArr (map jvalue_of (map kv_json kvs))) old = (kvs, False)" for old
    by (simp add: store_slice_def Let_def comp_def store_kv_json list_ex_iff)
  have hdr: "store_struct store_header (VObj [(''revision'', VStr (dec_int rvn))]) old = (dec_int rvn, False)" for old
    by (simp add: store_struct_def store_fields_single event_store)
  have "valid_json (JObj [(''header'', JObj [(''revision'', JStr (dec_int rvn))]), (''kvs'', JArr (map kv_json kvs)),
       (''count'', JStr (dec (length kvs)))])"
    using assms(1) by (auto simp: kv_json_def kv_ok_def list_all_iff)
  from json_parse_encode [OF this]
  have "Unmarshal store_range_response (range_message rvn kvs) \<lparr>rr_Revision = [], rr_Kvs = []\<rparr> =
      (\<lparr>rr_Revision = dec_int rvn, rr_Kvs = kvs\<rparr>, False)"
    by (simp add: Unmarshal_def range_message_def store_struct_def [of store_range_response] store_fields_def
        store_range_response_def key_matches_def fold_name_events fold_name_kvs hdr slice del: map_map)
  then show ?thesis by (simp add: etcdRange_def ParseInt_dec_int [OF assms(2)])
qed

text \<open>A stored record of an IPv4 address, as the range reply of the store shows it.\<close>

definition stored_kv :: "IP \<times> BlockRecord \<times> int64 \<times> int64 \<Rightarrow> EtcdKV" where
  "stored_kv x = (case x of (p, rec, create, modr) \<Rightarrow>
     \<lparr>kv_Key = b64 (rblKey (v4InV6Prefix @ p)), kv_Value = b64 (json_encode (BlockRecord_json rec)),
      kv_CreateRevision = dec_int create, kv_ModRevision = dec_int modr, kv_Version = ''1''\<rparr>)"

definition stored_entry :: "IP \<times> BlockRecord \<times> int64 \<times> int64 \<Rightarrow> BlockEntry" where
  "stored_entry x = (case x of (p, rec, create, modr) \<Rightarrow> record_entry (string4 p) rec create modr)"

definition stored_ok :: "IP \<times> BlockRecord \<times> int64 \<times> int64 \<Rightarrow> bool" where
  "stored_ok x \<longleftrightarrow> (case x of (p, rec, create, modr) \<Rightarrow>
     length p = 4 \<and> record_ok rec \<and> int64_range create \<and> int64_range modr)"

lemma load_kv_effects [simp]:
  "cidrTable (load_kv kv st) = cidrTable st" "gEtcdRevision (load_kv kv st) = gEtcdRevision st"
  "gMultiInstanceMode (load_kv kv st) = gMultiInstanceMode st"
  by (simp_all add: load_kv_def Let_def)

lemma load_stored:
  assumes "stored_ok x"
  shows "ipTable (load_kv (stored_kv x) st) = ip_put (stored_entry x) (ipTable st)"
proof -
  obtain p rec create modr where x: "x = (p, rec, create, modr)" by (cases x)
  with assms have ok: "length p = 4" "record_ok rec" "int64_range create" "int64_range modr" by (simp_all add: stored_ok_def)
  let ?ip = "v4InV6Prefix @ p"
  have l: "length ?ip = 16" using ok(1) by simp
  have parts: "split_on CHR ''/'' (rblKey ?ip) = [[], ''skydns'', ''internal'', ''open-blocklist''] @ map (\<lambda>b. dec (unat b)) p"
    using split_rblKey [OF l] ok(1) by (simp add: ip_parts_v4)
  obtain a b c d where p: "p = [a, b, c, d]" using four_of [OF ok(1)] by blast
  have "load_kv (stored_kv x) st = ipTable_store (record_entry (string4 p) rec create modr) st"
    using Unmarshal_BlockRecord [OF ok(2)] parts
    by (simp add: load_kv_def x stored_kv_def b64_def b64d_def parseInt64_def ParseInt_dec_int ok p string4_def join_with_Cons Let_def)
  then show ?thesis by (simp add: x stored_entry_def)
qed

lemma fold_load_stored:
  assumes "\<forall>x \<in> set xs. stored_ok x"
  shows "ipTable (fold load_kv (map stored_kv xs) st) = fold ip_put (map stored_entry xs) (ipTable st)"
    and "cidrTable (fold load_kv (map stored_kv xs) st) = cidrTable st"
    and "gEtcdRevision (fold load_kv (map stored_kv xs) st) = gEtcdRevision st"
    and "gMultiInstanceMode (fold load_kv (map stored_kv xs) st) = gMultiInstanceMode st"
  using assms by (induction xs arbitrary: st) (simp_all add: load_stored)

lemma load_restores:
  assumes "\<forall>x \<in> set xs. stored_ok x" "int64_range rvn" "ipTable st = []" "cidrTable st = []"
  shows "\<exists>st'. loadFromEtcd (Some (range_message rvn (map stored_kv xs))) st = Some st' \<and>
    ip_invar (ipTable st') \<and> cidrTable st' = [] \<and> gEtcdRevision st' = rvn \<and> gMultiInstanceMode st' = gMultiInstanceMode st \<and>
    ip_get (ipTable st') = map_of (rev (map (\<lambda>x. (be_IP (stored_entry x), stored_entry x)) xs))"
proof -
  have "\<forall>kv \<in> set (map stored_kv xs). kv_ok kv"
    by (auto simp: kv_ok_def stored_kv_def)
  note range = etcdRange_message [OF this assms(2)]
  have inv: "ip_invar []" by (simp add: ip_invar_def)
  have "ip_get [] = Map.empty" by (auto simp: ip_get_def)
  then have "ip_get (fold ip_put (map stored_entry xs) []) = map_of (rev (map (\<lambda>x. (be_IP (stored_entry x), stored_entry x)) xs))"
    using ips.lookup_puts [OF inv, of "map stored_entry xs"] by (simp add: comp_def)
  with ips.invar_puts [OF inv] show ?thesis
    using assms(3,4) by (simp add: loadFromEtcd_def range fold_load_stored [OF assms(1)])
qed

text \<open>A restart rebuilds the address table. From a range reply that lists records of IPv4
  addresses in the form in which the service writes them, \<open>loadFromEtcd\<close> succeeds and fills an
  empty table with exactly one entry per stored address, with every field of its record and
  the revisions of the store, and the watchers start from the revision of the reply.\<close>

theorem load_restores_table:
  assumes "\<forall>x \<in> set xs. stored_ok x" "int64_range rvn"
  shows "\<exists>st. loadFromEtcd (Some (range_message rvn (map stored_kv xs))) (initial_server multi) = Some st \<and>
    tables_ok st \<and> gEtcdRevision st = rvn \<and>
    ip_get (ipTable st) = map_of (rev (map (\<lambda>x. (be_IP (stored_entry x), stored_entry x)) xs))"
  using load_restores [OF assms, of "initial_server multi"] by (auto simp: tables_ok_def cidr_invar_def)

theorem load_restores_table_witness:
  "\<exists>st. loadFromEtcd (Some (range_message 9 [stored_kv ([192, 0, 2, 1], put_record (put_defaults 7) 7, 5, 6)])) (initial_server True) =
     Some st \<and> ip_get (ipTable st) ''192.0.2.1'' =
       Some ((put_entry ''192.0.2.1'' (put_defaults 7) 7)\<lparr>be_CreateRevision := 5, be_ModRevision := 6\<rparr>)"
proof -
  let ?x = "([192, 0, 2, 1] :: IP, put_record (put_defaults 7) 7, 5 :: int64, 6 :: int64)"
  have "record_ok (put_record (put_defaults 7) 7)"
    by (rule record_ok_put_record) (simp_all add: put_defaults_def defaultSource_def int64_range_def)
  then have ok: "\<forall>x \<in> set [?x]. stored_ok x" by (simp add: stored_ok_def int64_range_def)
  have t: "string4 [192, 0, 2, 1] = ''192.0.2.1''" by (simp add: net_eval)
  show ?thesis
    using load_restores_table [OF ok, of 9 True] t
    by (auto simp: int64_range_def stored_entry_def record_entry_put_record put_entry_def)
qed

section \<open>One revision for two watchers\<close>

lemma watch_event_cidrTable [simp]: "cidrTable (watch_event ev st) = cidrTable st"
  by (simp add: watch_event_def Let_def case_prod_unfold)

lemma fold_watch_event:
  "cidrTable (fold watch_event evs st) = cidrTable st" "gEtcdRevision (fold watch_event evs st) = gEtcdRevision st"
  by (induction evs arbitrary: st) (simp_all add: watch_event_revision)

lemma cidr_watch_requests:
  "etcd_requests (cidr_watch_event ev st) = etcd_requests st"
  "etcd_requests (updateRevision n st) = etcd_requests st"
  by (simp_all add: cidr_watch_event_def updateRevision_def Let_def case_prod_unfold split: option.splits)

lemma cidr_line_requests: "etcd_requests (cidr_watch_line l st) = etcd_requests st"
proof -
  have "etcd_requests (fold cidr_watch_event evs s) = etcd_requests s" for evs s
    by (induction evs arbitrary: s) (simp_all add: cidr_watch_requests)
  then show ?thesis by (simp add: cidr_watch_line_def Let_def case_prod_unfold cidr_watch_requests)
qed

lemma cidr_lines_requests: "etcd_requests (fold cidr_watch_line ls st) = etcd_requests st"
  by (induction ls arbitrary: st) (simp_all add: cidr_line_requests)

text \<open>C38: The address watcher moves the starting point of the network watcher. Both loops share
  one revision: as soon as the address watcher has read a message with a newer revision, the
  next connection of the network watcher starts after that revision, although nothing up to it
  has been applied to the network table; changes of networks that were stored while the network
  watcher was disconnected are not asked for.\<close>

theorem network_watch_skips_revisions:
  assumes "\<forall>ev \<in> set evs. event_ok ev" "int64_range rvn" "gEtcdRevision st < rvn" "conn \<noteq> RequestFailed"
  shows "\<exists>st'. st' = watch_line (watch_message rvn evs) st \<and> cidrTable st' = cidrTable st \<and>
    etcd_requests (cidr_watch_round conn st') = etcd_requests st' @ [watch_request cidrPrefix rvn]"
proof -
  let ?st = "watch_line (watch_message rvn evs) st"
  note line = watch_line_message(1) [OF assms(1,2)]
  have "cidrTable ?st = cidrTable st" "gEtcdRevision ?st = rvn"
    using gEtcdRevision_watch_revision(1) [OF assms(2)] assms(3) by (simp_all add: line fold_watch_event)
  with assms(4) show ?thesis
    by (cases conn) (auto simp: cidr_watch_round_def Let_def case_prod_unfold cidr_lines_requests)
qed

theorem network_watch_skips_revisions_witness:
  "etcd_requests (cidr_watch_round ConnectFailed (watch_line (watch_message 9 []) (initial_server True))) =
   etcd_requests (watch_line (watch_message 9 []) (initial_server True)) @ [watch_request cidrPrefix 9]"
  using network_watch_skips_revisions [of "[]" 9 "initial_server True" ConnectFailed] by (simp add: int64_range_def)

end
