(* ===== verification/CrowdSecFetch.thy ===== *)
theory CrowdSecFetch
  imports CrowdSec Replication
begin

text \<open>
  Fetching decisions from the CrowdSec local API (\<open>fetchCrowdSecDecisions\<close> of
  \<open>src/src/crowdsec.go\<close>) and the loop on the raw replies. The slices of the stream hold
  pointers: a JSON null in them is a nil pointer, which the loop dereferences, so a run on
  such a reply is the result \<open>None\<close> (the process panics).
\<close>

section \<open>Decoding a stream\<close>

definition zero_csDecision :: csDecision where
  "zero_csDecision =
     \<lparr>cs_ID = 0, cs_Value = [], cs_Type = [], cs_Origin = [], cs_Scenario = [], cs_Duration = [], cs_Scope = []\<rparr>"

definition store_csDecision :: "string \<Rightarrow> jvalue \<Rightarrow> csDecision \<Rightarrow> csDecision \<times> bool" where
  "store_csDecision key v r =
     (if key_matches key ''id'' then apfst (\<lambda>x. r\<lparr>cs_ID := x\<rparr>) (store_int v (cs_ID r))
      else if key_matches key ''value'' then apfst (\<lambda>x. r\<lparr>cs_Value := x\<rparr>) (store_string v (cs_Value r))
      else if key_matches key ''type'' then apfst (\<lambda>x. r\<lparr>cs_Type := x\<rparr>) (store_string v (cs_Type r))
      else if key_matches key ''origin'' then apfst (\<lambda>x. r\<lparr>cs_Origin := x\<rparr>) (store_string v (cs_Origin r))
      else if key_matches key ''scenario'' then apfst (\<lambda>x. r\<lparr>cs_Scenario := x\<rparr>) (store_string v (cs_Scenario r))
      else if key_matches key ''duration'' then apfst (\<lambda>x. r\<lparr>cs_Duration := x\<rparr>) (store_string v (cs_Duration r))
      else if key_matches key ''scope'' then apfst (\<lambda>x. r\<lparr>cs_Scope := x\<rparr>) (store_string v (cs_Scope r))
      else (r, False))"

text \<open>A slice of pointers to structs.\<close>

definition store_pointer ::
  "(string \<Rightarrow> jvalue \<Rightarrow> 'r \<Rightarrow> 'r \<times> bool) \<Rightarrow> 'r \<Rightarrow> jvalue \<Rightarrow> 'r option \<times> bool" where
  "store_pointer store zero v = (if v = VNull then (None, False) else apfst Some (store_struct store v zero))"

definition store_pointers ::
  "(string \<Rightarrow> jvalue \<Rightarrow> 'r \<Rightarrow> 'r \<times> bool) \<Rightarrow> 'r \<Rightarrow> jvalue \<Rightarrow> 'r option list \<Rightarrow> 'r option list \<times> bool" where
  "store_pointers store zero v old =
     (case v of
        VArr vs \<Rightarrow> (let rs = map (store_pointer store zero) vs in (map fst rs, list_ex snd rs))
      | VNull \<Rightarrow> ([], False)
      | _ \<Rightarrow> (old, True))"

record raw_stream =
  raw_New :: "csDecision option list"
  raw_Deleted :: "csDecision option list"

definition store_csDecisionStream :: "string \<Rightarrow> jvalue \<Rightarrow> raw_stream \<Rightarrow> raw_stream \<times> bool" where
  "store_csDecisionStream key v r =
     (if key_matches key ''new''
      then apfst (\<lambda>x. r\<lparr>raw_New := x\<rparr>) (store_pointers store_csDecision zero_csDecision v (raw_New r))
      else if key_matches key ''deleted''
      then apfst (\<lambda>x. r\<lparr>raw_Deleted := x\<rparr>) (store_pointers store_csDecision zero_csDecision v (raw_Deleted r))
      else (r, False))"

text \<open>\<open>Decoder.Decode\<close> reads one value and leaves what follows it unread.\<close>

definition Decode ::
  "(string \<Rightarrow> jvalue \<Rightarrow> 'r \<Rightarrow> 'r \<times> bool) \<Rightarrow> string \<Rightarrow> 'r \<Rightarrow> 'r \<times> bool" where
  "Decode store s r =
     (case jparse (json_fuel s) s of None \<Rightarrow> (r, True) | Some (v, _) \<Rightarrow> store_struct store v r)"

section \<open>Fetching\<close>

record lapi_request =
  lq_URL :: string
  lq_APIKey :: string

datatype lapi_outcome =
    LapiRequestFailed
  | LapiConnectFailed
  | LapiReply nat string

datatype fetch_error =
    FetchTransport
  | FetchStatus nat
  | FetchDecode

definition fetch_request :: "string \<Rightarrow> string \<Rightarrow> bool \<Rightarrow> lapi_request" where
  "fetch_request url apiKey startup =
     \<lparr>lq_URL = url @ ''/v1/decisions/stream'' @ (if startup then ''?startup=true'' else []), lq_APIKey = apiKey\<rparr>"

definition fetchCrowdSecDecisions :: "lapi_outcome \<Rightarrow> fetch_error + raw_stream" where
  "fetchCrowdSecDecisions out =
     (case out of
        LapiRequestFailed \<Rightarrow> Inl FetchTransport
      | LapiConnectFailed \<Rightarrow> Inl FetchTransport
      | LapiReply code body \<Rightarrow>
          if code \<noteq> 200 then Inl (FetchStatus code)
          else case Decode store_csDecisionStream body \<lparr>raw_New = [], raw_Deleted = []\<rparr> of
                 (stream, err) \<Rightarrow> if err then Inl FetchDecode else Inr stream)"

text \<open>The decisions behind the pointers; a nil pointer makes the run panic.\<close>

definition deref_stream :: "raw_stream \<Rightarrow> csDecisionStream option" where
  "deref_stream raw =
     (if None \<in> set (raw_New raw) \<union> set (raw_Deleted raw) then None
      else Some \<lparr>cs_New = map the (raw_New raw), cs_Deleted = map the (raw_Deleted raw)\<rparr>)"

text \<open>One round of \<open>crowdSecLoop\<close> from the raw reply. At startup the deletions of the reply are
  not looked at, so a nil pointer among them is harmless then.\<close>

definition crowdSecPoll ::
  "(nat \<Rightarrow> nat \<Rightarrow> int) \<Rightarrow> lapi_outcome \<Rightarrow> bool \<times> server \<Rightarrow> (bool \<times> server) option" where
  "crowdSecPoll clk out s =
     (case fetchCrowdSecDecisions out of
        Inl err \<Rightarrow> Some (crowdSecRound clk None s)
      | Inr raw \<Rightarrow>
          map_option (\<lambda>stream. crowdSecRound clk (Some stream) s)
            (deref_stream (if fst s then raw\<lparr>raw_Deleted := []\<rparr> else raw)))"

fun crowdSecPolls ::
  "(nat \<Rightarrow> nat \<Rightarrow> nat \<Rightarrow> int) \<Rightarrow> nat \<Rightarrow> lapi_outcome list \<Rightarrow> bool \<times> server \<Rightarrow> (bool \<times> server) option" where
  "crowdSecPolls clk n [] s = Some s"
| "crowdSecPolls clk n (out # outs) s =
     (case crowdSecPoll (clk n) out s of None \<Rightarrow> None | Some s' \<Rightarrow> crowdSecPolls clk (Suc n) outs s')"

section \<open>Round trip of a stream\<close>

definition csDecision_json :: "csDecision \<Rightarrow> json" where
  "csDecision_json d =
     JObj [(''duration'', JStr (cs_Duration d)), (''id'', JInt (cs_ID d)), (''origin'', JStr (cs_Origin d)),
       (''scenario'', JStr (cs_Scenario d)), (''scope'', JStr (cs_Scope d)), (''type'', JStr (cs_Type d)),
       (''value'', JStr (cs_Value d))]"

definition stream_json :: "csDecisionStream \<Rightarrow> json" where
  "stream_json s = JObj [(''deleted'', JArr (map csDecision_json (cs_Deleted s))), (''new'', JArr (map csDecision_json (cs_New s)))]"

definition decision_ok :: "csDecision \<Rightarrow> bool" where
  "decision_ok d \<longleftrightarrow> int64_range (cs_ID d) \<and> valid_utf8 (cs_Value d) \<and> valid_utf8 (cs_Type d) \<and> valid_utf8 (cs_Origin d) \<and>
     valid_utf8 (cs_Scenario d) \<and> valid_utf8 (cs_Duration d) \<and> valid_utf8 (cs_Scope d)"

lemma fold_name_decision:
  "fold_name ''id'' = ''ID''" "fold_name ''origin'' = ''ORIGIN''" "fold_name ''duration'' = ''DURATION''"
  "fold_name ''scope'' = ''SCOPE''" "fold_name ''new'' = ''NEW''" "fold_name ''deleted'' = ''DELETED''"
  by (simp_all add: char_of_def bit_iff_odd)

lemma store_decision:
  assumes "int64_range (cs_ID d)"
  shows "store_pointer store_csDecision zero_csDecision (jvalue_of (csDecision_json d)) = (Some d, False)"
  using assms
  by (simp add: store_pointer_def store_struct_def store_fields_def csDecision_json_def store_csDecision_def key_matches_def
      fold_name_decision fold_name_events fold_name_fields store_string_def store_int_dec zero_csDecision_def)

lemma store_decisions:
  assumes "\<forall>d \<in> set ds. decision_ok d"
  shows "store_pointers store_csDecision zero_csDecision (VArr (map jvalue_of (map csDecision_json ds))) old = (map Some ds, False)"
  using assms by (auto simp: store_pointers_def Let_def comp_def store_decision decision_ok_def list_ex_iff)

lemma valid_csDecision_json: "decision_ok d \<Longrightarrow> valid_json (csDecision_json d)"
  by (simp add: csDecision_json_def decision_ok_def)

lemma Decode_encode:
  assumes "valid_json j"
  shows "Decode store (json_encode j) r = store_struct store (jvalue_of j) r"
proof -
  from json_parse_encode [OF assms] obtain rest where "jparse (json_fuel (json_encode j)) (json_encode j) = Some (jvalue_of j, rest)"
    by (auto simp: json_parse_def split: option.splits if_splits)
  then show ?thesis by (simp add: Decode_def)
qed

lemma fetch_stream:
  assumes "\<forall>d \<in> set (cs_New s). decision_ok d" "\<forall>d \<in> set (cs_Deleted s). decision_ok d"
  shows "fetchCrowdSecDecisions (LapiReply 200 (json_encode (stream_json s))) =
    Inr \<lparr>raw_New = map Some (cs_New s), raw_Deleted = map Some (cs_Deleted s)\<rparr>"
proof -
  have "valid_json (stream_json s)" using assms valid_csDecision_json by (auto simp: stream_json_def list_all_iff)
  note dec = Decode_encode [OF this]
  have "store_struct store_csDecisionStream (jvalue_of (stream_json s)) \<lparr>raw_New = [], raw_Deleted = []\<rparr> =
      (\<lparr>raw_New = map Some (cs_New s), raw_Deleted = map Some (cs_Deleted s)\<rparr>, False)"
    using store_decisions [OF assms(1)] store_decisions [OF assms(2)]
    by (simp add: stream_json_def store_struct_def store_fields_def store_csDecisionStream_def key_matches_def
        fold_name_decision del: map_map)
  then show ?thesis by (simp add: fetchCrowdSecDecisions_def dec)
qed

section \<open>Properties\<close>

text \<open>C29: The poll loop works on the decisions of the reply, and a bad reply has no effect. A
  reply with status 200 that encodes a stream of decisions in valid UTF-8 is processed as that
  stream; a failed connection, another status or a body that does not decode changes neither
  table, sends nothing to etcd and leaves the loop in its phase, so that a failed start-up
  reconciliation is tried again.\<close>

theorem poll_reads_stream:
  "((\<forall>d \<in> set (cs_New stream) \<union> set (cs_Deleted stream). decision_ok d) \<longrightarrow>
      crowdSecPoll clk (LapiReply 200 (json_encode (stream_json stream))) (startup, st) =
        Some (crowdSecRound clk (Some (if startup then stream\<lparr>cs_Deleted := []\<rparr> else stream)) (startup, st))) \<and>
   (\<forall>err. fetchCrowdSecDecisions out = Inl err \<longrightarrow>
      (\<exists>st'. crowdSecPoll clk out (startup, st) = Some (startup, st') \<and> same_store st' st)) \<and>
   (code \<noteq> 200 \<longrightarrow> fetchCrowdSecDecisions (LapiReply code body) = Inl (FetchStatus code))"
proof -
  have "deref_stream \<lparr>raw_New = map Some (cs_New stream), raw_Deleted = map Some (cs_Deleted stream)\<rparr> = Some stream"
    "deref_stream \<lparr>raw_New = map Some (cs_New stream), raw_Deleted = []\<rparr> = Some (stream\<lparr>cs_Deleted := []\<rparr>)"
    by (auto simp: deref_stream_def comp_def)
  then show ?thesis
    by (auto simp: crowdSecPoll_def fetch_stream crowdSecRound_def same_store_def)
      (simp add: fetchCrowdSecDecisions_def)
qed

theorem poll_reads_stream_witness:
  "crowdSecPoll (\<lambda>_ _. 0) (LapiReply 200 (json_encode (stream_json
      \<lparr>cs_New = [sample_decision ''192.0.2.7''], cs_Deleted = []\<rparr>))) (True, sample_tables) =
   Some (crowdSecRound (\<lambda>_ _. 0) (Some \<lparr>cs_New = [sample_decision ''192.0.2.7''], cs_Deleted = []\<rparr>) (True, sample_tables))"
proof -
  have "\<forall>d \<in> set (cs_New \<lparr>cs_New = [sample_decision ''192.0.2.7''], cs_Deleted = []\<rparr>) \<union>
      set (cs_Deleted \<lparr>cs_New = [sample_decision ''192.0.2.7''], cs_Deleted = []\<rparr>). decision_ok d"
    by (simp add: sample_decision_def decision_ok_def int64_range_def)
  from mp [OF conjunct1 [OF poll_reads_stream] this, of "\<lambda>_ _. 0" True sample_tables] show ?thesis by simp
qed

end
