(* ===== verification/Config.thy ===== *)
theory Config
  imports Log Etcd
begin

text \<open>
  Configuration: the environment readers of \<open>src/src/helpers.go\<close>, the log level names of
  \<open>src/src/main.go\<close>, the settings of \<open>initCrowdSec\<close> and the small text helpers of start-up. The
  environment is a parameter, a map from variable names to values; a value that does not parse
  is reported in the log and the default is used.
\<close>

section \<open>Log levels\<close>

text \<open>\<open>unicode.IsSpace\<close> as the UTF-8 sequences that \<open>strings.TrimSpace\<close> removes.\<close>

definition spaces :: "string list" where
  "spaces =
     map (\<lambda>n. [char_of n]) [0x09, 0x0A, 0x0B, 0x0C, 0x0D, 0x20 :: nat] @
     map (map char_of) ([[0xC2, 0x85], [0xC2, 0xA0], [0xE1, 0x9A, 0x80], [0xE2, 0x80, 0x80], [0xE2, 0x80, 0x81],
       [0xE2, 0x80, 0x82], [0xE2, 0x80, 0x83], [0xE2, 0x80, 0x84], [0xE2, 0x80, 0x85], [0xE2, 0x80, 0x86],
       [0xE2, 0x80, 0x87], [0xE2, 0x80, 0x88], [0xE2, 0x80, 0x89], [0xE2, 0x80, 0x8A], [0xE2, 0x80, 0xA8],
       [0xE2, 0x80, 0xA9], [0xE2, 0x80, 0xAF], [0xE2, 0x81, 0x9F], [0xE3, 0x80, 0x80]] :: nat list list)"

function trim_left :: "string list \<Rightarrow> string \<Rightarrow> string" where
  "trim_left sps s =
     (case find (\<lambda>p. p \<noteq> [] \<and> has_prefix s p) sps of
        None \<Rightarrow> s
      | Some p \<Rightarrow> trim_left sps (drop (length p) s))"
  by pat_completeness auto
termination
proof (relation "measure (length \<circ> snd)")
  fix sps s p
  assume "find (\<lambda>p. p \<noteq> [] \<and> has_prefix s p) sps = Some p"
  then have "p \<noteq> []" "has_prefix s p" by (auto simp: find_Some_iff)
  then have "s \<noteq> []" by (auto simp: has_prefix_def)
  with \<open>p \<noteq> []\<close> show "((sps, drop (length p) s), (sps, s)) \<in> measure (length \<circ> snd)" by simp
qed simp

declare trim_left.simps [simp del]

definition TrimSpace :: "string \<Rightarrow> string" where
  "TrimSpace s = rev (trim_left (map rev spaces) (rev (trim_left spaces s)))"

text \<open>\<open>strings.ToLower\<close> as far as its result can be ASCII: besides the ASCII capitals the dotted
  capital I (U+0130) becomes \<open>i\<close> and the Kelvin sign (U+212A) becomes \<open>k\<close>; other non-ASCII
  letters stay non-ASCII.\<close>

fun ToLower :: "string \<Rightarrow> string" where
  "ToLower [] = []"
| "ToLower (c # cs) =
     (if c = CHR 0xC4 \<and> take 1 cs = [CHR 0xB0] then CHR ''i'' # ToLower (tl cs)
      else if c = CHR 0xE2 \<and> take 2 cs = [CHR 0x84, CHR 0xAA] then CHR ''k'' # ToLower (tl (tl cs))
      else lower_ascii c # ToLower cs)"

definition ParseLogLevel :: "string \<Rightarrow> LogLevel option" where
  "ParseLogLevel s =
     (let t = ToLower (TrimSpace s) in
      if t = ''none'' then Some LOG_NONE
      else if t = ''error'' then Some LOG_ERROR
      else if t = ''info'' then Some LOG_INFO
      else if t = ''verbose'' then Some LOG_VERBOSE
      else if t = ''debug'' then Some LOG_DEBUG
      else None)"

section \<open>The environment\<close>

type_synonym environment = "string \<Rightarrow> string option"

text \<open>\<open>os.Getenv\<close>: the empty text for a variable that is not set.\<close>

definition Getenv :: "environment \<Rightarrow> string \<Rightarrow> string" where
  "Getenv env key = (case env key of Some v \<Rightarrow> v | None \<Rightarrow> [])"

definition getEnv :: "environment \<Rightarrow> string \<Rightarrow> string \<Rightarrow> string" where
  "getEnv env key fallback = (let v = Getenv env key in if v \<noteq> [] then v else fallback)"

definition getEnvLogLevel :: "environment \<Rightarrow> string \<Rightarrow> LogLevel \<Rightarrow> server \<Rightarrow> LogLevel \<times> server" where
  "getEnvLogLevel env key fallback st =
     (let v = Getenv env key in
      if v \<noteq> [] then
        (case ParseLogLevel v of
           Some level \<Rightarrow> (level, st)
         | None \<Rightarrow> (fallback, log_call (LogMsg LOG_ERROR ''ERROR: Invalid log level [%s] for environment variable %s : %v'') st))
      else (fallback, st))"

definition getEnvInt64 :: "environment \<Rightarrow> string \<Rightarrow> int64 \<Rightarrow> server \<Rightarrow> int64 \<times> server" where
  "getEnvInt64 env key fallback st =
     (let v = Getenv env key in
      if v \<noteq> [] then
        (case ParseInt v of
           (n, err) \<Rightarrow>
             if \<not> err then (n, st)
             else (fallback,
               log_call (LogMsg LOG_ERROR ''ERROR: Invalid numeric value [%s] for environment variable %s : %v'') st))
      else (fallback, st))"

text \<open>\<open>int\<close> has 64 bits on the supported platforms, so \<open>strconv.Atoi\<close> accepts what
  \<open>strconv.ParseInt\<close> accepts.\<close>

definition getEnvInt :: "environment \<Rightarrow> string \<Rightarrow> int64 \<Rightarrow> server \<Rightarrow> int64 \<times> server" where
  "getEnvInt env key fallback st =
     (let v = Getenv env key in
      if v \<noteq> [] then
        (case ParseInt v of
           (n, err) \<Rightarrow>
             if \<not> err then (n, st)
             else (fallback,
               log_call (LogMsg LOG_ERROR ''ERROR: Invalid numeric value [%s] for environment variable %s : %v'') st))
      else (fallback, st))"

definition ParseBool :: "string \<Rightarrow> bool option" where
  "ParseBool s =
     (if s \<in> set [''1'', ''t'', ''T'', ''TRUE'', ''true'', ''True''] then Some True
      else if s \<in> set [''0'', ''f'', ''F'', ''FALSE'', ''false'', ''False''] then Some False
      else None)"

definition getEnvBool :: "environment \<Rightarrow> string \<Rightarrow> bool \<Rightarrow> server \<Rightarrow> bool \<times> server" where
  "getEnvBool env key fallback st =
     (case env key of
        None \<Rightarrow> (fallback, st)
      | Some val \<Rightarrow>
          if val = [] then (fallback, st)
          else case ParseBool val of
            None \<Rightarrow> (fallback, log_call (LogMsg LOG_ERROR ''Warning: Invalid bool value [%s] for environment variable %s : %v'') st)
          | Some parsed \<Rightarrow> (parsed, st))"

section \<open>CrowdSec settings\<close>

record crowdsec_config =
  gCrowdSecEnabled :: bool
  gCrowdSecLAPIURL :: string
  gCrowdSecAPIKey :: string
  gCrowdSecPollInterval :: int64

definition env_openbl_CrowdSecEnabled :: string where "env_openbl_CrowdSecEnabled = ''OPENBL_CROWDSEC_ENABLED''"
definition env_openbl_CrowdSecLAPIURL :: string where "env_openbl_CrowdSecLAPIURL = ''OPENBL_CROWDSEC_LAPI_URL''"
definition env_openbl_CrowdSecAPIKey :: string where "env_openbl_CrowdSecAPIKey = ''OPENBL_CROWDSEC_API_KEY''"
definition env_openbl_CrowdSecPollInterval :: string where "env_openbl_CrowdSecPollInterval = ''OPENBL_CROWDSEC_POLL_INTERVAL''"
definition defaultCrowdSecLAPIURL :: string where "defaultCrowdSecLAPIURL = ''http://crowdsec:8080''"

definition initCrowdSec :: "environment \<Rightarrow> server \<Rightarrow> crowdsec_config \<times> server" where
  "initCrowdSec env st =
     (let (enabled, st) = getEnvBool env env_openbl_CrowdSecEnabled False st;
          cfg = \<lparr>gCrowdSecEnabled = enabled,
                 gCrowdSecLAPIURL = getEnv env env_openbl_CrowdSecLAPIURL defaultCrowdSecLAPIURL,
                 gCrowdSecAPIKey = getEnv env env_openbl_CrowdSecAPIKey [],
                 gCrowdSecPollInterval = 30 * second\<rparr>;
          s = getEnv env env_openbl_CrowdSecPollInterval []
      in if s \<noteq> [] then
           (case ParseDuration s of
              None \<Rightarrow> (cfg, log_call (LogMsg LOG_ERROR ''Invalid CrowdSec poll interval %q: %v'') st)
            | Some d \<Rightarrow> (cfg\<lparr>gCrowdSecPollInterval := d\<rparr>, st))
         else (cfg, st))"

text \<open>Whether \<open>startCrowdSecBouncer\<close> starts the loop.\<close>

definition startCrowdSecBouncer :: "crowdsec_config \<Rightarrow> server \<Rightarrow> bool \<times> server" where
  "startCrowdSecBouncer cfg st =
     (if \<not> gCrowdSecEnabled cfg then (False, st)
      else if gCrowdSecAPIKey cfg = [] then (False, log_call (LogMsg LOG_ERROR ''CrowdSec enabled but %s is not set'') st)
      else (True, log_call (LogMsg LOG_INFO ''Starting CrowdSec bouncer (LAPI: %s, poll: %s)'') st))"

section \<open>Text helpers of start-up\<close>

text \<open>The loop of \<open>formatBytes\<close>; \<open>exp\<close> indexes the unit letters.\<close>

function formatBytes_loop :: "nat \<Rightarrow> int64 \<Rightarrow> nat \<Rightarrow> int64 \<times> nat" where
  "formatBytes_loop n dv ex = (if n \<ge> 1024 then formatBytes_loop (n div 1024) (wrap64 (dv * 1024)) (ex + 1) else (dv, ex))"
  by pat_completeness auto
termination
  by (relation "measure (\<lambda>(n, _, _). n)") auto

declare formatBytes_loop.simps [simp del]

definition fmt_f2 :: "nat \<times> nat \<Rightarrow> string" where
  "fmt_f2 x = (let v = round_half_even (fst x * 100) (snd x) in dec (v div 100) @ ''.'' @ zero_pad 2 (v mod 100))"

text \<open>\<open>None\<close> is the panic of an index out of range.\<close>

definition formatBytes :: "int64 \<Rightarrow> string option" where
  "formatBytes b =
     (if b < 1024 then Some (dec_int b @ ''B'')
      else
        let (dv, ex) = formatBytes_loop (nat (b div 1024)) 1024 0;
            (bn, bd) = fl (nat b) 1;
            value = fl bn (bd * nat dv)
        in if ex < length ''KMGTPE'' then Some (fmt_f2 value @ '' '' @ [''KMGTPE'' ! ex] @ ''B'') else None)"

text \<open>\<open>strings.Index\<close> of a two-character text.\<close>

fun index_go :: "string \<Rightarrow> nat option" where
  "index_go [] = None"
| "index_go (c # cs) =
     (if take 2 (c # cs) = ''go'' then Some 0 else map_option Suc (index_go cs))"

definition parseGoVersionBuild :: "string \<Rightarrow> int64" where
  "parseGoVersionBuild v =
     (case index_go v of
        None \<Rightarrow> 0
      | Some i \<Rightarrow>
          let v = drop (i + 2) v;
              parts = split_on CHR ''.'' v;
              major = (if length parts > 0 then parseInt64 (parts ! 0) else 0);
              minor = (if length parts > 1 then parseInt64 (parts ! 1) else 0);
              patch = (if length parts > 2 then parseInt64 (takeWhile is_digit (parts ! 2)) else 0)
          in wrap64 (major * 10000 + minor * 100 + patch))"

text \<open>\<open>strings.Trim\<close> with a cutset of one character, and the parser of \<open>/etc/os-release\<close> on the
  contents of the file (a scanner with the default buffer); the flag is \<open>scanner.Err\<close>.\<close>

definition trim_char :: "char \<Rightarrow> string \<Rightarrow> string" where
  "trim_char c s = rev (dropWhile (\<lambda>x. x = c) (rev (dropWhile (\<lambda>x. x = c) s)))"

definition os_release_line :: "string \<Rightarrow> (string \<times> string) list \<Rightarrow> (string \<times> string) list" where
  "os_release_line line data =
     (if has_prefix line ''#'' \<or> \<not> contains_byte line CHR ''='' then data
      else AList.update (takeWhile (\<lambda>c. c \<noteq> CHR ''='') line)
             (trim_char (CHR 0x22) (tl (dropWhile (\<lambda>c. c \<noteq> CHR ''='') line))) data)"

definition readOSRelease :: "string option \<Rightarrow> ((string \<times> string) list \<times> bool) option" where
  "readOSRelease file =
     map_option (\<lambda>body. case scan_lines (64 * 1024) body of
       (lines, tooLong) \<Rightarrow> (fold os_release_line lines [], tooLong)) file"

text \<open>\<open>sleepWithShutdownCheck\<close>: \<open>shutdown i\<close> is the flag as read in round \<open>i\<close>.\<close>

definition sleepWithShutdownCheck :: "nat \<Rightarrow> (nat \<Rightarrow> bool) \<Rightarrow> bool" where
  "sleepWithShutdownCheck n shutdown = list_ex shutdown [0..<n]"

section \<open>Waiting for etcd\<close>

datatype wait_result = EtcdAvailable | EtcdFatal | EtcdWaiting

text \<open>An attempt is the status of the reply (\<open>None\<close> for a failed request) and the time read after
  it, in nanoseconds; the loop on the attempts made so far.\<close>

fun waitForEtcd_loop ::
  "int \<Rightarrow> int \<Rightarrow> int \<Rightarrow> (nat option \<times> int) list \<Rightarrow> server \<Rightarrow> wait_result \<times> server" where
  "waitForEtcd_loop start nextReport maxWait [] st = (EtcdWaiting, st)"
| "waitForEtcd_loop start nextReport maxWait ((status, now) # attempts) st =
     (if status = Some 200 then (EtcdAvailable, log_call (LogMsg LOG_INFO ''etcd is available'') st)
      else
        let report = now > nextReport;
            st = (if report then log_call (LogMsg LOG_INFO ''Waiting for etcd at %s (elapsed %d)'') st else st);
            nextReport = (if report then now + 10 * second else nextReport)
        in if now - start > maxWait
           then (EtcdFatal, log_call (LogMsg LOG_ERROR ''Etcd did not become available within %s'') st)
           else waitForEtcd_loop start nextReport maxWait attempts st)"

definition waitForEtcd :: "int \<Rightarrow> int \<Rightarrow> (nat option \<times> int) list \<Rightarrow> server \<Rightarrow> wait_result \<times> server" where
  "waitForEtcd start maxWait attempts st = waitForEtcd_loop start start maxWait attempts st"

section \<open>Properties\<close>

text \<open>What trimming and lower-casing do to the level names.\<close>

lemma trim_left_none: "(\<And>p. p \<in> set sps \<Longrightarrow> p \<noteq> [] \<Longrightarrow> \<not> has_prefix s p) \<Longrightarrow> trim_left sps s = s"
  by (subst trim_left.simps) (auto simp: find_None_iff split: option.splits dest: find_Some_iff [THEN iffD1])

text \<open>A letter does not start and does not end a space.\<close>

definition is_letter :: "char \<Rightarrow> bool" where
  "is_letter c \<longleftrightarrow> (let n = (of_char c :: nat) in (65 \<le> n \<and> n \<le> 90) \<or> (97 \<le> n \<and> n \<le> 122))"

lemma spaces_not_letter: "\<forall>p \<in> set spaces. p \<noteq> [] \<and> \<not> is_letter (hd p) \<and> \<not> is_letter (last p)"
  by (simp add: spaces_def is_letter_def)

lemma trim_right_letter:
  assumes "s \<noteq> []" "is_letter (last s)"
  shows "trim_left (map rev spaces) (rev s) = rev s"
proof (rule trim_left_none)
  fix p assume "p \<in> set (map rev spaces)" "p \<noteq> []"
  then have "\<not> is_letter (hd p)" using spaces_not_letter by (auto simp: hd_rev)
  then show "\<not> has_prefix (rev s) p" using assms \<open>p \<noteq> []\<close>
    by (metis has_prefix_iff hd_append2 hd_rev)
qed

lemma trim_left_blank: "trim_left spaces (CHR '' '' # s) = trim_left spaces s"
  by (subst trim_left.simps) (simp add: spaces_def has_prefix_def char_of_def bit_iff_odd)

lemma trim_right_blank: "trim_left (map rev spaces) (CHR '' '' # s) = trim_left (map rev spaces) s"
  by (subst trim_left.simps) (simp add: spaces_def has_prefix_def char_of_def bit_iff_odd)

lemma TrimSpace_blanks:
  assumes "s \<noteq> []" "is_letter (hd s)" "is_letter (last s)"
  shows "TrimSpace (replicate m CHR '' '' @ s @ replicate n CHR '' '') = s"
proof -
  have l: "trim_left spaces (replicate m CHR '' '' @ t) = trim_left spaces t" for t
    by (induction m) (simp_all add: trim_left_blank)
  have r: "trim_left (map rev spaces) (replicate n CHR '' '' @ t) = trim_left (map rev spaces) t" for t
    by (induction n) (simp_all add: trim_right_blank)
  have "trim_left spaces (s @ replicate n CHR '' '') = s @ replicate n CHR '' ''"
  proof (rule trim_left_none)
    fix p assume "p \<in> set spaces" "p \<noteq> []"
    then have "\<not> is_letter (hd p)" using spaces_not_letter by blast
    then show "\<not> has_prefix (s @ replicate n CHR '' '') p" using assms(1,2) \<open>p \<noteq> []\<close>
      by (metis has_prefix_iff hd_append2)
  qed
  then have "TrimSpace (replicate m CHR '' '' @ s @ replicate n CHR '' '') = rev (trim_left (map rev spaces) (rev s))"
    by (simp add: TrimSpace_def l r)
  also have "\<dots> = s"
    using trim_right_letter [OF assms(1,3)] by simp
  finally show ?thesis .
qed

lemma ToLower_level: "ToLower (LogLevel_String l) = LowerCaseStr l" "ToLower (LowerCaseStr l) = LowerCaseStr l"
  by (cases l; simp add: LogLevel_String_def LowerCaseStr_def lower_ascii_def char_of_def bit_iff_odd)+

lemma level_name_letters:
  "LogLevel_String l \<noteq> []" "is_letter (hd (LogLevel_String l))" "is_letter (last (LogLevel_String l))"
  "LowerCaseStr l \<noteq> []" "is_letter (hd (LowerCaseStr l))" "is_letter (last (LowerCaseStr l))"
  by (cases l; simp add: LogLevel_String_def LowerCaseStr_def is_letter_def)+

text \<open>The names of the log levels are read back: both the upper-case name that the
  configuration listing prints and the lower-case name of the JSON log parse to the level they
  name, with any number of blanks around them, and different levels have different names.\<close>

theorem log_level_roundtrip:
  "ParseLogLevel (replicate m CHR '' '' @ LogLevel_String l @ replicate n CHR '' '') = Some l \<and>
   ParseLogLevel (replicate m CHR '' '' @ LowerCaseStr l @ replicate n CHR '' '') = Some l"
  unfolding ParseLogLevel_def TrimSpace_blanks [OF level_name_letters(1-3)] TrimSpace_blanks [OF level_name_letters(4-6)]
    ToLower_level by (cases l) (simp_all add: LowerCaseStr_def)

text \<open>The loop of \<open>formatBytes\<close> on a number below \<open>1024 ^ 6\<close> stops at the right power.\<close>

lemma formatBytes_loop_result:
  assumes "0 < n" "n < 1024 ^ (k + 1)" "ex + k \<le> 5" "dv = 1024 ^ (ex + 1)"
  shows "\<exists>j \<le> k. formatBytes_loop n dv ex = (1024 ^ (ex + j + 1), ex + j) \<and> 1024 ^ j \<le> n \<and> n < 1024 ^ (j + 1)"
  using assms
proof (induction k arbitrary: n dv ex)
  case 0
  then show ?case by (subst formatBytes_loop.simps) simp
next
  case (Suc k)
  show ?case
  proof (cases "n \<ge> 1024")
    case False
    with Suc.prems show ?thesis by (subst formatBytes_loop.simps) auto
  next
    case True
    have "(1024 :: int) ^ (ex + 2) \<le> 1024 ^ 6" using Suc.prems(3) by (intro power_increasing) auto
    then have w: "wrap64 (dv * 1024) = 1024 ^ (ex + 2)"
      using Suc.prems(4) zero_less_power [of "1024 :: int" ex]
      by (subst wrap64_id) (auto simp: int64_range_def intro: order_trans [of _ 0])
    have pos: "0 < n div 1024" using True by (simp add: div_greater_zero_iff)
    have "n div 1024 < 1024 ^ (k + 1)" using Suc.prems(2) by (simp add: less_mult_imp_div_less)
    then obtain j where j: "j \<le> k" "formatBytes_loop (n div 1024) (wrap64 (dv * 1024)) (ex + 1) = (1024 ^ (ex + 1 + j + 1), ex + 1 + j)"
        "1024 ^ j \<le> n div 1024" "n div 1024 < 1024 ^ (j + 1)"
      using Suc.IH [of "n div 1024" "ex + 1" "wrap64 (dv * 1024)"] Suc.prems(3) pos w by auto
    have "1024 ^ Suc j \<le> n" using j(3) by (simp add: less_eq_div_iff_mult_less_eq)
    moreover have "n < 1024 ^ (Suc j + 1)" using j(4) by (simp add: div_less_iff_less_mult)
    moreover have "formatBytes_loop n dv ex = (1024 ^ (ex + Suc j + 1), ex + Suc j)"
      using j(2) True by (subst formatBytes_loop.simps) simp
    ultimately show ?thesis using j(1) by (intro exI [of _ "Suc j"]) simp
  qed
qed



text \<open>A configuration value that does not parse never stops the service and is never counted.
  Every reader returns the default for an unset, empty or malformed variable, reports a
  malformed one with exactly one log statement, and changes no counter: \<open>ConfigErrors\<close>, which
  the metrics page publishes as the number of configuration errors, stays at its value.\<close>

theorem config_errors_fall_back:
  "(ParseLogLevel (Getenv env key) = None \<longrightarrow> fst (getEnvLogLevel env key lvl st) = lvl) \<and>
   (snd (ParseInt (Getenv env key)) \<longrightarrow> fst (getEnvInt64 env key n st) = n \<and> fst (getEnvInt env key n st) = n) \<and>
   (ParseBool (Getenv env key) = None \<longrightarrow> fst (getEnvBool env key b st) = b) \<and>
   (ParseDuration (Getenv env env_openbl_CrowdSecPollInterval) = None \<longrightarrow>
      gCrowdSecPollInterval (fst (initCrowdSec env st)) = 30 * second) \<and>
   (\<forall>st' \<in> {snd (getEnvLogLevel env key lvl st), snd (getEnvInt64 env key n st), snd (getEnvInt env key n st),
       snd (getEnvBool env key b st)}.
      stats st' = stats st \<and> (st' = st \<or> (\<exists>s. st' = log_call (LogMsg LOG_ERROR s) st))) \<and>
   stats (snd (initCrowdSec env st)) = stats st"
proof -
  have bool: "stats (snd (getEnvBool env k b st)) = stats st" for k b st
    by (simp add: getEnvBool_def split: option.splits)
  have "ParseDuration (Getenv env env_openbl_CrowdSecPollInterval) = None \<longrightarrow>
      gCrowdSecPollInterval (fst (initCrowdSec env st)) = 30 * second"
    "stats (snd (initCrowdSec env st)) = stats st"
    using bool by (simp_all add: initCrowdSec_def getEnv_def Let_def case_prod_unfold split: option.splits)
  moreover have "ParseBool (Getenv env key) = None \<longrightarrow> fst (getEnvBool env key b st) = b"
    by (simp add: getEnvBool_def Getenv_def split: option.splits)
  moreover have "\<forall>st' \<in> {snd (getEnvLogLevel env key lvl st), snd (getEnvInt64 env key n st), snd (getEnvInt env key n st),
       snd (getEnvBool env key b st)}.
      stats st' = stats st \<and> (st' = st \<or> (\<exists>s. st' = log_call (LogMsg LOG_ERROR s) st))"
  proof -
    let ?P = "\<lambda>st'. stats st' = stats st \<and> (st' = st \<or> (\<exists>s. st' = log_call (LogMsg LOG_ERROR s) st))"
    have P: "?P st" "?P (log_call (LogMsg LOG_ERROR s) st)" for s by auto
    have "?P (snd (getEnvLogLevel env key lvl st))"
      using P by (simp add: getEnvLogLevel_def Let_def split: option.splits)
    moreover have "?P (snd (getEnvInt64 env key n st))" "?P (snd (getEnvInt env key n st))"
      using P by (simp_all add: getEnvInt64_def getEnvInt_def Let_def case_prod_unfold)
    moreover have "?P (snd (getEnvBool env key b st))"
      using P by (simp add: getEnvBool_def split: option.splits)
    ultimately show ?thesis by blast
  qed
  moreover have "ParseLogLevel (Getenv env key) = None \<longrightarrow> fst (getEnvLogLevel env key lvl st) = lvl"
    "snd (ParseInt (Getenv env key)) \<longrightarrow> fst (getEnvInt64 env key n st) = n \<and> fst (getEnvInt env key n st) = n"
    by (simp_all add: getEnvLogLevel_def getEnvInt64_def getEnvInt_def Let_def case_prod_unfold)
  ultimately show ?thesis by (intro conjI)
qed

theorem config_errors_fall_back_witness:
  "fst (getEnvLogLevel (\<lambda>_. Some ''loud'') ''OPENBL_LOGLEVEL'' LOG_INFO (initial_server True)) = LOG_INFO"
proof -
  have "TrimSpace ''loud'' = ''loud''" using TrimSpace_blanks [of "''loud''" 0 0] by (simp add: is_letter_def)
  then have "ParseLogLevel (Getenv (\<lambda>_. Some ''loud'') ''OPENBL_LOGLEVEL'') = None"
    by (simp add: ParseLogLevel_def Getenv_def lower_ascii_def char_of_def bit_iff_odd)
  with config_errors_fall_back [of "\<lambda>_. Some ''loud''" "''OPENBL_LOGLEVEL''" LOG_INFO "initial_server True"] show ?thesis by blast
qed

text \<open>The attempts that the wait loop makes: it looks at an attempt only if every earlier one failed
  and was made in time.\<close>

definition failed_in_time :: "int \<Rightarrow> int \<Rightarrow> nat option \<times> int \<Rightarrow> bool" where
  "failed_in_time start maxWait a \<longleftrightarrow> fst a \<noteq> Some 200 \<and> snd a - start \<le> maxWait"

lemma waitForEtcd_loop_result:
  "fst (waitForEtcd_loop start nr maxWait attempts st) =
   (case dropWhile (failed_in_time start maxWait) attempts of
      [] \<Rightarrow> EtcdWaiting
    | a # _ \<Rightarrow> if fst a = Some 200 then EtcdAvailable else EtcdFatal)"
  by (induction start nr maxWait attempts st rule: waitForEtcd_loop.induct)
    (auto simp: failed_in_time_def Let_def)

text \<open>C32: Waiting for etcd ends. The outcome is decided by the first attempt that succeeds or comes
  after the deadline; with the pause of two seconds that the loop makes after every attempt, it
  decides after at most \<open>maxWait / 2 s + 2\<close> attempts: either etcd is available or the service
  stops, it never waits on.\<close>

theorem waitForEtcd_ends:
  assumes "\<forall>i < length attempts. start + int i * (2 * second) \<le> snd (attempts ! i)"
    and "0 \<le> maxWait" "maxWait div (2 * second) + 2 \<le> int (length attempts)"
  shows "fst (waitForEtcd start maxWait attempts st) \<noteq> EtcdWaiting \<and>
    (fst (waitForEtcd start maxWait attempts st) = EtcdAvailable \<longleftrightarrow>
      (\<exists>i < length attempts. fst (attempts ! i) = Some 200 \<and> (\<forall>j < i. failed_in_time start maxWait (attempts ! j))))"
proof -
  let ?P = "failed_in_time start maxWait"
  let ?n = "length attempts - 1"
  have n: "?n < length attempts" "int ?n \<ge> maxWait div (2 * second) + 1"
    using assms(2,3) by (auto simp: second_def)
  have "maxWait < (maxWait div (2 * second) + 1) * (2 * second)" by (simp add: second_def)
  also have "\<dots> \<le> int ?n * (2 * second)" using n(2) by (intro mult_right_mono) (auto simp: second_def)
  finally have "\<not> ?P (attempts ! ?n)" using assms(1) n(1) by (fastforce simp: failed_in_time_def)
  then have "\<exists>a \<in> set attempts. \<not> ?P a" using n(1) nth_mem by blast
  then obtain a rest where dw: "dropWhile ?P attempts = a # rest" by (cases "dropWhile ?P attempts") auto
  let ?k = "length (takeWhile ?P attempts)"
  have split: "attempts = takeWhile ?P attempts @ a # rest" using dw by (metis takeWhile_dropWhile_id)
  have k: "?k < length attempts" using arg_cong [OF split, of length] by simp
  have "attempts ! ?k = a" using split by (metis nth_append_length)
  moreover have "\<forall>j < ?k. ?P (attempts ! j)" using split by (metis nth_append nth_mem set_takeWhileD)
  moreover have "\<not> ?P a" using dw hd_dropWhile [of ?P attempts] by simp
  moreover note k
  ultimately have k: "?k < length attempts" "attempts ! ?k = a" "\<forall>j < ?k. ?P (attempts ! j)" "\<not> ?P a" by blast+
  have first: "i = ?k" if "i < length attempts" "\<not> ?P (attempts ! i)" "\<forall>j < i. ?P (attempts ! j)" for i
    using that k by (metis linorder_neqE_nat)
  have "fst (waitForEtcd start maxWait attempts st) = (if fst a = Some 200 then EtcdAvailable else EtcdFatal)"
    by (simp add: waitForEtcd_def waitForEtcd_loop_result dw)
  moreover have "(\<exists>i < length attempts. fst (attempts ! i) = Some 200 \<and> (\<forall>j < i. ?P (attempts ! j))) \<longleftrightarrow> fst a = Some 200"
    using k first by (metis failed_in_time_def)
  ultimately show ?thesis by simp
qed

theorem waitForEtcd_ends_witness:
  "fst (waitForEtcd 0 0 [(None, 0), (None, 2000000001)] (initial_server True)) \<noteq> EtcdWaiting"
  using waitForEtcd_ends [of "[(None, 0), (None, 2000000001)]" 0 0 "initial_server True"]
  by (simp add: second_def less_Suc_eq)

end
