(* ===== verification/SelfTest.thy ===== *)
theory SelfTest
  imports Config
begin

text \<open>
  The self tests that a build with the tag \<open>unittest\<close> runs before it starts
  (\<open>src/src/unittest_enabled.go\<close>): the harness and the suite about address conversion. The
  message of a failed check is left out: it is the formatted pair of values.
\<close>

section \<open>The harness\<close>

record unitTest =
  ut_name :: string
  ut_passed :: bool

record testSuite =
  ts_name :: string
  ts_tests :: "unitTest list"
  ts_passed :: nat
  ts_failed :: nat

definition newSuite :: "string \<Rightarrow> testSuite" where
  "newSuite name = \<lparr>ts_name = name, ts_tests = [], ts_passed = 0, ts_failed = 0\<rparr>"

definition suite_check :: "string \<Rightarrow> bool \<Rightarrow> testSuite \<Rightarrow> testSuite" where
  "suite_check name ok s =
     (let s = s\<lparr>ts_tests := ts_tests s @ [\<lparr>ut_name = name, ut_passed = ok\<rparr>]\<rparr>
      in if ok then s\<lparr>ts_passed := ts_passed s + 1\<rparr> else s\<lparr>ts_failed := ts_failed s + 1\<rparr>)"

definition equalU32 :: "string \<Rightarrow> uint32 \<Rightarrow> uint32 \<Rightarrow> testSuite \<Rightarrow> testSuite" where
  "equalU32 name got want s = suite_check name (got = want) s"

definition equalStr :: "string \<Rightarrow> string \<Rightarrow> string \<Rightarrow> testSuite \<Rightarrow> testSuite" where
  "equalStr name got want s = suite_check name (got = want) s"

definition isTrue :: "string \<Rightarrow> bool \<Rightarrow> testSuite \<Rightarrow> testSuite" where
  "isTrue name got s = suite_check name got s"

definition isFalse :: "string \<Rightarrow> bool \<Rightarrow> testSuite \<Rightarrow> testSuite" where
  "isFalse name got s = suite_check name (\<not> got) s"

definition hasError :: "string \<Rightarrow> 'e option \<Rightarrow> testSuite \<Rightarrow> testSuite" where
  "hasError name err s = suite_check name (err \<noteq> None) s"

definition noError :: "string \<Rightarrow> 'e option \<Rightarrow> testSuite \<Rightarrow> testSuite" where
  "noError name err s = suite_check name (err = None) s"

text \<open>The UTF-8 bytes of the dash in two messages.\<close>

definition em_dash :: string where
  "em_dash = [CHR 0xE2, CHR 0x80, CHR 0x94]"

definition suite_report :: "testSuite \<Rightarrow> server \<Rightarrow> server" where
  "suite_report s st =
     fold (\<lambda>t st. if \<not> ut_passed t then log_call (LogMsg LOG_ERROR (''  FAIL  %s '' @ em_dash @ '' %s'')) st else st) (ts_tests s)
       (log_call (LogMsg LOG_INFO ''Suite %-30s  %d passed  %d failed'') st)"

section \<open>The suite\<close>

definition test_IPv4StrToUint32 :: "testSuite \<Rightarrow> testSuite" where
  "test_IPv4StrToUint32 s =
     (let s = equalU32 ''IPv4StrToUint32 1.2.3.4'' (IPv4StrToUint32 ''1.2.3.4'') 0x01020304 s;
          s = equalU32 ''IPv4StrToUint32 0.0.0.0'' (IPv4StrToUint32 ''0.0.0.0'') 0x00000000 s;
          s = equalU32 ''IPv4StrToUint32 255.255.255.255'' (IPv4StrToUint32 ''255.255.255.255'') 0xFFFFFFFF s;
          s = equalU32 ''IPv4StrToUint32 127.0.0.1'' (IPv4StrToUint32 ''127.0.0.1'') 0x7F000001 s;
          s = equalU32 ''IPv4StrToUint32 10.0.0.1'' (IPv4StrToUint32 ''10.0.0.1'') 0x0A000001 s;
          s = equalU32 ''IPv4StrToUint32 256.0.0.1'' (IPv4StrToUint32 ''256.0.0.1'') 0 s;
          s = equalU32 ''IPv4StrToUint32 empty'' (IPv4StrToUint32 []) 0 s;
          s = equalU32 ''IPv4StrToUint32 non-numeric'' (IPv4StrToUint32 ''not.an.ip.address'') 0 s;
          s = equalU32 ''IPv4StrToUint32 too few octets'' (IPv4StrToUint32 ''1.2.3'') 0 s;
          s = equalU32 ''IPv4StrToUint32 too many octets'' (IPv4StrToUint32 ''1.2.3.4.5'') 0 s;
          s = equalU32 ''IPv4StrToUint32 negative octet'' (IPv4StrToUint32 ''1.2.3.-1'') 0 s
      in equalU32 ''IPv4StrToUint32 trailing garbage'' (IPv4StrToUint32 ''1.2.3.4x'') 0 s)"

definition test_Uint32ToIPv4Str :: "testSuite \<Rightarrow> testSuite" where
  "test_Uint32ToIPv4Str s =
     (let s = equalStr ''Uint32ToIPv4Str 0x01020304'' (Uint32ToIPv4Str 0x01020304) ''1.2.3.4'' s;
          s = equalStr ''Uint32ToIPv4Str 0x00000000'' (Uint32ToIPv4Str 0x00000000) ''0.0.0.0'' s;
          s = equalStr ''Uint32ToIPv4Str 0xFFFFFFFF'' (Uint32ToIPv4Str 0xFFFFFFFF) ''255.255.255.255'' s
      in equalStr ''Uint32ToIPv4Str 0x7F000001'' (Uint32ToIPv4Str 0x7F000001) ''127.0.0.1'' s)"

definition test_roundtrip :: "testSuite \<Rightarrow> testSuite" where
  "test_roundtrip s =
     fold (\<lambda>ip s. let got = Uint32ToIPv4Str (IPv4StrToUint32 ip) in equalStr (''roundtrip '' @ ip) got ip s)
       [''1.2.3.4'', ''10.0.0.1'', ''192.168.1.100'', ''255.255.255.255'', ''0.0.0.0''] s"

definition test_IsIPv4 :: "testSuite \<Rightarrow> testSuite" where
  "test_IsIPv4 s =
     fold (\<lambda>ip. isFalse (''IsIPv4 invalid '' @ ip) (IsIPv4 ip))
       [[], ''not.an.ip.address'', ''256.0.0.1'', ''1.2.3'', ''::1'', ''2001:db8::1'']
       (fold (\<lambda>ip. isTrue (''IsIPv4 valid '' @ ip) (IsIPv4 ip)) [''1.2.3.4'', ''0.0.0.0'', ''255.255.255.255'', ''127.0.0.1''] s)"

definition test_IsIPv6 :: "testSuite \<Rightarrow> testSuite" where
  "test_IsIPv6 s =
     fold (\<lambda>ip. isFalse (''IsIPv6 invalid '' @ ip) (IsIPv6 ip)) [[], ''1.2.3.4'', ''not-an-ip'']
       (fold (\<lambda>ip. isTrue (''IsIPv6 valid '' @ ip) (IsIPv6 ip)) [''::1'', ''2001:db8::1'', ''fe80::1''] s)"

definition test_IsValidIP :: "testSuite \<Rightarrow> testSuite" where
  "test_IsValidIP s =
     fold (\<lambda>ip. isFalse (''IsValidIP invalid '' @ ip) (IsValidIP ip)) [[], ''256.0.0.1'', ''not.an.ip.address'', ''1.2.3'', ''1.2.3.4.5'']
       (fold (\<lambda>ip. isTrue (''IsValidIP valid '' @ ip) (IsValidIP ip))
         [''1.2.3.4'', ''0.0.0.0'', ''255.255.255.255'', ''::1'', ''2001:db8::1''] s)"

definition testIPConversion :: testSuite where
  "testIPConversion =
     test_IsValidIP (test_IsIPv6 (test_IsIPv4 (test_roundtrip (test_Uint32ToIPv4Str (test_IPv4StrToUint32
       (newSuite ''IP conversion''))))))"

definition runUnitTests :: "server \<Rightarrow> bool \<times> server" where
  "runUnitTests st =
     (let st = log_call (LogMsg LOG_INFO ''Running unit tests'') st;
          st = log_call (LogMsg LOG_INFO ''%s'') st;
          suites = [testIPConversion];
          st = fold suite_report suites st;
          totalPassed = sum_list (map ts_passed suites);
          totalFailed = sum_list (map ts_failed suites);
          st = log_call (LogMsg LOG_INFO ''%s'') st;
          st = log_call (LogMsg LOG_INFO ''Unit tests: %d passed  %d failed'') st
      in if totalFailed > 0 then (False, log_call (LogMsg LOG_ERROR (''Unit tests FAILED '' @ em_dash @ '' aborting startup'')) st)
         else (True, log_call (LogMsg LOG_INFO ''Unit tests passed'') st))"

text \<open>The stub of a build without the self tests (\<open>unittest_disabled.go\<close>).\<close>

definition runUnitTests_disabled :: "server \<Rightarrow> bool \<times> server" where
  "runUnitTests_disabled st = (True, st)"

section \<open>Properties\<close>

text \<open>A suite whose checks have all passed so far.\<close>

definition all_passed :: "nat \<Rightarrow> testSuite \<Rightarrow> bool" where
  "all_passed n s \<longleftrightarrow> ts_passed s = n \<and> ts_failed s = 0 \<and> length (ts_tests s) = n \<and> list_all ut_passed (ts_tests s)"

lemma all_passed_check: "all_passed n s \<Longrightarrow> ok \<Longrightarrow> all_passed (Suc n) (suite_check name ok s)"
  by (simp add: all_passed_def suite_check_def)

lemma all_passed_new: "all_passed 0 (newSuite name)"
  by (simp add: all_passed_def newSuite_def)

lemma IPv4_values:
  "IPv4StrToUint32 ''1.2.3.4'' = 0x01020304" "IPv4StrToUint32 ''0.0.0.0'' = 0" "IPv4StrToUint32 ''255.255.255.255'' = 0xFFFFFFFF"
  "IPv4StrToUint32 ''127.0.0.1'' = 0x7F000001" "IPv4StrToUint32 ''10.0.0.1'' = 0x0A000001" "IPv4StrToUint32 ''192.168.1.100'' = 0xC0A80164"
  by code_simp+

lemma IPv4_rejects:
  "IPv4StrToUint32 ''256.0.0.1'' = 0" "IPv4StrToUint32 [] = 0" "IPv4StrToUint32 ''not.an.ip.address'' = 0" "IPv4StrToUint32 ''1.2.3'' = 0"
  "IPv4StrToUint32 ''1.2.3.4.5'' = 0" "IPv4StrToUint32 ''1.2.3.-1'' = 0" "IPv4StrToUint32 ''1.2.3.4x'' = 0"
  "IPv4StrToUint32 ''::1'' = 0" "IPv4StrToUint32 ''2001:db8::1'' = 0"
  by code_simp+

lemma IPv4_texts:
  "Uint32ToIPv4Str 0x01020304 = ''1.2.3.4''" "Uint32ToIPv4Str 0 = ''0.0.0.0''" "Uint32ToIPv4Str 0xFFFFFFFF = ''255.255.255.255''"
  "Uint32ToIPv4Str 0x7F000001 = ''127.0.0.1''" "Uint32ToIPv4Str 0x0A000001 = ''10.0.0.1''" "Uint32ToIPv4Str 0xC0A80164 = ''192.168.1.100''"
  by code_simp+

lemma IPv6_colons:
  "IsIPv6 ''::1''" "IsIPv6 ''2001:db8::1''" "IsIPv6 ''fe80::1''" "\<not> IsIPv6 []" "\<not> IsIPv6 ''1.2.3.4''" "\<not> IsIPv6 ''not-an-ip''"
  by code_simp+

lemma valid_texts:
  "IsValidIP ''1.2.3.4''" "IsValidIP ''0.0.0.0''" "IsValidIP ''255.255.255.255''" "IsValidIP ''::1''" "IsValidIP ''2001:db8::1''"
  "\<not> IsValidIP []" "\<not> IsValidIP ''256.0.0.1''" "\<not> IsValidIP ''not.an.ip.address''" "\<not> IsValidIP ''1.2.3''" "\<not> IsValidIP ''1.2.3.4.5''"
  by (simp_all add: IsValidIP_def net_eval)

lemmas suite_defs = equalU32_def equalStr_def isTrue_def isFalse_def

text \<open>Every group of the suite passes.\<close>

lemma test_groups_pass:
  "all_passed n s \<Longrightarrow> all_passed (n + 12) (test_IPv4StrToUint32 s)"
  "all_passed n s \<Longrightarrow> all_passed (n + 4) (test_Uint32ToIPv4Str s)"
  "all_passed n s \<Longrightarrow> all_passed (n + 5) (test_roundtrip s)"
  "all_passed n s \<Longrightarrow> all_passed (n + 10) (test_IsIPv4 s)"
  "all_passed n s \<Longrightarrow> all_passed (n + 6) (test_IsIPv6 s)"
  "all_passed n s \<Longrightarrow> all_passed (n + 10) (test_IsValidIP s)"
  by (simp_all add: test_IPv4StrToUint32_def test_Uint32ToIPv4Str_def test_roundtrip_def test_IsIPv4_def test_IsIPv6_def
      test_IsValidIP_def suite_defs IsIPv4_def IPv4_values IPv4_rejects IPv4_texts IPv6_colons valid_texts Let_def
      suite_check_def all_passed_def)

lemma suite_all_passed: "all_passed 47 testIPConversion"
proof -
  have "all_passed (0 + 12 + 4 + 5 + 10 + 6 + 10) testIPConversion"
    unfolding testIPConversion_def by (intro test_groups_pass all_passed_new)
  then show ?thesis by simp
qed

lemma runUnitTests_ok: "fst (runUnitTests st)"
  using suite_all_passed by (simp add: runUnitTests_def all_passed_def Let_def)

text \<open>The built-in self tests pass, so they never abort the start: all 47 checks of the suite
  hold for the conversion functions as they are written, the suite records each of them as
  passed, and \<open>runUnitTests\<close> returns true.\<close>

theorem self_tests_pass:
  "fst (runUnitTests st) \<and> ts_passed testIPConversion = 47 \<and> ts_failed testIPConversion = 0 \<and>
   length (ts_tests testIPConversion) = 47"
  using suite_all_passed runUnitTests_ok by (simp add: all_passed_def)

end
