(* ===== verification/Listeners.thy ===== *)
theory Listeners
  imports Config
begin

text \<open>
  The goroutines of the process and how they are started: the listeners of \<open>src/src/main.go\<close>,
  \<open>dns.go\<close> and \<open>metrics.go\<close>, the receive buffer of the DNS socket (\<open>dns_linux.go\<close>,
  \<open>dns_other.go\<close>), the profiler (\<open>pprof_enabled.go\<close>, \<open>pprof_disabled.go\<close>), the file of the
  log, and the signal handler with the shutdown. What the operating system answers (whether a
  socket opens, whether an option can be set, how a server ends) is an argument.
\<close>

section \<open>What can be started\<close>

datatype start_action =
    LookupListener string
  | ApiListener string
  | DNSUDPServer string
  | DNSTCPServer string
  | MetricsListener string
  | ProfileListener string
  | SignalHandler
  | ExpirationWorker
  | EtcdWatcher
  | CIDRWatcher
  | CrowdSecBouncer

definition logListerner :: "string \<Rightarrow> string \<Rightarrow> server \<Rightarrow> server" where
  "logListerner info addr st = (if addr = [] then st else log_call (LogMsg LOG_INFO ''Listening  [%-10s]  on %s'') st)"

definition startLookupListener :: "string \<Rightarrow> server \<Rightarrow> start_action list \<times> server" where
  "startLookupListener addr st =
     (let st = logListerner ''Lookup'' addr st
      in if addr = [] then ([], st) else ([LookupListener addr], st))"

definition startApiListener :: "string \<Rightarrow> server \<Rightarrow> start_action list \<times> server" where
  "startApiListener addr st =
     (let st = logListerner ''API'' addr st
      in if addr = [] then ([], st) else ([ApiListener addr], st))"

definition startMetricsListener :: "string \<Rightarrow> server \<Rightarrow> start_action list \<times> server" where
  "startMetricsListener addr st = ([MetricsListener addr], st)"

section \<open>The DNS sockets\<close>

text \<open>The receive buffer on Linux: no raw connection, a failed or a successful system call. The
  stub for other systems does nothing.\<close>

datatype sockopt = NoRawConn | SetsockoptFailed | SetsockoptDone

definition setUDPReceiveBuffer :: "sockopt \<Rightarrow> server \<Rightarrow> server" where
  "setUDPReceiveBuffer outcome st =
     (case outcome of
        NoRawConn \<Rightarrow> log_call (LogMsg LOG_ERROR ''DNS: cannot get raw conn for SO_RCVBUF: %v'') st
      | SetsockoptFailed \<Rightarrow> log_call (LogMsg LOG_ERROR ''DNS: failed to set SO_RCVBUF: %v'') st
      | SetsockoptDone \<Rightarrow> st)"

definition setUDPReceiveBuffer_other :: "server \<Rightarrow> server" where
  "setUDPReceiveBuffer_other st = st"

text \<open>The UDP socket: it cannot be opened, or it is open, on Linux or elsewhere.\<close>

datatype udp_socket = ListenFailed | OpenedOnLinux sockopt | OpenedElsewhere

text \<open>The result \<open>None\<close> is the end of the process by \<open>logFatal\<close>.\<close>

definition startDNSListener :: "udp_socket \<Rightarrow> string \<Rightarrow> server \<Rightarrow> start_action list option \<times> server" where
  "startDNSListener socket addr st =
     (let st = logListerner ''DNS'' addr st
      in if addr = [] then (Some [], st)
         else case socket of
           ListenFailed \<Rightarrow> (None, log_call (LogMsg LOG_ERROR ''DNS UDP listen failed: %v'') st)
         | OpenedOnLinux outcome \<Rightarrow> (Some [DNSUDPServer addr, DNSTCPServer addr], setUDPReceiveBuffer outcome st)
         | OpenedElsewhere \<Rightarrow> (Some [DNSUDPServer addr, DNSTCPServer addr], setUDPReceiveBuffer_other st))"

section \<open>The ends of the servers\<close>

text \<open>The bodies of the goroutines; the flag tells whether the server has returned an error. The
  DNS servers end the process then, which is the result \<open>True\<close>.\<close>

definition lookup_goroutine :: "bool \<Rightarrow> server \<Rightarrow> server" where
  "lookup_goroutine err st = (if err then log_call (LogMsg LOG_INFO ''Lookup listener stopped: %v'') st else st)"

definition api_goroutine :: "bool \<Rightarrow> server \<Rightarrow> server" where
  "api_goroutine err st = (if err then log_call (LogMsg LOG_INFO ''API Listener stopped: %v'') st else st)"

definition metrics_goroutine :: "string \<Rightarrow> bool \<Rightarrow> server \<Rightarrow> server" where
  "metrics_goroutine addr err st =
     (let st = logListerner ''/metrics'' addr st
      in if err then log_call (LogMsg LOG_INFO ''Metrics listener stopped: %v'') st else st)"

definition dns_udp_goroutine :: "string \<Rightarrow> bool \<Rightarrow> server \<Rightarrow> bool \<times> server" where
  "dns_udp_goroutine addr err st =
     (let st = logListerner ''DNS-UDP'' addr st
      in if err then (True, log_call (LogMsg LOG_ERROR ''DNS UDP server failed: %v'') st) else (False, st))"

definition dns_tcp_goroutine :: "string \<Rightarrow> bool \<Rightarrow> server \<Rightarrow> bool \<times> server" where
  "dns_tcp_goroutine addr err st =
     (let st = logListerner ''DNS-TCP'' addr st
      in if err then (True, log_call (LogMsg LOG_ERROR ''DNS TCP server failed: %v'') st) else (False, st))"

section \<open>Profiler and log file\<close>

definition gProfileListener :: string where
  "gProfileListener = '':6060''"

text \<open>The build with profiling and the build without.\<close>

definition initPprof :: "bool \<Rightarrow> start_action list" where
  "initPprof enabled = (if enabled then [ProfileListener gProfileListener] else [])"

datatype log_writer = Stdout | LogFile string

text \<open>\<open>LogSetFile\<close> on whether the file opens: the error and the writer from then on.\<close>

definition LogSetFile :: "bool \<Rightarrow> string \<Rightarrow> log_writer \<Rightarrow> bool \<times> log_writer" where
  "LogSetFile opens path writer = (if \<not> opens then (True, writer) else (False, LogFile path))"

section \<open>Signals\<close>

datatype signal = SIGINT | SIGTERM | SIGHUP

text \<open>\<open>shutdown\<close> returns \<open>gShutdownRequested\<close> and the state after its two messages.\<close>

definition shutdown :: "server \<Rightarrow> bool \<times> server" where
  "shutdown st =
     (let st = log_call (LogMsg LOG_INFO ''Shutting down ...'') st;
          gShutdownRequested = True
      in (gShutdownRequested, log_call (LogMsg LOG_INFO ''Shutdown completed'') st))"

text \<open>The loop on the signals received so far: the exit code of the process if it has ended, the
  flag and the state.\<close>

fun handleSignals :: "signal list \<Rightarrow> bool \<times> server \<Rightarrow> nat option \<times> bool \<times> server" where
  "handleSignals [] s = (None, s)"
| "handleSignals (sig # sigs) (requested, st) =
     (case sig of
        SIGHUP \<Rightarrow> handleSignals sigs (requested, log_call (LogMsg LOG_INFO ''SIGHUP received - Reloading configuration'') st)
      | _ \<Rightarrow> (Some 0, shutdown (log_call (LogMsg LOG_INFO ''Shutdown signal received: %v'') st)))"

section \<open>Facts\<close>

lemma listeners_keep:
  assumes g: "\<And>l st. g (log_call l st) = g st"
  shows "g (logListerner info addr st) = g st" "g (snd (startLookupListener addr st)) = g st"
    "g (snd (startApiListener addr st)) = g st" "g (snd (startMetricsListener addr st)) = g st"
    "g (snd (startDNSListener socket addr st)) = g st" "g (setUDPReceiveBuffer so st) = g st"
  by (simp_all add: logListerner_def startLookupListener_def startApiListener_def startMetricsListener_def startDNSListener_def
      setUDPReceiveBuffer_def setUDPReceiveBuffer_other_def Let_def g split: udp_socket.splits sockopt.splits)

lemma started_actions:
  "addr \<noteq> [] \<Longrightarrow> fst (startLookupListener addr st) = [LookupListener addr]"
  "addr \<noteq> [] \<Longrightarrow> fst (startApiListener addr st) = [ApiListener addr]"
  "fst (startMetricsListener addr st) = [MetricsListener addr]"
  "addr \<noteq> [] \<Longrightarrow> fst (startDNSListener socket addr st) =
     (if socket = ListenFailed then None else Some [DNSUDPServer addr, DNSTCPServer addr])"
  by (simp_all add: startLookupListener_def startApiListener_def startMetricsListener_def startDNSListener_def Let_def
      split: udp_socket.splits)

text \<open>The signal handler ends the process exactly at the first interrupt or termination signal, and
  never touches the tables or etcd.\<close>

lemma handleSignals_exit:
  "fst (handleSignals sigs (requested, st)) = (if \<forall>s \<in> set sigs. s = SIGHUP then None else Some 0)"
  by (induction sigs "(requested, st)" arbitrary: st rule: handleSignals.induct) (auto split: signal.splits)

lemma handleSignals_keeps:
  assumes g: "\<And>l st. g (log_call l st) = g st"
  shows "g (snd (snd (handleSignals sigs (requested, st)))) = g st"
  by (induction sigs arbitrary: st) (auto simp: g shutdown_def Let_def split: signal.splits)

end
