(* ===== verification/Startup.thy ===== *)
theory Startup
  imports SelfTest Listeners Replication
begin

text \<open>
  The function \<open>main\<close> of \<open>src/src/main.go\<close>: reading the configuration, the early exits, waiting
  for etcd, loading both tables and starting listeners and workers, in this order. What the
  outside contributes is a parameter: the environment, the flags, whether the log file opens,
  the self tests of the build, the attempts to reach etcd and the replies to the two range
  requests. Calls of \<open>logMsg\<close> are recorded with level and format, as everywhere in the model;
  \<open>logSpace\<close> writes an empty line and is left out.
\<close>

section \<open>Configuration\<close>

record config =
  gLogLevel :: LogLevel
  gMultiInstance :: bool
  gLogJSON :: bool
  gCrowdSec :: crowdsec_config
  gLogFilePath :: string
  gLookupListenAddr :: string
  gApiListenAddr :: string
  gDNSListenAddr :: string
  gMetricListnAddr :: string
  gEtcdEndpoint :: string

definition env_openbl_LookupListenAddr :: string where "env_openbl_LookupListenAddr = ''OPENBL_LOOKUP_LISTEN_ADDR''"
definition env_openbl_ApiListenAddr :: string where "env_openbl_ApiListenAddr = ''OPENBL_API_LISTEN_ADDR''"
definition env_openbl_DNSListenAddr :: string where "env_openbl_DNSListenAddr = ''OPENBL_DNS_LISTEN_ADDR''"
definition env_openbl_MetricsListenAddr :: string where "env_openbl_MetricsListenAddr = ''OPENBL_METRICS_LISTEN_ADDR''"
definition env_openbl_EtcEndpoint :: string where "env_openbl_EtcEndpoint = ''OPENBL_ETCD_ENDPOINT''"
definition env_openbl_LogLevel :: string where "env_openbl_LogLevel = ''OPENBL_LOGLEVEL''"
definition env_openbl_LogFileName :: string where "env_openbl_LogFileName = ''OPENBL_LOG_FILENAME''"
definition env_openbl_LogJSON :: string where "env_openbl_LogJSON = ''OPENBL_LOGJSON''"
definition env_openbl_MultiInstanceMode :: string where "env_openbl_MultiInstanceMode = ''OPENBL_MULTI_INSTANCE_MODE''"
definition defaultLogJSON :: bool where "defaultLogJSON \<longleftrightarrow> False"
definition defaultMultiInstance :: bool where "defaultMultiInstance \<longleftrightarrow> True"
definition defaultLookupListenAddr :: string where "defaultLookupListenAddr = '':8090''"
definition defaultApiListenAddr :: string where "defaultApiListenAddr = '':8091''"
definition defaultMetricsListenAddr :: string where "defaultMetricsListenAddr = '':9100''"
definition defaultDNSListenAddr :: string where "defaultDNSListenAddr = '':5353''"
definition defaultLogLevel :: LogLevel where "defaultLogLevel = LOG_INFO"
definition defaultEtcEndpoint :: string where "defaultEtcEndpoint = ''http://etcd:2379''"

lemmas default_defs =
  defaultLogJSON_def defaultMultiInstance_def defaultLookupListenAddr_def defaultApiListenAddr_def
  defaultMetricsListenAddr_def defaultDNSListenAddr_def defaultLogLevel_def defaultEtcEndpoint_def

definition read_config :: "environment \<Rightarrow> server \<Rightarrow> config \<times> server" where
  "read_config env st =
     (let (level, st) = getEnvLogLevel env env_openbl_LogLevel defaultLogLevel st;
          (multi, st) = getEnvBool env env_openbl_MultiInstanceMode defaultMultiInstance st;
          st = st\<lparr>gMultiInstanceMode := multi\<rparr>;
          (json, st) = getEnvBool env env_openbl_LogJSON defaultLogJSON st;
          (crowdsec, st) = initCrowdSec env st
      in (\<lparr>gLogLevel = level, gMultiInstance = multi, gLogJSON = json, gCrowdSec = crowdsec,
           gLogFilePath = getEnv env env_openbl_LogFileName [],
           gLookupListenAddr = getEnv env env_openbl_LookupListenAddr defaultLookupListenAddr,
           gApiListenAddr = getEnv env env_openbl_ApiListenAddr defaultApiListenAddr,
           gDNSListenAddr = getEnv env env_openbl_DNSListenAddr defaultDNSListenAddr,
           gMetricListnAddr = getEnv env env_openbl_MetricsListenAddr defaultMetricsListenAddr,
           gEtcdEndpoint = getEnv env env_openbl_EtcEndpoint defaultEtcEndpoint\<rparr>, st))"

section \<open>The listing of the configuration\<close>

definition showCfg :: "server \<Rightarrow> server" where
  "showCfg = log_call (LogMsg LOG_INFO ''%-34s  %-40s %-40v  %v'')"

definition showInfo :: "server \<Rightarrow> server" where
  "showInfo = log_call (LogMsg LOG_INFO ''%-15s:  %v'')"

text \<open>The three figures of the operating system are shown if \<open>/etc/os-release\<close> can be read, the
  other ten always: Go version, OS, Arch, Platform, CPUs, total and free RAM, PID, UID/GID and
  EUID/EGID.\<close>

definition showRuntimeInfo :: "string option \<Rightarrow> server \<Rightarrow> server" where
  "showRuntimeInfo osRelease st =
     (let st = log_call (LogMsg LOG_INFO ''Runtime'') st;
          st = log_call (LogMsg LOG_INFO ''-------------------------'') st;
          st = (case readOSRelease osRelease of Some (info, False) \<Rightarrow> (showInfo ^^ 3) st | _ \<Rightarrow> st)
      in (showInfo ^^ 10) st)"

text \<open>The banner, the heading of the table and one row for each of the twelve settings.\<close>

definition show_startup :: "string option \<Rightarrow> server \<Rightarrow> server" where
  "show_startup osRelease st =
     (let st = log_call (LogMsg LOG_INFO ''Open-Blocklist V%s'') st;
          st = log_call (LogMsg LOG_INFO ''%s'') st;
          st = log_call (LogMsg LOG_INFO ''%s'') st;
          st = showCfg st;
          st = log_call (LogMsg LOG_INFO ''%s'') st;
          st = (showCfg ^^ 12) st
      in showRuntimeInfo osRelease st)"

section \<open>The main function\<close>

datatype main_outcome =
    Running
  | Returned
  | ExitFailure
  | StillWaiting

record main_inputs =
  in_env :: environment
  in_printVersion :: bool
  in_showGoVersion :: bool
  in_logFileOpens :: bool
  in_pprof :: bool
  in_osRelease :: "string option"
  in_selfTests :: "server \<Rightarrow> bool \<times> server"
  in_start :: int
  in_attempts :: "(nat option \<times> int) list"
  in_range :: "string option"
  in_cidrRange :: "string option"
  in_dnsSocket :: udp_socket

text \<open>The second half of \<open>main\<close>; a DNS socket that cannot be opened ends the process, after the two
  HTTP listeners have been started.\<close>

definition start_all :: "udp_socket \<Rightarrow> config \<Rightarrow> server \<Rightarrow> main_outcome \<times> start_action list \<times> server" where
  "start_all socket cfg st =
     (let (lookup, st) = startLookupListener (gLookupListenAddr cfg) st;
          (api, st) = startApiListener (gApiListenAddr cfg) st;
          (dns, st) = startDNSListener socket (gDNSListenAddr cfg) st
      in case dns of
           None \<Rightarrow> (ExitFailure, lookup @ api, st)
         | Some dns \<Rightarrow>
             let (metrics, st) =
                   (if gMetricListnAddr cfg \<noteq> [] then startMetricsListener (gMetricListnAddr cfg) st else ([], st));
                 (watch, st) =
                   (if gMultiInstance cfg
                    then ([EtcdWatcher, CIDRWatcher], log_call (LogMsg LOG_INFO ''Running in multi-instance mode (watch enabled)'') st)
                    else ([], log_call (LogMsg LOG_INFO ''Running in single-instance mode'') st));
                 (bouncer, st) = startCrowdSecBouncer (gCrowdSec cfg) st
             in (Running, lookup @ api @ dns @ metrics @ [ExpirationWorker] @ watch @ (if bouncer then [CrowdSecBouncer] else []), st))"

definition main :: "main_inputs \<Rightarrow> server \<Rightarrow> main_outcome \<times> start_action list \<times> server" where
  "main inp st =
     (let (cfg, st) = read_config (in_env inp) st in
      if in_printVersion inp then (Returned, [], log_call (LogMsg LOG_INFO ''%s'') st)
      else if gLogFilePath cfg \<noteq> [] \<and> fst (LogSetFile (in_logFileOpens inp) (gLogFilePath cfg) Stdout)
      then (ExitFailure, [], log_call (LogMsg LOG_ERROR ''Cannot open log file: %v'') st)
      else
        let acts = initPprof (in_pprof inp);
            (ok, st) = in_selfTests inp st in
        if \<not> ok then (ExitFailure, acts, st)
        else if in_showGoVersion inp then (Returned, acts, showRuntimeInfo (in_osRelease inp) st)
        else
          let acts = acts @ [SignalHandler] in
          case waitForEtcd (in_start inp) (120 * second) (in_attempts inp) (show_startup (in_osRelease inp) st) of
            (EtcdFatal, st) \<Rightarrow> (ExitFailure, acts, st)
          | (EtcdWaiting, st) \<Rightarrow> (StillWaiting, acts, st)
          | (EtcdAvailable, st) \<Rightarrow>
              (case loadFromEtcd (in_range inp) st of
                 None \<Rightarrow> (ExitFailure, acts, st)
               | Some st \<Rightarrow>
                   let (out, more, st) = start_all (in_dnsSocket inp) cfg (loadCIDRFromEtcd (in_cidrRange inp) st)
                   in (out, acts @ more, st)))"

section \<open>Properties\<close>

lemma getEnv_nonempty: "fallback \<noteq> [] \<Longrightarrow> getEnv env key fallback \<noteq> []"
  by (simp add: getEnv_def Let_def)

lemma read_config_addrs:
  "gLookupListenAddr (fst (read_config env st)) \<noteq> []" "gApiListenAddr (fst (read_config env st)) \<noteq> []"
  "gDNSListenAddr (fst (read_config env st)) \<noteq> []" "gMetricListnAddr (fst (read_config env st)) \<noteq> []"
  by (simp_all add: read_config_def Let_def case_prod_unfold getEnv_nonempty default_defs)

lemma config_reader_tables:
  "ipTable (snd (getEnvLogLevel env k l st)) = ipTable st" "cidrTable (snd (getEnvLogLevel env k l st)) = cidrTable st"
  "ipTable (snd (getEnvBool env k b st)) = ipTable st" "cidrTable (snd (getEnvBool env k b st)) = cidrTable st"
  "gMultiInstanceMode (snd (getEnvBool env k b st)) = gMultiInstanceMode st"
  by (simp_all add: getEnvLogLevel_def getEnvBool_def Let_def split: option.splits)

lemma read_config_tables:
  "ipTable (snd (read_config env st)) = ipTable st" "cidrTable (snd (read_config env st)) = cidrTable st"
  "gMultiInstanceMode (snd (read_config env st)) = gMultiInstance (fst (read_config env st))"
  by (simp_all add: read_config_def initCrowdSec_def Let_def case_prod_unfold config_reader_tables split: option.splits)

lemma waitForEtcd_tables:
  "ipTable (snd (waitForEtcd_loop s nr m as st)) = ipTable st" "cidrTable (snd (waitForEtcd_loop s nr m as st)) = cidrTable st"
  "gMultiInstanceMode (snd (waitForEtcd_loop s nr m as st)) = gMultiInstanceMode st"
  by (induction s nr m as st rule: waitForEtcd_loop.induct) (simp_all add: Let_def)

lemma funpow_keeps: "(\<And>x. g (f x) = g x) \<Longrightarrow> g ((f ^^ n) x) = g x"
  by (induction n) simp_all

lemma show_startup_keeps:
  assumes g: "\<And>l st. g (log_call l st) = g st"
  shows "g (show_startup os st) = g st"
  by (simp add: show_startup_def showRuntimeInfo_def showInfo_def showCfg_def Let_def g funpow_keeps [of g, OF g]
      split: option.splits prod.splits bool.splits)

lemmas show_startup_tables = show_startup_keeps [of ipTable, simplified] show_startup_keeps [of cidrTable, simplified]

lemma start_all_effects:
  "ipTable (snd (snd (start_all d cfg st))) = ipTable st" "cidrTable (snd (snd (start_all d cfg st))) = cidrTable st"
  "gMultiInstanceMode (snd (snd (start_all d cfg st))) = gMultiInstanceMode st"
  "gEtcdRevision (snd (snd (start_all d cfg st))) = gEtcdRevision st"
  by (simp_all add: start_all_def startCrowdSecBouncer_def Let_def case_prod_unfold listeners_keep split: option.splits)

text \<open>The actions of a running service.\<close>

definition running_actions :: "config \<Rightarrow> start_action list" where
  "running_actions cfg =
     [LookupListener (gLookupListenAddr cfg), ApiListener (gApiListenAddr cfg), DNSUDPServer (gDNSListenAddr cfg),
      DNSTCPServer (gDNSListenAddr cfg), MetricsListener (gMetricListnAddr cfg), ExpirationWorker] @
     (if gMultiInstance cfg then [EtcdWatcher, CIDRWatcher] else []) @
     (if gCrowdSecEnabled (gCrowdSec cfg) \<and> gCrowdSecAPIKey (gCrowdSec cfg) \<noteq> [] then [CrowdSecBouncer] else [])"

lemma start_all_actions:
  assumes "gLookupListenAddr cfg \<noteq> []" "gApiListenAddr cfg \<noteq> []" "gDNSListenAddr cfg \<noteq> []" "gMetricListnAddr cfg \<noteq> []"
  shows "fst (start_all d cfg st) = (if d = ListenFailed then ExitFailure else Running)"
    and "d \<noteq> ListenFailed \<Longrightarrow> fst (snd (start_all d cfg st)) = running_actions cfg"
  using assms
  by (auto simp: start_all_def running_actions_def startCrowdSecBouncer_def Let_def case_prod_unfold started_actions)


text \<open>An environment without settings, a store with one block.\<close>

definition sample_stored :: "IP \<times> BlockRecord \<times> int64 \<times> int64" where
  "sample_stored = ([192, 0, 2, 1], put_record (put_defaults 7) 7, 5, 6)"

definition sample_inputs :: main_inputs where
  "sample_inputs = \<lparr>in_env = (\<lambda>_. None), in_printVersion = False, in_showGoVersion = False, in_logFileOpens = True, in_pprof = False, in_osRelease = None,
     in_selfTests = runUnitTests, in_start = 0, in_attempts = [(None, 1), (Some 200, 2)],
     in_range = Some (range_message 9 [stored_kv sample_stored]), in_cidrRange = None, in_dnsSocket = OpenedOnLinux SetsockoptDone\<rparr>"

lemma sample_stored_ok: "stored_ok sample_stored"
proof -
  have "record_ok (put_record (put_defaults 7) 7)"
    by (rule record_ok_put_record) (simp_all add: put_defaults_def defaultSource_def int64_range_def)
  then show ?thesis by (simp add: stored_ok_def sample_stored_def int64_range_def)
qed

lemma suite_report_tables [simp]:
  "ipTable (suite_report s st) = ipTable st" "cidrTable (suite_report s st) = cidrTable st"
  "gMultiInstanceMode (suite_report s st) = gMultiInstanceMode st"
proof -
  let ?f = "\<lambda>t st. if \<not> ut_passed t then log_call (LogMsg LOG_ERROR (''  FAIL  %s '' @ em_dash @ '' %s'')) st else st"
  have "ipTable (fold ?f ts s) = ipTable s \<and> cidrTable (fold ?f ts s) = cidrTable s \<and>
      gMultiInstanceMode (fold ?f ts s) = gMultiInstanceMode s" for ts s
    by (induction ts arbitrary: s) simp_all
  note this [of "ts_tests s" "log_call (LogMsg LOG_INFO ''Suite %-30s  %d passed  %d failed'') st"]
  then show "ipTable (suite_report s st) = ipTable st" "cidrTable (suite_report s st) = cidrTable st"
    "gMultiInstanceMode (suite_report s st) = gMultiInstanceMode st"
    unfolding suite_report_def by simp_all
qed

lemma runUnitTests_tables:
  "ipTable (snd (runUnitTests st)) = ipTable st" "cidrTable (snd (runUnitTests st)) = cidrTable st"
  "gMultiInstanceMode (snd (runUnitTests st)) = gMultiInstanceMode st"
  by (simp_all add: runUnitTests_def Let_def)

lemma self_tests_keep:
  assumes "tests \<in> {runUnitTests, runUnitTests_disabled}"
  shows "fst (tests st)" "ipTable (snd (tests st)) = ipTable st" "cidrTable (snd (tests st)) = cidrTable st"
  using assms by (auto simp: runUnitTests_ok runUnitTests_tables runUnitTests_disabled_def)

lemma load_cidr_effects [simp]:
  "ipTable (loadCIDRFromEtcd reply st) = ipTable st" "gEtcdRevision (loadCIDRFromEtcd reply st) = gEtcdRevision st"
proof -
  have kv: "ipTable (load_cidr_kv kv s) = ipTable s" "gEtcdRevision (load_cidr_kv kv s) = gEtcdRevision s" for kv s
    by (simp_all add: load_cidr_kv_def Let_def case_prod_unfold split: option.splits)
  have "ipTable (fold load_cidr_kv kvs s) = ipTable s" "gEtcdRevision (fold load_cidr_kv kvs s) = gEtcdRevision s" for kvs s
    by (induction kvs arbitrary: s) (simp_all add: kv)
  then show "ipTable (loadCIDRFromEtcd reply st) = ipTable st" "gEtcdRevision (loadCIDRFromEtcd reply st) = gEtcdRevision st"
    by (simp_all add: loadCIDRFromEtcd_def Let_def split: option.splits prod.splits)
qed

lemma map_of_rev_distinct: "distinct (map fst ps) \<Longrightarrow> map_of (rev ps) = map_of ps"
  by (rule map_of_eqI) (auto simp: rev_map [symmetric] map_of_eq_Some_iff intro!: map_of_is_SomeI)

lemma main_runs:
  assumes "\<not> in_printVersion inp" "\<not> in_showGoVersion inp" "in_logFileOpens inp" "in_selfTests inp \<in> {runUnitTests, runUnitTests_disabled}" "in_dnsSocket inp \<noteq> ListenFailed"
    and "fst (waitForEtcd (in_start inp) (120 * second) (in_attempts inp)
        (show_startup (in_osRelease inp) (snd (in_selfTests inp (snd (read_config (in_env inp) st)))))) = EtcdAvailable"
    and "loadFromEtcd (in_range inp)
      (snd (waitForEtcd (in_start inp) (120 * second) (in_attempts inp)
        (show_startup (in_osRelease inp) (snd (in_selfTests inp (snd (read_config (in_env inp) st))))))) = Some st1"
  shows "\<exists>acts. main inp st =
    (Running, acts, snd (snd (start_all (in_dnsSocket inp) (fst (read_config (in_env inp) st)) (loadCIDRFromEtcd (in_cidrRange inp) st1))))"
  using assms(1-3,5-7) self_tests_keep(1) [OF assms(4)] start_all_actions(1) [OF read_config_addrs]
  by (simp add: main_def LogSetFile_def Let_def case_prod_unfold split: wait_result.splits)

lemma main_restores:
  assumes inp: "\<not> in_printVersion inp" "\<not> in_showGoVersion inp" "in_logFileOpens inp" "in_selfTests inp \<in> {runUnitTests, runUnitTests_disabled}"
      "in_dnsSocket inp \<noteq> ListenFailed" "in_range inp = Some (range_message rvn (map stored_kv xs))"
    and reach: "dropWhile (failed_in_time (in_start inp) (120 * second)) (in_attempts inp) = (Some 200, t) # rest"
    and xs: "\<forall>x \<in> set xs. stored_ok x" "int64_range rvn" "distinct (map (\<lambda>x. be_IP (stored_entry x)) xs)"
  obtains acts st where "main inp (initial_server True) = (Running, acts, st)" "gEtcdRevision st = rvn"
    "ip_get (ipTable st) = map_of (map (\<lambda>x. (be_IP (stored_entry x), stored_entry x)) xs)"
proof -
  let ?st0 = "show_startup (in_osRelease inp) (snd (in_selfTests inp (snd (read_config (in_env inp) (initial_server True)))))"
  let ?wait = "waitForEtcd (in_start inp) (120 * second) (in_attempts inp) ?st0"
  have avail: "fst ?wait = EtcdAvailable" using reach by (simp add: waitForEtcd_def waitForEtcd_loop_result)
  have "ipTable (snd ?wait) = []" "cidrTable (snd ?wait) = []"
    by (simp_all add: waitForEtcd_def waitForEtcd_tables show_startup_tables self_tests_keep [OF inp(4)] read_config_tables)
  from load_restores [OF xs(1,2) this] obtain st1 where load: "loadFromEtcd (in_range inp) (snd ?wait) = Some st1"
      "gEtcdRevision st1 = rvn" "ip_get (ipTable st1) = map_of (rev (map (\<lambda>x. (be_IP (stored_entry x), stored_entry x)) xs))"
    using inp(6) by auto
  let ?run = "start_all (in_dnsSocket inp) (fst (read_config (in_env inp) (initial_server True))) (loadCIDRFromEtcd (in_cidrRange inp) st1)"
  have d: "distinct (map fst (map (\<lambda>x. (be_IP (stored_entry x), stored_entry x)) xs))" using xs(3) by (simp add: comp_def)
  obtain acts where "main inp (initial_server True) = (Running, acts, snd (snd ?run))"
    using main_runs [OF inp(1-5) avail load(1)] by blast
  then show thesis
  proof (rule that)
    show "gEtcdRevision (snd (snd ?run)) = rvn" using load(2) by (simp add: start_all_effects)
    show "ip_get (ipTable (snd (snd ?run))) = map_of (map (\<lambda>x. (be_IP (stored_entry x), stored_entry x)) xs)"
      using load(3) map_of_rev_distinct [OF d] by (simp add: start_all_effects)
  qed
qed


lemma sample_inputs_ok:
  "\<not> in_printVersion sample_inputs" "\<not> in_showGoVersion sample_inputs" "in_logFileOpens sample_inputs"
  "in_selfTests sample_inputs \<in> {runUnitTests, runUnitTests_disabled}" "in_dnsSocket sample_inputs \<noteq> ListenFailed"
  "in_range sample_inputs = Some (range_message 9 (map stored_kv [sample_stored]))"
  "dropWhile (failed_in_time (in_start sample_inputs) (120 * second)) (in_attempts sample_inputs) = [(Some 200, 2)]"
  "\<forall>x \<in> set [sample_stored]. stored_ok x" "int64_range 9" "distinct (map (\<lambda>x. be_IP (stored_entry x)) [sample_stored])"
  using sample_stored_ok by (simp_all add: sample_inputs_def failed_in_time_def second_def int64_range_def)



end
