(* ===== verification/Dns.thy ===== *)
theory Dns
  imports CidrTable
begin

text \<open>
  The DNS listener of \<open>src/src/dns.go\<close>. The library \<open>github.com/miekg/dns\<close> is a
  parameter of the handler: a record \<open>dns_lib\<close> of the three functions it calls
  (\<open>SetReply\<close>, \<open>IsSubDomain\<close>, \<open>NewRR\<close>); the type of a resource record stays abstract and
  a failed \<open>NewRR\<close> is the nil record \<open>None\<close>. The slice expressions of \<open>rblQueryToIP\<close> can
  be out of range; that panic is the value \<open>None\<close> of the outer option.
\<close>

section \<open>Definitions\<close>

record dns_question =
  q_Name :: string
  q_Qtype :: nat

record 'rr dns_msg =
  msg_Question :: "dns_question list"
  msg_Rcode :: nat
  msg_Authoritative :: bool
  msg_Answer :: "'rr option list"

record 'rr dns_lib =
  SetReply :: "'rr dns_msg \<Rightarrow> 'rr dns_msg"
  IsSubDomain :: "string \<Rightarrow> string \<Rightarrow> bool"
  NewRR :: "string \<Rightarrow> 'rr option"

definition TypeA :: nat where "TypeA = 1"
definition TypePTR :: nat where "TypePTR = 12"
definition TypeAAAA :: nat where "TypeAAAA = 28"

definition RcodeSuccess :: nat where "RcodeSuccess = 0"
definition RcodeFormatError :: nat where "RcodeFormatError = 1"
definition RcodeNameError :: nat where "RcodeNameError = 3"
definition RcodeRefused :: nat where "RcodeRefused = 5"

lemmas dns_consts =
  TypeA_def TypePTR_def TypeAAAA_def RcodeSuccess_def RcodeFormatError_def RcodeNameError_def
  RcodeRefused_def

text \<open>\<open>hex[i*4 : i*4+4]\<close>: a panic when the text is too short.\<close>

definition slice4 :: "string \<Rightarrow> nat \<Rightarrow> string option" where
  "slice4 hex i = (if i * 4 + 4 \<le> length hex then Some (take 4 (drop (i * 4) hex)) else None)"

definition rblQueryToIP :: "string \<Rightarrow> (string \<times> bool) option" where
  "rblQueryToIP qname =
     (let name = trim_suffix qname gRBLZone;
          name = trim_suffix name ''.'';
          labels = split_on CHR ''.'' name
      in if length labels = 4 then
           Some (labels ! 3 @ ''.'' @ labels ! 2 @ ''.'' @ labels ! 1 @ ''.'' @ labels ! 0, True)
         else if length labels = 32 then
           let reversed = map (\<lambda>i. labels ! (31 - i)) [0..<32];
               hex = join_with [] reversed
           in map_option (\<lambda>parts. (join_with '':'' parts, True))
                (those (map (slice4 hex) [0..<8]))
         else Some ([], False))"

definition ptrQueryToIP :: "string \<Rightarrow> string \<times> bool" where
  "ptrQueryToIP qname =
     (let name = trim_suffix qname ''in-addr.arpa.'';
          name = trim_suffix name ''.'';
          labels = split_on CHR ''.'' name
      in if length labels \<noteq> 4 then ([], False)
         else (labels ! 3 @ ''.'' @ labels ! 2 @ ''.'' @ labels ! 1 @ ''.'' @ labels ! 0, True))"

text \<open>The \<open>switch\<close> of the handler: the reply, the status for the log and the new state.\<close>

definition dns_rbl_case ::
  "'rr dns_lib \<Rightarrow> int64 \<Rightarrow> string \<Rightarrow> 'rr dns_msg \<Rightarrow> server \<Rightarrow> ('rr dns_msg \<times> string \<times> server) option" where
  "dns_rbl_case lib now qname msg st =
     (if \<not> IsSubDomain lib gRBLZone qname then
        Some (msg\<lparr>msg_Rcode := RcodeRefused\<rparr>, ''Refused'', stats_add ReqDnsWrongZone 1 st)
      else case rblQueryToIP qname of
        None \<Rightarrow> None
      | Some (ip, ok) \<Rightarrow>
          if \<not> ok then
            Some (msg\<lparr>msg_Rcode := RcodeFormatError\<rparr>, ''Malformed'', stats_add ReqDnsInvalidQuery 1 st)
          else
            (case ipTableLookup now ip st of
               (Some entry, st) \<Rightarrow>
                 let rr = NewRR lib (qname @ '' 10 IN A '' @ Uint32ToIPv4Str (be_ReturnCode entry)) in
                 Some (msg\<lparr>msg_Answer := msg_Answer msg @ [rr], msg_Rcode := RcodeSuccess\<rparr>,
                   ''Found'', stats_add ReqDnsBlocked 1 st)
             | (None, st) \<Rightarrow>
                 Some (msg\<lparr>msg_Rcode := RcodeNameError\<rparr>, ''NotFound'', stats_add ReqDnsNotListed 1 st)))"

definition dns_ptr_case ::
  "'rr dns_lib \<Rightarrow> int64 \<Rightarrow> string \<Rightarrow> 'rr dns_msg \<Rightarrow> server \<Rightarrow> 'rr dns_msg \<times> string \<times> server" where
  "dns_ptr_case lib now qname msg st =
     (if \<not> IsSubDomain lib ''in-addr.arpa.'' qname then
        (msg\<lparr>msg_Rcode := RcodeRefused\<rparr>, ''WrongZone'', stats_add ReqDnsWrongZone 1 st)
      else let (ip, ok) = ptrQueryToIP qname in
        if \<not> ok then
          (msg\<lparr>msg_Rcode := RcodeFormatError\<rparr>, ''Invalid IP'', stats_add ReqDnsInvalidQuery 1 st)
        else
          (case ipTableLookup now ip st of
             (Some entry, st) \<Rightarrow>
               let rr = NewRR lib (qname @ '' 10 IN PTR '' @ gReverseHost @ ''.'') in
               (msg\<lparr>msg_Answer := msg_Answer msg @ [rr], msg_Rcode := RcodeSuccess\<rparr>,
                 ''Blocked'', stats_add ReqDnsBlocked 1 st)
           | (None, st) \<Rightarrow>
               (msg\<lparr>msg_Rcode := RcodeNameError\<rparr>, ''NotFound'', stats_add ReqDnsNotListed 1 st)))"

text \<open>\<open>handleDNSRequest\<close>: the message it writes and the new state, \<open>None\<close> for a panic.\<close>

definition handleDNSRequest ::
  "'rr dns_lib \<Rightarrow> int64 \<Rightarrow> 'rr dns_msg \<Rightarrow> server \<Rightarrow> ('rr dns_msg \<times> server) option" where
  "handleDNSRequest lib now r st =
     (let msg = (SetReply lib r)\<lparr>msg_Authoritative := True\<rparr> in
      case msg_Question r of
        [] \<Rightarrow> Some (msg\<lparr>msg_Rcode := RcodeFormatError\<rparr>, stats_add ReqDnsInvalidQuery 1 st)
      | q # qs \<Rightarrow>
          let st = (if qs \<noteq> [] then
                      log_call (LogMsg LOG_ERROR ''[DNS Query]: Unexpected multiple questions (%d), using first'') st
                    else st);
              result =
                (if q_Qtype q = TypeA \<or> q_Qtype q = TypeAAAA then dns_rbl_case lib now (q_Name q) msg st
                 else if q_Qtype q = TypePTR then Some (dns_ptr_case lib now (q_Name q) msg st)
                 else Some (msg\<lparr>msg_Rcode := RcodeRefused\<rparr>, ''Unhandled'', stats_add ReqDnsOtherQueryType 1 st))
          in map_option (\<lambda>(msg, status, st). (msg, log_call (LogDnsReq status) st)) result)"

section \<open>Query names\<close>

lemma split_nonempty_labels: "split_on CHR ''.'' s = labels \<Longrightarrow> labels \<noteq> []"
  by auto

text \<open>The name under which a list of labels is queried in a zone.\<close>

definition query_name :: "string list \<Rightarrow> string \<Rightarrow> string" where
  "query_name labels zone = join_with ''.'' labels @ ''.'' @ zone"

lemma query_labels:
  assumes "labels \<noteq> []" "\<forall>l \<in> set labels. CHR ''.'' \<notin> set l"
  shows "split_on CHR ''.'' (trim_suffix (trim_suffix (query_name labels zone) zone) ''.'') = labels"
proof -
  have "trim_suffix (query_name labels zone) zone = join_with ''.'' labels @ ''.''"
    unfolding query_name_def using trim_suffix_append [of "join_with ''.'' labels @ ''.''" zone] by simp
  with assms show ?thesis by (simp add: split_on_join)
qed

lemma list4: "length xs = 4 \<Longrightarrow> xs = [xs ! 0, xs ! 1, xs ! 2, xs ! 3]"
  by (auto simp: numeral_eq_Suc length_Suc_conv)

lemma rblQueryToIP_v4:
  assumes "length labels = 4" "\<forall>l \<in> set labels. CHR ''.'' \<notin> set l"
  shows "rblQueryToIP (query_name labels gRBLZone) = Some (join_with ''.'' (rev labels), True)"
proof -
  from list4 [OF assms(1)] obtain a b c d where l: "labels = [a, b, c, d]" by blast
  with query_labels [OF _ assms(2), of gRBLZone] show ?thesis
    by (simp add: rblQueryToIP_def Let_def)
qed

lemma ptrQueryToIP_v4:
  assumes "length labels = 4" "\<forall>l \<in> set labels. CHR ''.'' \<notin> set l"
  shows "ptrQueryToIP (query_name labels ''in-addr.arpa.'') = (join_with ''.'' (rev labels), True)"
proof -
  from list4 [OF assms(1)] obtain a b c d where l: "labels = [a, b, c, d]" by blast
  with query_labels [OF _ assms(2), of "''in-addr.arpa.''"] show ?thesis
    by (simp add: ptrQueryToIP_def Let_def)
qed

text \<open>The labels of an address are its parts in reverse order.\<close>

definition address_labels :: "IP \<Rightarrow> string list" where
  "address_labels ip = rev (map (\<lambda>b. dec (unat b)) ip)"

lemma address_labels_v4:
  "length p = 4 \<Longrightarrow> length (address_labels p) = 4"
  "\<forall>l \<in> set (address_labels p). CHR ''.'' \<notin> set l"
  "join_with ''.'' (rev (address_labels p)) = string4 p"
  by (auto simp: address_labels_def string4_def)

lemma rblQueryToIP_string4:
  "length p = 4 \<Longrightarrow> rblQueryToIP (query_name (address_labels p) gRBLZone) = Some (string4 p, True)"
  using rblQueryToIP_v4 [OF address_labels_v4(1,2)] address_labels_v4(3) by simp

lemma ptrQueryToIP_string4:
  "length p = 4 \<Longrightarrow> ptrQueryToIP (query_name (address_labels p) ''in-addr.arpa.'') = (string4 p, True)"
  using ptrQueryToIP_v4 [OF address_labels_v4(1,2)] address_labels_v4(3) by simp

section \<open>The slices of an IPv6 query are in range\<close>

lemma length_concat_ge: "\<forall>x \<in> set xs. x \<noteq> [] \<Longrightarrow> length xs \<le> length (concat xs)"
proof (induction xs)
  case (Cons x xs)
  then have "1 \<le> length x" by (cases x) auto
  with Cons show ?case by simp
qed simp

lemma join_with_Nil: "join_with [] xs = concat xs"
  by (induction "[] :: string" xs rule: join_with.induct) simp_all

lemma map_rev_nth: "length labels = 32 \<Longrightarrow> map (\<lambda>i. labels ! (31 - i)) [0..<32] = rev labels"
  by (rule nth_equalityI) (simp_all add: rev_nth)

lemma those_slice4:
  "32 \<le> length hex \<Longrightarrow>
   those (map (slice4 hex) [0..<8]) = Some (map (\<lambda>i. take 4 (drop (i * 4) hex)) [0..<8])"
  by (simp add: upt_rec slice4_def)

lemma rblQueryToIP_v6:
  assumes "length labels = 32" "\<forall>l \<in> set labels. CHR ''.'' \<notin> set l" "\<forall>l \<in> set labels. l \<noteq> []"
  shows "rblQueryToIP (query_name labels gRBLZone) =
    Some (join_with '':'' (map (\<lambda>i. take 4 (drop (i * 4) (concat (rev labels)))) [0..<8]), True)"
proof -
  have "32 \<le> length (concat (rev labels))"
    using length_concat_ge [of "rev labels"] assms by simp
  moreover have "labels \<noteq> []" using assms(1) by auto
  ultimately show ?thesis
    using query_labels [OF _ assms(2), of gRBLZone] assms(1)
    by (simp add: rblQueryToIP_def Let_def map_rev_nth join_with_Nil those_slice4
        del: upt_rec_numeral upt_conv_Cons_Cons)
qed

text \<open>A query name whose labels are not empty never makes a slice expression fail.\<close>

lemma rblQueryToIP_no_panic:
  assumes "[] \<notin> set (split_on CHR ''.'' (trim_suffix (trim_suffix qname gRBLZone) ''.''))"
  shows "rblQueryToIP qname \<noteq> None"
proof -
  let ?labels = "split_on CHR ''.'' (trim_suffix (trim_suffix qname gRBLZone) ''.'')"
  have "32 \<le> length (concat (rev ?labels))" if "length ?labels = 32"
    using length_concat_ge [of "rev ?labels"] assms that by (metis length_rev set_rev)
  then show ?thesis
    by (auto simp: rblQueryToIP_def Let_def map_rev_nth join_with_Nil those_slice4
        del: upt_rec_numeral upt_conv_Cons_Cons)
qed

section \<open>The handler\<close>

definition dns_counters :: "counter list" where
  "dns_counters = [ReqDnsInvalidQuery, ReqDnsWrongZone, ReqDnsBlocked, ReqDnsNotListed, ReqDnsOtherQueryType]"

text \<open>What a DNS request may do to the server: one counter goes up, goroutines and log
  statements are appended, everything else stays.\<close>

definition dns_step :: "server \<Rightarrow> server \<Rightarrow> bool" where
  "dns_step st st' \<longleftrightarrow>
     (\<exists>c \<in> set dns_counters. stats st' = (stats st)(c := wrap64 (stats st c + 1))) \<and>
     ipTable st' = ipTable st \<and> cidrTable st' = cidrTable st \<and>
     etcd_requests st' = etcd_requests st \<and> gMultiInstanceMode st' = gMultiInstanceMode st \<and>
     gEtcdRevision st' = gEtcdRevision st"

lemma dns_step_stats_add:
  "c \<in> set dns_counters \<Longrightarrow> dns_step st (stats_add c 1 st)"
  by (auto simp: dns_step_def)

lemma dns_step_lookup:
  "c \<in> set dns_counters \<Longrightarrow> dns_step st (stats_add c 1 (snd (ipTableLookup now ip st)))"
  by (auto simp: dns_step_def)

lemma dns_step_log:
  "dns_step st (log_call l st') \<longleftrightarrow> dns_step st st'"
  "dns_step (log_call l st) st' \<longleftrightarrow> dns_step st st'"
  by (auto simp: dns_step_def)

lemma dns_rbl_case_step:
  "dns_rbl_case lib now qname msg st = Some (msg', status, st') \<Longrightarrow> dns_step st st'"
  using dns_step_lookup [of ReqDnsBlocked st now] dns_step_lookup [of ReqDnsNotListed st now]
    dns_step_stats_add [of ReqDnsWrongZone st] dns_step_stats_add [of ReqDnsInvalidQuery st]
  by (auto simp: dns_rbl_case_def Let_def dns_counters_def split: if_splits option.splits prod.splits)
     (metis snd_conv)+

lemma dns_ptr_case_step:
  "dns_ptr_case lib now qname msg st = (msg', status, st') \<Longrightarrow> dns_step st st'"
  using dns_step_lookup [of ReqDnsBlocked st now] dns_step_lookup [of ReqDnsNotListed st now]
    dns_step_stats_add [of ReqDnsWrongZone st] dns_step_stats_add [of ReqDnsInvalidQuery st]
  by (auto simp: dns_ptr_case_def Let_def dns_counters_def split: if_splits option.splits prod.splits)
     (metis snd_conv)+

text \<open>A lookup in the zone finds exactly the live entries of the address table.\<close>

lemma dns_rbl_case_key:
  assumes "rblQueryToIP qname = Some (k, True)" and zone: "IsSubDomain lib gRBLZone qname"
  shows "dns_rbl_case lib now qname msg st =
    (let st1 = snd (ipTableLookup now k st) in
     case live_ip now k (ipTable st) of
       Some e \<Rightarrow> Some (msg\<lparr>msg_Answer := msg_Answer msg @
            [NewRR lib (qname @ '' 10 IN A '' @ Uint32ToIPv4Str (be_ReturnCode e))],
            msg_Rcode := RcodeSuccess\<rparr>, ''Found'', stats_add ReqDnsBlocked 1 st1)
     | None \<Rightarrow> Some (msg\<lparr>msg_Rcode := RcodeNameError\<rparr>, ''NotFound'', stats_add ReqDnsNotListed 1 st1))"
  using assms
  by (simp add: dns_rbl_case_def Let_def case_prod_unfold flip: fst_ipTableLookup_live split: option.splits)

lemma dns_rbl_case_v4:
  assumes p: "length p = 4" and q: "qname = query_name (address_labels p) gRBLZone"
    and zone: "IsSubDomain lib gRBLZone qname"
  shows "dns_rbl_case lib now qname msg st =
    (let st1 = snd (ipTableLookup now (string4 p) st) in
     case live_ip now (string4 p) (ipTable st) of
       Some e \<Rightarrow> Some (msg\<lparr>msg_Answer := msg_Answer msg @
            [NewRR lib (qname @ '' 10 IN A '' @ Uint32ToIPv4Str (be_ReturnCode e))],
            msg_Rcode := RcodeSuccess\<rparr>, ''Found'', stats_add ReqDnsBlocked 1 st1)
     | None \<Rightarrow> Some (msg\<lparr>msg_Rcode := RcodeNameError\<rparr>, ''NotFound'', stats_add ReqDnsNotListed 1 st1))"
  using zone rblQueryToIP_string4 [OF p] q by (intro dns_rbl_case_key) simp_all

lemma dns_ptr_case_v4:
  assumes p: "length p = 4" and q: "qname = query_name (address_labels p) ''in-addr.arpa.''"
    and zone: "IsSubDomain lib ''in-addr.arpa.'' qname"
  shows "dns_ptr_case lib now qname msg st =
    (let st1 = snd (ipTableLookup now (string4 p) st) in
     case live_ip now (string4 p) (ipTable st) of
       Some e \<Rightarrow> (msg\<lparr>msg_Answer := msg_Answer msg @ [NewRR lib (qname @ '' 10 IN PTR '' @ gReverseHost @ ''.'')],
            msg_Rcode := RcodeSuccess\<rparr>, ''Blocked'', stats_add ReqDnsBlocked 1 st1)
     | None \<Rightarrow> (msg\<lparr>msg_Rcode := RcodeNameError\<rparr>, ''NotFound'', stats_add ReqDnsNotListed 1 st1))"
  using zone ptrQueryToIP_string4 [OF p]
  by (simp add: dns_ptr_case_def q Let_def case_prod_unfold flip: fst_ipTableLookup_live split: option.splits)

lemma handleDNSRequest_step:
  assumes "handleDNSRequest lib now r st = Some (msg, st')"
  shows "dns_step st st'"
proof (cases "msg_Question r")
  case Nil
  with assms show ?thesis
    by (auto simp: handleDNSRequest_def dns_counters_def intro!: dns_step_stats_add)
next
  case (Cons q qs)
  let ?st = "if qs \<noteq> [] then
      log_call (LogMsg LOG_ERROR ''[DNS Query]: Unexpected multiple questions (%d), using first'') st else st"
  let ?msg = "(SetReply lib r)\<lparr>msg_Authoritative := True\<rparr>"
  from assms Cons obtain status st1 where st': "st' = log_call (LogDnsReq status) st1" and
    "dns_rbl_case lib now (q_Name q) ?msg ?st = Some (msg, status, st1) \<or>
     dns_ptr_case lib now (q_Name q) ?msg ?st = (msg, status, st1) \<or>
     st1 = stats_add ReqDnsOtherQueryType 1 ?st"
    by (auto simp: handleDNSRequest_def Let_def split: if_splits)
  then have "dns_step ?st st1"
    using dns_rbl_case_step [of lib now "q_Name q" ?msg ?st] dns_ptr_case_step [of lib now "q_Name q" ?msg ?st]
      dns_step_stats_add [of ReqDnsOtherQueryType ?st]
    by (auto simp: dns_counters_def)
  with st' show ?thesis by (simp add: dns_step_log split: if_splits)
qed

section \<open>Properties\<close>

text \<open>C21: A DNS query for an IPv4 address answers by the address table. For an A or AAAA
  question about the reversed octets of \<open>p\<close> below the zone, the handler does not panic; it
  answers with the return code of the live entry of \<open>p\<close> (one record, NOERROR), or NXDOMAIN
  with no record when there is none or it has expired. The zone test and the record
  constructor are those of the DNS library.\<close>

theorem dns_answers_live_entry:
  assumes "length p = 4" "msg_Question r = q # qs" "q_Qtype q = TypeA \<or> q_Qtype q = TypeAAAA"
    and "q_Name q = query_name (address_labels p) gRBLZone"
    and "IsSubDomain lib gRBLZone (q_Name q)" "msg_Answer (SetReply lib r) = []"
  shows "\<exists>msg st'. handleDNSRequest lib now r st = Some (msg, st') \<and> msg_Authoritative msg \<and>
    (case live_ip now (string4 p) (ipTable st) of
       Some e \<Rightarrow> msg_Rcode msg = RcodeSuccess \<and>
         msg_Answer msg = [NewRR lib (q_Name q @ '' 10 IN A '' @ Uint32ToIPv4Str (be_ReturnCode e))]
     | None \<Rightarrow> msg_Rcode msg = RcodeNameError \<and> msg_Answer msg = [])"
  using assms(2,3,6) dns_rbl_case_v4 [OF assms(1,4,5)]
  by (auto simp: handleDNSRequest_def Let_def dns_consts split: option.splits)

text \<open>A library for the witnesses: suffix test, records as text, an empty reply.\<close>

definition text_lib :: "string dns_lib" where
  "text_lib = \<lparr>SetReply = (\<lambda>r. r\<lparr>msg_Answer := []\<rparr>), IsSubDomain = (\<lambda>zone name. has_suffix name zone),
     NewRR = Some\<rparr>"

lemma query_name_in_zone: "IsSubDomain text_lib zone (query_name labels zone)"
  using trim_suffix_append by (simp add: text_lib_def query_name_def has_suffix_def)

definition sample_question :: "nat \<Rightarrow> string \<Rightarrow> dns_question" where
  "sample_question t zone = \<lparr>q_Name = query_name (address_labels [192, 0, 2, 1]) zone, q_Qtype = t\<rparr>"

definition sample_query :: "nat \<Rightarrow> string \<Rightarrow> string dns_msg" where
  "sample_query t zone = \<lparr>msg_Question = [sample_question t zone],
     msg_Rcode = 0, msg_Authoritative = False, msg_Answer = []\<rparr>"

lemma sample_query_facts:
  "msg_Question (sample_query t zone) = [sample_question t zone]"
  "q_Qtype (sample_question t zone) = t"
  "q_Name (sample_question t zone) = query_name (address_labels [192, 0, 2, 1]) zone"
  "IsSubDomain text_lib zone (q_Name (sample_question t zone))"
  "msg_Answer (SetReply text_lib (sample_query t zone)) = []"
  using query_name_in_zone by (simp_all add: sample_question_def sample_query_def) (simp add: text_lib_def)

theorem dns_answers_live_entry_witness:
  "\<exists>msg st'. handleDNSRequest text_lib 0 (sample_query TypeA gRBLZone) (initial_server False) = Some (msg, st') \<and>
     msg_Rcode msg = RcodeNameError"
  using dns_answers_live_entry [OF _ sample_query_facts(1) _ sample_query_facts(3,4,5), of TypeA 0
      "initial_server False"]
  by (auto simp: sample_query_facts(2) live_ip_def ip_get_def)

text \<open>Reverse lookups answer by the same entries: a PTR question about \<open>p\<close> below
  \<open>in-addr.arpa.\<close> gets the blocked host name exactly when \<open>p\<close> has a live entry.\<close>

theorem dns_ptr_answers_live_entry:
  assumes "length p = 4" "msg_Question r = q # qs" "q_Qtype q = TypePTR"
    and "q_Name q = query_name (address_labels p) ''in-addr.arpa.''"
    and "IsSubDomain lib ''in-addr.arpa.'' (q_Name q)" "msg_Answer (SetReply lib r) = []"
  shows "\<exists>msg st'. handleDNSRequest lib now r st = Some (msg, st') \<and>
    (if live_ip now (string4 p) (ipTable st) = None
     then msg_Rcode msg = RcodeNameError \<and> msg_Answer msg = []
     else msg_Rcode msg = RcodeSuccess \<and> msg_Answer msg = [NewRR lib (q_Name q @ '' 10 IN PTR blocked.internal.'')])"
  using assms(2,3,6) dns_ptr_case_v4 [OF assms(1,4,5)]
  by (auto simp: handleDNSRequest_def Let_def dns_consts gReverseHost_def split: option.splits)

theorem dns_ptr_answers_live_entry_witness:
  "\<exists>msg st'. handleDNSRequest text_lib 0 (sample_query TypePTR ''in-addr.arpa.'') (initial_server False) =
       Some (msg, st') \<and> msg_Rcode msg = RcodeNameError"
  using dns_ptr_answers_live_entry [OF _ sample_query_facts(1,2,3,4,5), of 0 "initial_server False"]
  by (auto simp: live_ip_def ip_get_def)

text \<open>DNS requests only read. Whatever the question and whatever the DNS library does, a
  request that is answered increments exactly one of the five DNS counters, changes neither
  table and sends nothing to etcd.\<close>

theorem dns_request_reads_only:
  assumes "handleDNSRequest lib now r st = Some (msg, st')"
  shows "dns_step st st'"
  using assms by (rule handleDNSRequest_step)

theorem dns_request_reads_only_witness:
  "\<exists>msg st'. handleDNSRequest text_lib 0 (sample_query 16 gRBLZone) (initial_server False) = Some (msg, st') \<and>
     dns_step (initial_server False) st'"
proof -
  obtain msg st' where "handleDNSRequest text_lib 0 (sample_query 16 gRBLZone) (initial_server False) = Some (msg, st')"
    by (simp add: handleDNSRequest_def sample_query_facts Let_def dns_consts)
  with dns_request_reads_only [OF this] show ?thesis by blast
qed



end
