(* ===== verification/DnsV6.thy ===== *)
theory DnsV6
  imports Dns
begin

text \<open>
  Questions about IPv6 addresses. \<open>rblQueryToIP\<close> writes the address in full, eight groups of
  four digits, and looks that text up; the table holds addresses in the text they were blocked
  under, which for CrowdSec and for the usual writing is the canonical one.
\<close>

section \<open>The text that is looked up\<close>

definition nibble_labels :: "IP \<Rightarrow> string list" where
  "nibble_labels ip = rev (map (\<lambda>c. [c]) (hex_encode ip))"

definition hex4_text :: "nat \<Rightarrow> string" where
  "hex4_text g = map hex_digit [g div 4096, g div 256 mod 16, g div 16 mod 16, g mod 16]"

definition expanded6 :: "IP \<Rightarrow> string" where
  "expanded6 ip = join_with '':'' (map hex4_text (groups16 ip))"

lemma dot_notin_hex_encode: "CHR ''.'' \<notin> set (hex_encode bs)"
proof (induction bs)
  case (Cons b bs)
  have "unat b div 16 < 16" "unat b mod 16 < 16" using unat_byte_less [of b] by linarith+
  from this [THEN hex_digit_not_punct] Cons show ?case by auto
qed simp

lemma group_digits:
  fixes a b :: nat
  assumes "b < 256"
  shows "(a * 256 + b) div 4096 = a div 16" "(a * 256 + b) div 256 mod 16 = a mod 16"
    "(a * 256 + b) div 16 mod 16 = b div 16" "(a * 256 + b) mod 16 = b mod 16"
proof -
  have 256: "(a * 256 + b) div 256 = a" using assms by simp
  then show "(a * 256 + b) div 256 mod 16 = a mod 16" by simp
  show "(a * 256 + b) div 4096 = a div 16" using 256 div_mult2_eq [of "a * 256 + b" 256 16] by simp
  have 16: "a * 256 + b = b + (a * 16) * 16" by simp
  show "(a * 256 + b) mod 16 = b mod 16" unfolding 16 by (rule mod_mult_self1)
  have "(a * 256 + b) div 16 = a * 16 + b div 16" unfolding 16 by (simp only: div_mult_self1)
  moreover have "b div 16 < 16" using assms by linarith
  ultimately show "(a * 256 + b) div 16 mod 16 = b div 16" by simp
qed

lemma hex4_text_bytes:
  "hex4_text (unat (a :: byte) * 256 + unat (b :: byte)) =
   [hex_digit (unat a div 16), hex_digit (unat a mod 16), hex_digit (unat b div 16), hex_digit (unat b mod 16)]"
  unfolding hex4_text_def list.map group_digits [OF unat_byte_less] ..

lemma chunks_hex_encode:
  "map (\<lambda>i. take 4 (drop (i * 4) (hex_encode ip))) [0..<length ip div 2] = map hex4_text (groups16 ip)"
proof (induction ip rule: groups16.induct)
  case (1 a b xs)
  have "[0..<length (a # b # xs) div 2] = 0 # map Suc [0..<length xs div 2]"
    by (simp add: map_Suc_upt upt_conv_Cons)
  moreover have enc: "hex_encode (a # b # xs) = hex_encode [a, b] @ hex_encode xs" by simp
  have "drop (Suc i * 4) (hex_encode (a # b # xs)) = drop (i * 4) (hex_encode xs)" for i
    unfolding enc drop_append by simp
  moreover have "take 4 (drop (0 * 4) (hex_encode (a # b # xs))) = hex4_text (unat a * 256 + unat b)"
    unfolding enc by (simp add: hex4_text_bytes)
  ultimately show ?case using 1 by (simp only: groups16.simps list.map map_map comp_def)
qed simp_all

lemma rblQueryToIP_nibbles:
  assumes "length ip = 16"
  shows "rblQueryToIP (query_name (nibble_labels ip) gRBLZone) = Some (expanded6 ip, True)"
proof -
  have "\<forall>l \<in> set (nibble_labels ip). CHR ''.'' \<notin> set l"
    using dot_notin_hex_encode [of ip] by (auto simp: nibble_labels_def)
  moreover have "concat (rev (nibble_labels ip)) = hex_encode ip"
    by (simp add: nibble_labels_def concat_map_singleton)
  moreover have "map (\<lambda>i. take 4 (drop (i * 4) (hex_encode ip))) [0..<8] = map hex4_text (groups16 ip)"
    using chunks_hex_encode [of ip] assms by simp
  ultimately show ?thesis
    using rblQueryToIP_v6 [of "nibble_labels ip"] assms
    by (auto simp: nibble_labels_def expanded6_def simp del: upt_rec_numeral upt_conv_Cons_Cons)
qed

section \<open>When it is the canonical text\<close>

lemma length_join_colon:
  "xs \<noteq> [] \<Longrightarrow> length (join_with '':'' xs) + 1 = sum_list (map length xs) + length xs"
  by (induction "'':''" xs rule: join_with.induct) simp_all

lemma length_expanded6: "length ip = 16 \<Longrightarrow> length (expanded6 ip) = 39"
proof -
  assume "length ip = 16"
  then have "length (groups16 ip) = 8" by (simp add: length_groups16)
  moreover have "sum_list (map length (map hex4_text gs)) = 4 * length gs" for gs
    by (induction gs) (simp_all add: hex4_text_def)
  ultimately show ?thesis
    using length_join_colon [of "map hex4_text (groups16 ip)"] by (cases "groups16 ip = []") (simp_all add: expanded6_def del: map_map)
qed

lemma length_appendHex: "length (appendHex g) \<le> 4" "g < 4096 \<Longrightarrow> length (appendHex g) < 4"
  by (simp_all add: appendHex_def)

lemma appendHex_full: "4096 \<le> g \<Longrightarrow> appendHex g = hex4_text g"
  by (simp add: appendHex_def hex4_text_def)

lemma sum_appendHex: "sum_list (map length (map appendHex gs)) \<le> 4 * length gs"
  by (induction gs) (use length_appendHex(1) in \<open>auto simp: add_mono\<close>)

lemma sum_appendHex_less:
  "\<exists>g \<in> set gs. g < 4096 \<Longrightarrow> sum_list (map length (map appendHex gs)) < 4 * length gs"
proof (induction gs)
  case (Cons g gs)
  then show ?case
    using length_appendHex [of g] sum_appendHex [of gs] by (cases "g < 4096") (auto simp: add_less_le_mono)
qed simp

lemma length_join_appendHex: "length (join_with '':'' (map appendHex gs)) \<le> 5 * length gs"
  using length_join_colon [of "map appendHex gs"] sum_appendHex [of gs] by (cases "gs = []") auto

lemma string6_short:
  assumes "length ip = 16" "\<exists>g \<in> set (groups16 ip). g < 4096"
  shows "length (string6 ip) < 39"
proof -
  let ?gs = "groups16 ip"
  have len: "length ?gs = 8" using assms(1) by (simp add: length_groups16)
  show ?thesis
  proof (cases "longest_zeros ?gs [0..<8] None")
    case None
    then have "string6 ip = join_with '':'' (map appendHex ?gs)" by (simp add: string6_def Let_def)
    then show ?thesis
      using length_join_colon [of "map appendHex ?gs"] sum_appendHex_less [OF assms(2)] len
      by (cases "?gs = []") (simp_all del: map_map)
  next
    case (Some ab)
    obtain a b where ab: "ab = (a, b)" by (cases ab)
    have "zero_span ?gs (a, b)" using longest_zeros_span [of ?gs "[0..<8]" None ab] Some ab len by auto
    then have "a + 2 \<le> b" "b \<le> 8" using len by (simp_all add: zero_span_def)
    then show ?thesis
      using length_join_appendHex [of "take a ?gs"] length_join_appendHex [of "drop b ?gs"] Some ab len
      by (simp add: string6_def Let_def)
  qed
qed

lemma expanded6_canonical:
  assumes "length ip = 16" "To4 ip = None"
  shows "expanded6 ip = IP_String ip \<longleftrightarrow> (\<forall>g \<in> set (groups16 ip). 4096 \<le> g)"
proof
  assume "expanded6 ip = IP_String ip"
  then have "length (string6 ip) = 39" using length_expanded6 [OF assms(1)] assms(2) by (simp add: IP_String_def)
  then show "\<forall>g \<in> set (groups16 ip). 4096 \<le> g" using string6_short [OF assms(1)] by (metis less_irrefl not_le)
next
  let ?gs = "groups16 ip"
  assume full: "\<forall>g \<in> set ?gs. 4096 \<le> g"
  have len: "length ?gs = 8" using assms(1) by (simp add: length_groups16)
  have "longest_zeros ?gs [0..<8] None = None"
  proof (rule ccontr)
    assume "longest_zeros ?gs [0..<8] None \<noteq> None"
    then obtain a b where "longest_zeros ?gs [0..<8] None = Some (a, b)" by auto
    then have "zero_span ?gs (a, b)" using longest_zeros_span [of ?gs "[0..<8]" None "(a, b)"] len by auto
    then have "?gs ! a = 0" "a < length ?gs" by (simp_all add: zero_span_def)
    with full nth_mem [of a ?gs] show False by fastforce
  qed
  then have "string6 ip = join_with '':'' (map appendHex ?gs)" by (simp add: string6_def Let_def)
  also have "map appendHex ?gs = map hex4_text ?gs" using full by (simp add: appendHex_full)
  finally show "expanded6 ip = IP_String ip" using assms(2) by (simp add: expanded6_def IP_String_def)
qed

section \<open>Properties\<close>

text \<open>C23: A DNS question about an IPv6 address answers by the fully written address. For an A or
  AAAA question about the 32 reversed nibbles of an IPv6 address below the zone the handler
  does not panic, and answers by the live entry under the text with eight groups of four
  digits. That is the canonical text of the address exactly if no group has a leading zero, so
  an address that is blocked under its canonical text alone, as CrowdSec does it, is reported
  as not listed (NXDOMAIN) whenever one of its groups is below \<open>1000\<close> (hexadecimal).\<close>

theorem dns_ipv6_needs_full_text:
  assumes "length ip = 16" "To4 ip = None" "msg_Question r = q # qs" "q_Qtype q = TypeA \<or> q_Qtype q = TypeAAAA"
    and "q_Name q = query_name (nibble_labels ip) gRBLZone"
    and "IsSubDomain lib gRBLZone (q_Name q)" "msg_Answer (SetReply lib r) = []"
  shows "\<exists>msg st'. handleDNSRequest lib now r st = Some (msg, st') \<and>
    (case live_ip now (expanded6 ip) (ipTable st) of
       Some e \<Rightarrow> msg_Rcode msg = RcodeSuccess \<and>
         msg_Answer msg = [NewRR lib (q_Name q @ '' 10 IN A '' @ Uint32ToIPv4Str (be_ReturnCode e))]
     | None \<Rightarrow> msg_Rcode msg = RcodeNameError \<and> msg_Answer msg = []) \<and>
    (expanded6 ip = IP_String ip \<longleftrightarrow> (\<forall>g \<in> set (groups16 ip). 0x1000 \<le> g)) \<and>
    ((\<exists>g \<in> set (groups16 ip). g < 0x1000) \<and> (\<forall>k. k \<noteq> IP_String ip \<longrightarrow> ip_get (ipTable st) k = None) \<longrightarrow>
      msg_Rcode msg = RcodeNameError)"
proof -
  have "rblQueryToIP (q_Name q) = Some (expanded6 ip, True)" using rblQueryToIP_nibbles [OF assms(1)] assms(5) by simp
  from dns_rbl_case_key [OF this assms(6)] have "\<exists>msg st'. handleDNSRequest lib now r st = Some (msg, st') \<and>
    (case live_ip now (expanded6 ip) (ipTable st) of
       Some e \<Rightarrow> msg_Rcode msg = RcodeSuccess \<and>
         msg_Answer msg = [NewRR lib (q_Name q @ '' 10 IN A '' @ Uint32ToIPv4Str (be_ReturnCode e))]
     | None \<Rightarrow> msg_Rcode msg = RcodeNameError \<and> msg_Answer msg = [])"
    using assms(3,4,7) by (auto simp: handleDNSRequest_def Let_def dns_consts split: option.splits)
  then obtain msg st' where
    m: "handleDNSRequest lib now r st = Some (msg, st')" "case live_ip now (expanded6 ip) (ipTable st) of
       Some e \<Rightarrow> msg_Rcode msg = RcodeSuccess \<and>
         msg_Answer msg = [NewRR lib (q_Name q @ '' 10 IN A '' @ Uint32ToIPv4Str (be_ReturnCode e))]
     | None \<Rightarrow> msg_Rcode msg = RcodeNameError \<and> msg_Answer msg = []" by blast
  note canon = expanded6_canonical [OF assms(1,2)]
  have "msg_Rcode msg = RcodeNameError"
    if "\<exists>g \<in> set (groups16 ip). g < 0x1000" "\<forall>k. k \<noteq> IP_String ip \<longrightarrow> ip_get (ipTable st) k = None"
  proof -
    have "expanded6 ip \<noteq> IP_String ip" using that(1) canon by (auto simp: not_le)
    with that(2) have "live_ip now (expanded6 ip) (ipTable st) = None" by (simp add: live_ip_def)
    with m(2) show ?thesis by simp
  qed
  with m canon show ?thesis by blast
qed

definition sample_v6 :: IP where
  "sample_v6 = [0x20, 0x01, 0x0d, 0xb8, 0, 0, 0, 0, 0, 0, 0, 0, 0, 0, 0, 0x01]"

definition sample_v6_query :: "string dns_msg" where
  "sample_v6_query = \<lparr>msg_Question = [\<lparr>q_Name = query_name (nibble_labels sample_v6) gRBLZone, q_Qtype = TypeAAAA\<rparr>],
     msg_Rcode = 0, msg_Authoritative = False, msg_Answer = []\<rparr>"

definition sample_v6_server :: server where
  "sample_v6_server = (initial_server False)\<lparr>ipTable := [(IP_String sample_v6,
     \<lparr>be_IP = IP_String sample_v6, be_Source = ''crowdsec'', be_Scenario = [], be_Action = ''ban'', be_CreateRevision = 0,
      be_ModRevision = 0, be_FirstSeen = 1, be_LastSeen = 1, be_Expiration = 0, be_ReturnCode = 0x7F000002\<rparr>)]\<rparr>"

theorem dns_ipv6_needs_full_text_witness:
  "ip_get (ipTable sample_v6_server) (IP_String sample_v6) \<noteq> None \<and>
   (\<exists>msg st'. handleDNSRequest text_lib 0 sample_v6_query sample_v6_server = Some (msg, st') \<and> msg_Rcode msg = RcodeNameError)"
proof -
  let ?q = "\<lparr>q_Name = query_name (nibble_labels sample_v6) gRBLZone, q_Qtype = TypeAAAA\<rparr>"
  have len: "length sample_v6 = 16" "To4 sample_v6 = None" by (simp_all add: sample_v6_def To4_def v4InV6Prefix_def)
  have g: "\<exists>g \<in> set (groups16 sample_v6). g < 0x1000" by (simp add: sample_v6_def)
  have lib: "msg_Question sample_v6_query = [?q]" "msg_Answer (SetReply text_lib sample_v6_query) = []"
    by (simp_all add: sample_v6_query_def text_lib_def)
  have get: "ip_get (ipTable sample_v6_server) k \<noteq> None \<longleftrightarrow> k = IP_String sample_v6" for k
    by (simp add: sample_v6_server_def ip_get_def)
  have "IsSubDomain text_lib gRBLZone (q_Name ?q)" using query_name_in_zone by simp
  from dns_ipv6_needs_full_text [OF len lib(1) _ _ this lib(2), of 0 sample_v6_server] g get show ?thesis by auto
qed

end
