(* ===== verification/System.thy ===== *)
theory System
  imports Router Expiry
begin

text \<open>
  What the HTTP interface promises: an abstract blocklist, two maps with updates, which the
  handlers, the router and both tables implement (a functional refinement, for whole
  sequences of requests), and where the network table differs from the map it stands for.
\<close>

section \<open>The abstract blocklist\<close>

record blocklist =
  bl_ips :: "string \<Rightarrow> BlockEntry option"
  bl_nets :: "string \<Rightarrow> CIDREntry option"

definition abs_server :: "server \<Rightarrow> blocklist" where
  "abs_server st = \<lparr>bl_ips = ip_get (ipTable st), bl_nets = cidr_find (cidrTable st)\<rparr>"

text \<open>What a write to the API does to the blocklist: a valid \<open>PUT\<close> inserts or replaces one entry,
  keeping when it was first seen; a valid \<open>DELETE\<close> removes one; nothing else changes anything.\<close>

definition spec_first_seen :: "(nat \<Rightarrow> int64) \<Rightarrow> string \<Rightarrow> blocklist \<Rightarrow> int64" where
  "spec_first_seen clk ip b =
     (case bl_ips b ip of Some e \<Rightarrow> if expired (clk 1) (be_Expiration e) then clk 0 else be_FirstSeen e | None \<Rightarrow> clk 0)"

definition spec_request :: "(nat \<Rightarrow> int64) \<Rightarrow> http_request \<Rightarrow> blocklist \<Rightarrow> blocklist" where
  "spec_request clk hr b =
     (case RegisterWriteHandler (hr_Method hr) (hr_Path hr) of
        Some (EPut ip) \<Rightarrow>
          (case put_params (clk 0) (hr_Query hr) of
             Inr f \<Rightarrow> if IsValidIP ip then b\<lparr>bl_ips := (bl_ips b)(ip \<mapsto> put_entry ip f (spec_first_seen clk ip b))\<rparr> else b
           | Inl _ \<Rightarrow> b)
      | Some (EDelete ip) \<Rightarrow> if IsValidIP ip then b\<lparr>bl_ips := (bl_ips b)(ip := None)\<rparr> else b
      | Some (EPutNetwork n p) \<Rightarrow>
          (case (ParseCIDR (n @ ''/'' @ p), put_params (clk 0) (hr_Query hr)) of
             (Some network, Inr f) \<Rightarrow>
               let cidr = IPNet_String network;
                   fs = (case bl_nets b cidr of Some e \<Rightarrow> ce_FirstSeen e | None \<Rightarrow> clk 0)
               in b\<lparr>bl_nets := (bl_nets b)(cidr \<mapsto> put_cidr_entry cidr network f fs)\<rparr>
           | _ \<Rightarrow> b)
      | Some (EDeleteNetwork n p) \<Rightarrow>
          (case ParseCIDR (n @ ''/'' @ p) of
             Some network \<Rightarrow> b\<lparr>bl_nets := (bl_nets b)(IPNet_String network := None)\<rparr>
           | None \<Rightarrow> b)
      | _ \<Rightarrow> b)"

definition spec_blocked :: "int64 \<Rightarrow> string \<Rightarrow> IP \<Rightarrow> blocklist \<Rightarrow> bool" where
  "spec_blocked now ip a b \<longleftrightarrow>
     (\<exists>e. bl_ips b ip = Some e \<and> \<not> expired now (be_Expiration e)) \<or>
     (\<exists>k e. bl_nets b k = Some e \<and> Contains (ce_Net e) a)"

definition serve :: "bool \<times> (nat \<Rightarrow> int64) \<times> http_request \<Rightarrow> server \<Rightarrow> server" where
  "serve req st = (case req of (api, clk, hr) \<Rightarrow> snd ((if api then apiListener else lookupListener) clk hr st))"

definition spec_serve :: "bool \<times> (nat \<Rightarrow> int64) \<times> http_request \<Rightarrow> blocklist \<Rightarrow> blocklist" where
  "spec_serve req b = (case req of (api, clk, hr) \<Rightarrow> if api then spec_request clk hr b else b)"

section \<open>The refinement\<close>

lemma abs_server_cong: "ipTable st = ipTable st' \<Longrightarrow> cidrTable st = cidrTable st' \<Longrightarrow> abs_server st = abs_server st'"
  by (simp add: abs_server_def)

lemma tables_same_store: "same_store st st' \<Longrightarrow> abs_server st = abs_server st'"
  by (simp add: same_store_def abs_server_def)

lemma IsValidIP_Some: "IsValidIP ip \<longleftrightarrow> (\<exists>a. ParseIP ip = Some a)"
  by (simp add: IsValidIP_def)

lemma refine_put:
  assumes "tables_ok st" "\<not> gMultiInstanceMode st"
  shows "abs_server (snd (handlePut clk (path_request m [(''ip'', ip)] q) st)) =
    (case put_params (clk 0) q of
       Inr f \<Rightarrow> if IsValidIP ip
         then (abs_server st)\<lparr>bl_ips := (ip_get (ipTable st))(ip \<mapsto> put_entry ip f (spec_first_seen clk ip (abs_server st)))\<rparr>
         else abs_server st
     | Inl _ \<Rightarrow> abs_server st)"
proof (cases "ParseIP ip"; cases "put_params (clk 0) q")
  fix a f
  assume p: "ParseIP ip = Some a" "put_params (clk 0) q = Inr f"
  let ?r = "path_request m [(''ip'', ip)] q"
  have fs: "put_first_seen (clk 0) (clk 1) ip st = spec_first_seen clk ip (abs_server st)"
    by (simp add: put_first_seen_def spec_first_seen_def live_ip_def abs_server_def split: option.splits)
  have "be_IP (put_entry ip f x) = ip" for x by (simp add: put_entry_def)
  with handlePut_accepts(3,4) [of ?r a clk f st] p assms fs show ?thesis
    by (simp add: abs_server_def tables_ok_def ips.lookup_put IsValidIP_Some)
qed (use handlePut_rejects(2,3) [of "path_request m [(''ip'', ip)] q" clk _ st] in \<open>auto simp: abs_server_def IsValidIP_Some\<close>)

lemma refine_delete:
  assumes "tables_ok st" "\<not> gMultiInstanceMode st"
  shows "abs_server (snd (handleDelete (path_request m [(''ip'', ip)] q) st)) =
    (if IsValidIP ip then (abs_server st)\<lparr>bl_ips := (ip_get (ipTable st))(ip := None)\<rparr> else abs_server st)"
  using assms handleDelete_rejects(2,3) [of "path_request m [(''ip'', ip)] q" st]
    handleDelete_accepts(2,3) [of "path_request m [(''ip'', ip)] q" _ st]
  by (cases "ParseIP ip") (auto simp: abs_server_def tables_ok_def ips.lookup_del IsValidIP_Some)

lemma refine_put_network:
  assumes "tables_ok st" "\<not> gMultiInstanceMode st"
  shows "abs_server (snd (handlePutNetwork clk (path_request m [(''net'', n), (''prefix'', p)] q) st)) =
    (case (ParseCIDR (n @ ''/'' @ p), put_params (clk 0) q) of
       (Some network, Inr f) \<Rightarrow>
         let cidr = IPNet_String network;
             fs = (case cidr_find (cidrTable st) cidr of Some e \<Rightarrow> ce_FirstSeen e | None \<Rightarrow> clk 0)
         in (abs_server st)\<lparr>bl_nets := (cidr_find (cidrTable st))(cidr \<mapsto> put_cidr_entry cidr network f fs)\<rparr>
     | _ \<Rightarrow> abs_server st)"
proof -
  let ?r = "path_request m [(''net'', n), (''prefix'', p)] q"
  have t: "network_text ?r = n @ ''/'' @ p" by (simp add: network_text_def)
  have key: "ce_CIDR (put_cidr_entry c nw f fs) = c" for c nw f fs by (simp add: put_cidr_entry_def)
  show ?thesis
  proof (cases "ParseCIDR (n @ ''/'' @ p)"; cases "put_params (clk 0) q")
    fix nw f
    assume a: "ParseCIDR (n @ ''/'' @ p) = Some nw" "put_params (clk 0) q = Inr f"
    with handlePutNetwork_accepts(2,3) [of ?r nw clk f st] assms t key show ?thesis
      by (simp add: abs_server_def tables_ok_def cidrs.lookup_put Let_def)
  qed (use handlePutNetwork_rejects(2,3) [of ?r clk _ st] t in \<open>auto simp: abs_server_def split: option.splits\<close>)
qed

lemma refine_delete_network:
  assumes "tables_ok st" "\<not> gMultiInstanceMode st"
  shows "abs_server (snd (handleDeleteNetwork (path_request m [(''net'', n), (''prefix'', p)] q) st)) =
    (case ParseCIDR (n @ ''/'' @ p) of
       Some network \<Rightarrow> (abs_server st)\<lparr>bl_nets := (cidr_find (cidrTable st))(IPNet_String network := None)\<rparr>
     | None \<Rightarrow> abs_server st)"
proof -
  let ?r = "path_request m [(''net'', n), (''prefix'', p)] q"
  have "network_text ?r = n @ ''/'' @ p" by (simp add: network_text_def)
  with assms handleDeleteNetwork_rejects(2,3) [of ?r st] handleDeleteNetwork_accepts(2,3) [of ?r _ st] show ?thesis
    by (cases "ParseCIDR (n @ ''/'' @ p)") (auto simp: abs_server_def tables_ok_def cidrs.lookup_del)
qed

lemma multi_run_endpoint: "gMultiInstanceMode (snd (run_endpoint clk hr e st)) = gMultiInstanceMode st"
  by (simp add: run_endpoint_def Let_def handler_unfold lookup_entry_def case_prod_unfold etcd_defs
      split: option.splits endpoint.splits sum.splits)

lemma write_endpoint_cases:
  "RegisterWriteHandler m p = Some e \<Longrightarrow>
   (\<exists>ip. e = EPut ip) \<or> (\<exists>ip. e = EDelete ip) \<or> (\<exists>n q. e = EPutNetwork n q) \<or> (\<exists>n q. e = EDeleteNetwork n q)"
  by (auto simp: RegisterWriteHandler_def split: list.splits if_splits)

lemma refine_request:
  assumes "tables_ok st" "\<not> gMultiInstanceMode st"
  shows "abs_server (snd (apiListener clk hr st)) = spec_request clk hr (abs_server st)"
proof (cases "RegisterReadHandler (hr_Method hr) (hr_Path hr)")
  case (Some e)
  have "abs_server (snd (apiListener clk hr st)) = abs_server st"
    using read_endpoint_same_store [OF RegisterReadHandler_read, of clk hr "hr_Method hr" "hr_Path hr" st] Some
    by (simp add: apiListener_def tables_same_store)
  with no_read_write_clash [OF Some] show ?thesis by (simp add: spec_request_def)
next
  case None
  have abs: "bl_ips (abs_server st) = ip_get (ipTable st)" "bl_nets (abs_server st) = cidr_find (cidrTable st)"
    by (simp_all add: abs_server_def)
  show ?thesis
  proof (cases "RegisterWriteHandler (hr_Method hr) (hr_Path hr)")
    case no_write: None
    have "same_store (snd (run_endpoint clk hr None st)) st" by (rule read_endpoint_same_store) (simp add: read_endpoint_def)
    with None no_write show ?thesis by (simp add: apiListener_def spec_request_def tables_same_store)
  next
    case (Some e)
    with None write_endpoint_cases [OF Some] show ?thesis
      using refine_put [OF assms, folded abs] refine_delete [OF assms, folded abs]
        refine_put_network [OF assms, folded abs] refine_delete_network [OF assms, folded abs]
      by (auto simp: apiListener_def spec_request_def run_endpoint_def)
  qed
qed

lemma refine_serve:
  assumes "tables_ok st" "\<not> gMultiInstanceMode st"
  shows "abs_server (serve req st) = spec_serve req (abs_server st)"
    and "tables_ok (serve req st)" "\<not> gMultiInstanceMode (serve req st)"
proof -
  obtain api clk hr where req: "req = (api, clk, hr)" by (cases req)
  show "abs_server (serve req st) = spec_serve req (abs_server st)"
    using refine_request [OF assms] read_endpoint_same_store [OF RegisterReadHandler_read]
    by (auto simp: req serve_def spec_serve_def lookupListener_def tables_same_store)
  show "tables_ok (serve req st)" "\<not> gMultiInstanceMode (serve req st)"
    using assms by (simp_all add: req serve_def apiListener_def lookupListener_def tables_ok_run_endpoint multi_run_endpoint)
qed

lemma refine_serves:
  assumes "tables_ok st" "\<not> gMultiInstanceMode st"
  shows "abs_server (fold serve reqs st) = fold spec_serve reqs (abs_server st) \<and> tables_ok (fold serve reqs st)"
  using assms by (induction reqs arbitrary: st) (simp_all add: refine_serve)

lemma cidr_find_set: "cidr_invar es \<Longrightarrow> (\<exists>k. cidr_find es k = Some e) \<longleftrightarrow> e \<in> set es"
  using cidrs.entries_lookup [of es e] cidrs.lookup_key [of es _ e] by (auto simp: cidr_entries_def)

lemma auth_by_spec:
  assumes "tables_ok st" "ParseIP (req_PathValue r ''ip'') = Some a"
    and "\<forall>k e. bl_nets (abs_server st) k = Some e \<longrightarrow> \<not> expired (clk 1) (ce_Expiration e)"
  shows "status_code (fst (handleAuth clk r st)) =
    (if spec_blocked (clk 0) (req_PathValue r ''ip'') a (abs_server st) then 403 else 200)"
proof -
  have inv: "cidr_invar (cidrTable st)" using assms(1) by (simp add: tables_ok_def)
  have "\<forall>e \<in> set (cidrTable st). \<not> expired (clk 1) (ce_Expiration e)"
    using assms(3) by (auto simp: abs_server_def simp flip: cidr_find_set [OF inv])
  note blk = blocked_by_all_live [OF this assms(2), of "clk 0"]
  have "(\<exists>e \<in> set (cidrTable st). Contains (ce_Net e) a) \<longleftrightarrow> (\<exists>k e. cidr_find (cidrTable st) k = Some e \<and> Contains (ce_Net e) a)"
    using cidr_find_set [OF inv] by metis
  with blk have "blocked_by (clk 0) (clk 1) (req_PathValue r ''ip'') st \<noteq> None \<longleftrightarrow>
      spec_blocked (clk 0) (req_PathValue r ''ip'') a (abs_server st)"
    by (auto simp: spec_blocked_def abs_server_def live_ip_Some)
  moreover have "IsValidIP (req_PathValue r ''ip'')" using assms(2) by (simp add: IsValidIP_Some)
  ultimately show ?thesis by (simp add: status_handleAuth)
qed


definition sample_block :: http_request where
  "sample_block = \<lparr>hr_Method = ''PUT'', hr_Path = [''block'', ''192.0.2.1''], hr_Query = []\<rparr>"

lemma sample_block_spec:
  "spec_request clk sample_block b =
     b\<lparr>bl_ips := (bl_ips b)(''192.0.2.1'' \<mapsto> put_entry ''192.0.2.1'' (put_defaults (clk 0)) (spec_first_seen clk ''192.0.2.1'' b))\<rparr>"
proof -
  have "put_params (clk 0) [] = Inr (put_defaults (clk 0))"
    by (simp add: put_params_def put_names_def allowedPutParams_def query_get_def
        put_texts_def put_last_seen_def put_duration_def put_expiration_def Let_def)
  moreover have "IsValidIP ''192.0.2.1''" using sample_put_facts(2) by (simp add: IsValidIP_def)
  ultimately show ?thesis by (simp add: spec_request_def sample_block_def RegisterWriteHandler_def)
qed


section \<open>Expired networks\<close>

text \<open>C40: An expired network hides the live networks behind it. The scan of the network table stops
  at the first network that contains the address; if that one has expired, \<open>/auth\<close> allows the
  address (200) although another, live network of the table contains it, and starts the removal of
  the expired network in the background. As soon as that removal has run, the same request
  is forbidden (403).\<close>

theorem expired_network_hides_live:
  assumes "tables_ok st" "\<not> gMultiInstanceMode st" "ParseIP (req_PathValue r ''ip'') = Some a"
    and "ip_get (ipTable st) (req_PathValue r ''ip'') = None"
    and "find (\<lambda>e. Contains (ce_Net e) a) (cidrTable st) = Some e" "expired (clk 1) (ce_Expiration e)"
    and "live \<in> set (cidrTable st)" "live \<noteq> e" "Contains (ce_Net live) a"
    and "\<forall>e' \<in> set (cidrTable st). e' \<noteq> e \<longrightarrow> \<not> expired (clk' 1) (ce_Expiration e')"
  shows "status_code (fst (handleAuth clk r st)) = 200 \<and>
    DeleteExpiredCIDR (ce_CIDR e) \<in> set (goroutines (snd (handleAuth clk r st))) \<and>
    status_code (fst (handleAuth clk' r (deleteExpiredCIDR (ce_CIDR e) st))) = 403"
proof -
  let ?ip = "req_PathValue r ''ip''" and ?st = "deleteExpiredCIDR (ce_CIDR e) st"
  have valid: "IsValidIP ?ip" using assms(3) by (simp add: IsValidIP_Some)
  have inv: "cidr_invar (cidrTable st)" using assms(1) by (simp add: tables_ok_def)
  have "blocked_by (clk 0) (clk 1) ?ip st = None"
    using assms(3-6) by (simp add: blocked_by_def live_ip_def live_cidr_def)
  moreover have "DeleteExpiredCIDR (ce_CIDR e) \<in> set (goroutines (snd (handleAuth clk r st)))"
    using assms(3-6) IsValidIP_nonempty [OF valid] valid
    by (simp add: handleAuth_def Let_def case_prod_unfold ipTableLookup_def cidr_lookup_find spawn_def)
  moreover have "set (cidrTable ?st) = set (cidrTable st) - {e}"
  proof -
    have "e \<in> set (cidrTable st)" using assms(5) findSomeD by fast
    then have "e' \<in> set (cidrTable ?st) \<longleftrightarrow> e' \<in> set (cidrTable st) \<and> e' \<noteq> e" for e'
      using assms(2) inv cidrs.entries_lookup [of "cidrTable st"] cidrs.entries_lookup [OF cidrs.invar_del [OF inv], of e' "ce_CIDR e"]
      by (auto simp: deleteExpiredCIDR_simps cidr_entries_def cidrs.lookup_del split: if_splits)
    then show ?thesis by blast
  qed
  then have "blocked_by (clk' 0) (clk' 1) ?ip ?st \<noteq> None"
    using blocked_by_all_live [of ?st "clk' 1" ?ip a "clk' 0"] assms(3,7-10) by auto
  ultimately show ?thesis using valid by (simp add: status_handleAuth)
qed

definition sample_network :: "string \<Rightarrow> byte list \<Rightarrow> int64 \<Rightarrow> CIDREntry" where
  "sample_network cidr netmask expiration =
     \<lparr>ce_CIDR = cidr, ce_Net = \<lparr>net_ip = [192, 0, 0, 0], net_mask = netmask\<rparr>, ce_Source = ''openbl'', ce_Scenario = [],
      ce_Action = ''ban'', ce_ReturnCode = 0x7F000002, ce_FirstSeen = 1, ce_LastSeen = 1, ce_Expiration = expiration\<rparr>"

definition sample_networks :: server where
  "sample_networks = (initial_server False)\<lparr>cidrTable :=
     [sample_network ''192.0.0.0/16'' [255, 255, 0, 0] 50, sample_network ''192.0.0.0/8'' [255, 0, 0, 0] 0]\<rparr>"

theorem expired_network_hides_live_witness:
  "status_code (fst (handleAuth (\<lambda>_. 100) sample_put sample_networks)) = 200 \<and>
   status_code (fst (handleAuth (\<lambda>_. 101) sample_put (deleteExpiredCIDR ''192.0.0.0/16'' sample_networks))) = 403"
proof -
  let ?e = "sample_network ''192.0.0.0/16'' [255, 255, 0, 0] 50" and ?live = "sample_network ''192.0.0.0/8'' [255, 0, 0, 0] 0"
  let ?a = "v4InV6Prefix @ [192, 0, 2, 1] :: byte list"
  have tab: "cidrTable sample_networks = [?e, ?live]" "ipTable sample_networks = []" "\<not> gMultiInstanceMode sample_networks"
    by (simp_all add: sample_networks_def)
  have c: "Contains (ce_Net ?e) ?a" "Contains (ce_Net ?live) ?a" by code_simp+
  have f: "ce_CIDR ?e = ''192.0.0.0/16''" "ce_CIDR ?live = ''192.0.0.0/8''" "ce_Expiration ?e = 50" "ce_Expiration ?live = 0"
    by (simp_all add: sample_network_def)
  then have "?live \<noteq> ?e" by (metis zero_neq_numeral)
  moreover have "tables_ok sample_networks" using tab f by (simp add: tables_ok_def cidr_invar_def)
  ultimately show ?thesis
    using expired_network_hides_live [of sample_networks sample_put ?a ?e "\<lambda>_. 100" ?live "\<lambda>_. 101"] tab c f sample_put_facts(1,2)
    by (simp add: ip_get_def expired_def)
qed

end
