(* ===== verification/Interleaving.thy ===== *)
theory Interleaving
  imports System Dns CrowdSec EtcdProps "HOL-Library.Multiset"
begin

text \<open>
  The process with all its goroutines, which take steps in any order: requests to both HTTP
  listeners and to the DNS server, the removals that a lookup of an expired entry starts in
  the background, the expiration worker (which first collects keys and then removes them one
  by one), the replies of the CrowdSec poll and the lines of both etcd watches. A step is one
  handler, one background removal or one item of a worker.
\<close>

section \<open>All goroutines at once\<close>

text \<open>The state of the process: the server, the progress of the expiration worker (the time of
  its tick while it has not yet collected the networks, and the keys left to remove), and
  whether the CrowdSec bouncer still waits for its first reply.\<close>

record service =
  srv :: server
  w_tick :: "int64 option"
  w_ips :: "string list"
  w_cidrs :: "string list"
  cs_startup :: bool

datatype 'rr label =
    HttpRequest bool "nat \<Rightarrow> int64" http_request
  | DnsQuery "'rr dns_lib" int64 "'rr dns_msg"
  | RunTask task
  | TickStart int64
  | TickIP string
  | TickNetworks
  | TickCIDR string
  | CrowdSecReply "nat \<Rightarrow> nat \<Rightarrow> int" "csDecisionStream option"
  | WatchLine string
  | CIDRWatchLine string

definition run_task :: "task \<Rightarrow> server \<Rightarrow> server" where
  "run_task t st = (case t of DeleteExpiredIP ip \<Rightarrow> deleteExpiredIP ip st | DeleteExpiredCIDR c \<Rightarrow> deleteExpiredCIDR c st)"

text \<open>Go ranges over the entries of the map in any order, so the keys are collected in any order.
  The watchers run in multi-instance mode only.\<close>

inductive service_step :: "service \<Rightarrow> 'rr label \<Rightarrow> service \<Rightarrow> bool" where
  step_http: "service_step s (HttpRequest api clk hr) (s\<lparr>srv := serve (api, clk, hr) (srv s)\<rparr>)"
| step_dns: "handleDNSRequest lib now r (srv s) = Some (reply, st) \<Longrightarrow> service_step s (DnsQuery lib now r) (s\<lparr>srv := st\<rparr>)"
| step_task: "goroutines (srv s) = ts @ t # us \<Longrightarrow>
    service_step s (RunTask t) (s\<lparr>srv := run_task t ((srv s)\<lparr>goroutines := ts @ us\<rparr>)\<rparr>)"
| step_tick: "w_tick s = None \<Longrightarrow> w_ips s = [] \<Longrightarrow> w_cidrs s = [] \<Longrightarrow> mset ips = mset (expiredIPs now (srv s)) \<Longrightarrow>
    service_step s (TickStart now) (s\<lparr>w_tick := Some now, w_ips := ips\<rparr>)"
| step_ip: "w_ips s = ip # ips \<Longrightarrow> service_step s (TickIP ip) (s\<lparr>srv := expireIP ip (srv s), w_ips := ips\<rparr>)"
| step_networks: "w_tick s = Some now \<Longrightarrow> w_ips s = [] \<Longrightarrow>
    service_step s TickNetworks (s\<lparr>w_tick := None, w_cidrs := expiredCIDRs now (srv s)\<rparr>)"
| step_cidr: "w_cidrs s = c # cs \<Longrightarrow> service_step s (TickCIDR c) (s\<lparr>srv := expireCIDR c (srv s), w_cidrs := cs\<rparr>)"
| step_crowdsec: "crowdSecRound clk reply (cs_startup s, srv s) = (b, st) \<Longrightarrow>
    service_step s (CrowdSecReply clk reply) (s\<lparr>srv := st, cs_startup := b\<rparr>)"
| step_watch: "gMultiInstanceMode (srv s) \<Longrightarrow> service_step s (WatchLine l) (s\<lparr>srv := watch_line l (srv s)\<rparr>)"
| step_cidr_watch: "gMultiInstanceMode (srv s) \<Longrightarrow> service_step s (CIDRWatchLine l) (s\<lparr>srv := cidr_watch_line l (srv s)\<rparr>)"

inductive service_run :: "service \<Rightarrow> 'rr label list \<Rightarrow> service \<Rightarrow> bool" where
  run_none: "service_run s [] s"
| run_step: "service_step s l s' \<Longrightarrow> service_run s' ls s'' \<Longrightarrow> service_run s (l # ls) s''"

inductive_cases service_stepE: "service_step s l s'"
inductive_cases service_runE: "service_run s ls s'"

inductive_simps service_run_simps [simp]: "service_run s [] s'" "service_run s (l # ls) s'"
inductive_simps service_step_simps:
  "service_step s (HttpRequest api clk hr) s'" "service_step s (RunTask t) s'"

section \<open>What keeps the invariant\<close>

lemma tables_ok_goroutines [simp]: "tables_ok (st\<lparr>goroutines := ts\<rparr>) \<longleftrightarrow> tables_ok st"
  by (simp add: tables_ok_def)

lemma tables_ok_cong: "ipTable st' = ipTable st \<Longrightarrow> cidrTable st' = cidrTable st \<Longrightarrow> tables_ok st' \<longleftrightarrow> tables_ok st"
  by (simp add: tables_ok_def)

lemma tables_ok_removals:
  assumes "tables_ok st"
  shows "tables_ok (run_task t st)" "tables_ok (expireIP ip st)" "tables_ok (expireCIDR c st)"
  using assms
  by (auto simp: tables_ok_def run_task_def deleteExpiredIP_simps deleteExpiredCIDR_simps expireIP_simps expireCIDR_simps
      ips.invar_del cidrs.invar_del split: task.splits)

lemma mode_removals:
  "gMultiInstanceMode (run_task t st) = gMultiInstanceMode st" "gMultiInstanceMode (expireIP ip st) = gMultiInstanceMode st"
  "gMultiInstanceMode (expireCIDR c st) = gMultiInstanceMode st"
  by (simp_all add: run_task_def deleteExpiredIP_simps deleteExpiredCIDR_simps expireIP_def expireCIDR_def Let_def etcd_defs
      split: task.splits option.splits)

text \<open>In multi-instance mode the bouncer writes to etcd only.\<close>

definition crowdsec_multi :: "server \<Rightarrow> server \<Rightarrow> bool" where
  "crowdsec_multi st st' \<longleftrightarrow> ipTable st' = ipTable st \<and> cidrTable st' = cidrTable st \<and> gMultiInstanceMode st'"

lemma crowdsec_multi_steps:
  assumes "crowdsec_multi st s"
  shows "crowdsec_multi st (crowdSecApply clk d s)" "crowdsec_multi st (crowdSecRemove d s)"
    "crowdsec_multi st (reconcile_removeIP ip s)" "crowdsec_multi st (reconcile_removeCIDR c s)" "crowdsec_multi st (log_call l s)"
  using assms
  by (simp_all add: crowdsec_multi_def crowdSecApply_def crowdSecApplyIP_def crowdSecApplyCIDR_def crowdSecRemove_def
      reconcile_removeIP_def reconcile_removeCIDR_def Let_def case_prod_unfold etcd_defs split: option.splits)

interpretation crowdsec_order: step_order "\<lambda>s s'. crowdsec_multi st s \<longrightarrow> crowdsec_multi st s'" for st
  by unfold_locales simp_all

lemma crowdsec_multi_folds:
  assumes "crowdsec_multi st s"
  shows "crowdsec_multi st (apply_all clk i ds s)" "crowdsec_multi st (fold crowdSecRemove ds s)"
    "crowdsec_multi st (fold reconcile_removeIP ks s)" "crowdsec_multi st (fold reconcile_removeCIDR ks s)"
proof -
  show "crowdsec_multi st (apply_all clk i ds s)"
    using assms by (induction clk i ds s rule: apply_all.induct) (simp_all add: crowdsec_multi_steps)
  show "crowdsec_multi st (fold crowdSecRemove ds s)" "crowdsec_multi st (fold reconcile_removeIP ks s)"
    "crowdsec_multi st (fold reconcile_removeCIDR ks s)"
    using crowdsec_order.fold_ordered [where f = crowdSecRemove] crowdsec_order.fold_ordered [where f = reconcile_removeIP]
      crowdsec_order.fold_ordered [where f = reconcile_removeCIDR] assms
    by (simp_all add: crowdsec_multi_steps)
qed

lemma crowdSecRound_multi:
  assumes "gMultiInstanceMode st" "crowdSecRound clk reply (b, st) = (b', st')"
  shows "crowdsec_multi st st'"
proof -
  have "crowdsec_multi st st" using assms(1) by (simp add: crowdsec_multi_def)
  then show ?thesis
    using assms(2)
    by (auto simp: crowdSecRound_def crowdSecReconcile_def Let_def crowdsec_multi_steps crowdsec_multi_folds
        split: option.splits if_splits)
qed

text \<open>In single-instance mode it changes only the keys of its decisions and, at the first reply,
  the entries that came from CrowdSec.\<close>

definition reply_keys :: "csDecisionStream option \<Rightarrow> string set" where
  "reply_keys reply = (case reply of None \<Rightarrow> {} | Some stream \<Rightarrow> ip_keys (cs_New stream) \<union> ip_keys (cs_Deleted stream))"

lemma crowdSecRound_single:
  assumes "tables_ok st" "\<not> gMultiInstanceMode st" "crowdSecRound clk reply (b, st) = (b', st')"
  shows "tables_ok st' \<and> \<not> gMultiInstanceMode st' \<and>
    (ip_get (ipTable st) k = Some e \<longrightarrow> \<not> has_prefix (be_Source e) ''crowdsec'' \<longrightarrow> k \<notin> reply_keys reply \<longrightarrow>
       ip_get (ipTable st') k = Some e)"
proof (cases reply)
  case None
  with assms show ?thesis by (auto simp: crowdSecRound_def tables_ok_def)
next
  case (Some stream)
  note purge = purge_stale_effect [OF assms(1,2), of "csValues (cs_New stream)"]
  note reconcile = apply_all_effect [OF purge(1,2), of clk 0 "cs_New stream" k]
  note apply_new = apply_all_effect [OF assms(1,2), of clk 0 "cs_New stream" k]
  note remove = fold_crowdSecRemove_effect [of "apply_all clk 0 (cs_New stream) st" "cs_Deleted stream" k]
  show ?thesis
  proof (cases b)
    case True
    with Some assms(3) have "st' = crowdSecReconcile clk stream st" by (simp add: crowdSecRound_def)
    with reconcile purge(3) [of k] Some show ?thesis
      by (auto simp: crowdSecReconcile_purge reply_keys_def tables_ok_def)
  next
    case False
    with Some assms(3) have "st' = fold crowdSecRemove (cs_Deleted stream) (apply_all clk 0 (cs_New stream) st)"
      by (simp add: crowdSecRound_def)
    with apply_new remove Some show ?thesis by (simp add: reply_keys_def)
  qed
qed

text \<open>The background removals of an address that are waiting to run.\<close>

definition pending :: "string \<Rightarrow> server \<Rightarrow> bool" where
  "pending k st \<longleftrightarrow> DeleteExpiredIP k \<in> set (goroutines st)"

lemma pending_simps [simp]:
  "pending k (log_call l st) = pending k st" "pending k (stats_add cnt d st) = pending k st"
  "pending k (send_etcd r st) = pending k st" "pending k (ipTable_store e st) = pending k st"
  "pending k (ipTable_delete ip st) = pending k st" "pending k (cidrTable_upsert ce st) = pending k st"
  "pending k (cidrTable_remove c st) = pending k st"
  by (simp_all add: pending_def)

lemma pending_lookup:
  "pending k (snd (ipTableLookup now ip st)) \<longleftrightarrow>
   pending k st \<or> ip = k \<and> (\<exists>e. ip_get (ipTable st) k = Some e \<and> expired now (be_Expiration e))"
  by (cases "ip_get (ipTable st) ip") (auto simp: pending_def)

lemma pending_cidr_lookup [simp]: "pending k (snd (cidr_lookup now ip st)) = pending k st"
  by (auto simp: pending_def cidr_lookup_find spawn_def split: option.splits)

lemma pending_etcd [simp]:
  "pending k (etcdPut key v st) = pending k st" "pending k (etcdDelete key st) = pending k st"
  "pending k (etcdPutCIDR c r st) = pending k st" "pending k (etcdDeleteCIDR c st) = pending k st"
  by (simp_all add: etcd_defs)

lemma pending_run_endpoint:
  assumes "pending k (snd (run_endpoint clk hr ep st))"
  shows "pending k st \<or> (\<exists>e n. ip_get (ipTable st) k = Some e \<and> expired (clk n) (be_Expiration e))"
  using assms
  by (auto simp: run_endpoint_def Let_def handler_unfold lookup_entry_def case_prod_unfold pending_lookup
      split: option.splits endpoint.splits sum.splits if_splits)

lemma pending_crowdsec_steps:
  "pending k (crowdSecApply clk d st) \<Longrightarrow> pending k st \<or> k \<in> ip_keys [d]"
  "pending k (crowdSecRemove d st) = pending k st"
  "pending k (reconcile_removeIP ip st) = pending k st" "pending k (reconcile_removeCIDR c st) = pending k st"
  by (auto simp: crowdSecApply_def crowdSecApplyIP_def crowdSecApplyCIDR_def crowdSecRemove_def cs_expiration_def
      reconcile_removeIP_def reconcile_removeCIDR_def Let_def case_prod_unfold pending_lookup ip_keys_def is_ip_decision_def
      cs_canonical_def split: option.splits if_splits)

interpretation pending_order: step_order "\<lambda>s s'. pending k s' = pending k s" for k
  by unfold_locales simp_all

lemma pending_folds:
  "pending k (apply_all clk i ds st) \<Longrightarrow> pending k st \<or> k \<in> ip_keys ds"
  "pending k (fold crowdSecRemove ds st) = pending k st"
  "pending k (fold reconcile_removeIP ks st) = pending k st" "pending k (fold reconcile_removeCIDR ks st) = pending k st"
proof -
  show "pending k (apply_all clk i ds st) \<Longrightarrow> pending k st \<or> k \<in> ip_keys ds"
    by (induction clk i ds st rule: apply_all.induct) (auto simp: keys_Cons dest: pending_crowdsec_steps(1))
  show "pending k (fold crowdSecRemove ds st) = pending k st" "pending k (fold reconcile_removeIP ks st) = pending k st"
    "pending k (fold reconcile_removeCIDR ks st) = pending k st"
    by (rule pending_order.fold_ordered, simp add: pending_crowdsec_steps)+
qed

lemma pending_crowdSecRound:
  assumes "crowdSecRound clk reply (b, st) = (b', st')" "pending k st'"
  shows "pending k st \<or> k \<in> reply_keys reply"
  using assms
  by (auto simp: crowdSecRound_def crowdSecReconcile_def Let_def reply_keys_def pending_folds(2-4)
      split: option.splits if_splits dest!: pending_folds(1))

lemma pending_dns_cases:
  "dns_rbl_case lib now qname msg st = Some (msg', status, st') \<Longrightarrow> \<exists>ip. pending k st' \<longrightarrow> pending k st \<or> pending k (snd (ipTableLookup now ip st))"
  "dns_ptr_case lib now qname msg st = (msg', status, st') \<Longrightarrow> \<exists>ip. pending k st' \<longrightarrow> pending k st \<or> pending k (snd (ipTableLookup now ip st))"
  by (auto simp: dns_rbl_case_def dns_ptr_case_def Let_def split: option.splits if_splits prod.splits) (metis snd_conv)+

lemma pending_dns:
  assumes "handleDNSRequest lib now r st = Some (reply, st')" "pending k st'"
  shows "pending k st \<or> (\<exists>e. ip_get (ipTable st) k = Some e \<and> expired now (be_Expiration e))"
proof (cases "msg_Question r")
  case Nil
  with assms show ?thesis by (auto simp: handleDNSRequest_def)
next
  case (Cons q qs)
  let ?st = "if qs \<noteq> [] then
      log_call (LogMsg LOG_ERROR ''[DNS Query]: Unexpected multiple questions (%d), using first'') st else st"
  let ?msg = "(SetReply lib r)\<lparr>msg_Authoritative := True\<rparr>"
  from assms(1) Cons obtain status st1 where st': "st' = log_call (LogDnsReq status) st1" and
    "dns_rbl_case lib now (q_Name q) ?msg ?st = Some (reply, status, st1) \<or>
     dns_ptr_case lib now (q_Name q) ?msg ?st = (reply, status, st1) \<or> st1 = stats_add ReqDnsOtherQueryType 1 ?st"
    by (auto simp: handleDNSRequest_def Let_def split: if_splits)
  then obtain ip where "pending k ?st \<or> pending k (snd (ipTableLookup now ip ?st))"
    using assms(2) pending_dns_cases [of lib now "q_Name q" ?msg ?st reply status st1 k] by auto
  then show ?thesis by (auto simp: pending_lookup split: if_splits)
qed

interpretation mode_order: step_order "\<lambda>s s'. gMultiInstanceMode s' = gMultiInstanceMode s"
  by unfold_locales simp_all

lemma mode_watch_lines:
  "gMultiInstanceMode (watch_line l st) = gMultiInstanceMode st" "gMultiInstanceMode (cidr_watch_line l st) = gMultiInstanceMode st"
proof -
  have ev: "gMultiInstanceMode (watch_event ev st) = gMultiInstanceMode st"
    "gMultiInstanceMode (cidr_watch_event ev st) = gMultiInstanceMode st"
    "gMultiInstanceMode (watch_revision r st) = gMultiInstanceMode st"
    "gMultiInstanceMode (updateRevision n st) = gMultiInstanceMode st" for ev r n and st :: server
    by (simp_all add: watch_event_def cidr_watch_event_def watch_revision_def updateRevision_def Let_def case_prod_unfold
        split: option.splits)
  have folds: "gMultiInstanceMode (fold watch_event evs st) = gMultiInstanceMode st"
    "gMultiInstanceMode (fold cidr_watch_event evs st) = gMultiInstanceMode st" for evs and st :: server
    by (rule mode_order.fold_ordered, simp add: ev)+
  show "gMultiInstanceMode (watch_line l st) = gMultiInstanceMode st" "gMultiInstanceMode (cidr_watch_line l st) = gMultiInstanceMode st"
    by (simp_all add: watch_line_def cidr_watch_line_def Let_def case_prod_unfold ev folds)
qed

lemma serve_keeps:
  "tables_ok st \<Longrightarrow> tables_ok (serve req st)" "gMultiInstanceMode (serve req st) = gMultiInstanceMode st"
  by (simp_all add: serve_def apiListener_def lookupListener_def tables_ok_run_endpoint multi_run_endpoint split: prod.splits)

lemma step_keeps_tables:
  assumes "service_step s l s'" "tables_ok (srv s)"
  shows "tables_ok (srv s') \<and> gMultiInstanceMode (srv s') = gMultiInstanceMode (srv s)"
  using assms
proof (cases rule: service_step.cases)
  case (step_dns lib now r reply st)
  with handleDNSRequest_step [OF step_dns(3)] assms(2) show ?thesis by (simp add: dns_step_def tables_ok_def)
next
  case (step_crowdsec clk reply b st)
  show ?thesis
  proof (cases "gMultiInstanceMode (srv s)")
    case True
    with crowdSecRound_multi [OF True step_crowdsec(3)] step_crowdsec assms(2) show ?thesis
      by (simp add: crowdsec_multi_def tables_ok_def)
  next
    case False
    with crowdSecRound_single [OF assms(2) False step_crowdsec(3)] step_crowdsec show ?thesis by simp
  qed
qed (use watch_inv_line in \<open>simp_all add: serve_keeps tables_ok_removals mode_removals mode_watch_lines watch_inv_def\<close>)

text \<open>C16: No interleaving breaks the tables. In every mode, for every sequence of HTTP and DNS
  requests, background removals, steps of the expiration worker, CrowdSec replies and lines
  from the etcd watches, in any order, the address table keeps one entry per key, each under
  its own key, the network table keeps one entry per network, and the mode stays.\<close>

theorem service_keeps_tables_ok:
  assumes "service_run s ls s'" "tables_ok (srv s)"
  shows "tables_ok (srv s') \<and> gMultiInstanceMode (srv s') = gMultiInstanceMode (srv s)"
  using assms by (induction rule: service_run.induct) (auto dest: step_keeps_tables)

definition sample_service :: "bool \<Rightarrow> service" where
  "sample_service multi = \<lparr>srv = initial_server multi, w_tick = None, w_ips = [], w_cidrs = [], cs_startup = True\<rparr>"

theorem service_keeps_tables_ok_witness:
  "\<exists>s' :: service. service_run (sample_service True) [WatchLine ''{}'', HttpRequest True (\<lambda>_. 0) sample_block :: unit label] s' \<and>
     tables_ok (srv s')"
proof -
  let ?s = "(sample_service True)\<lparr>srv := watch_line ''{}'' (initial_server True)\<rparr>"
  let ?s' = "?s\<lparr>srv := serve (True, \<lambda>_. 0, sample_block) (srv ?s)\<rparr>"
  have r: "service_run (sample_service True) [WatchLine ''{}'', HttpRequest True (\<lambda>_. 0) sample_block :: unit label] ?s'"
    using step_watch [of "sample_service True" "''{}''"] step_http [of ?s True "\<lambda>_. 0" sample_block]
    by (auto simp: sample_service_def)
  have "tables_ok (srv (sample_service True))" by (simp add: sample_service_def tables_ok_def)
  with service_keeps_tables_ok [OF r] r show ?thesis by blast
qed

section \<open>When a block survives\<close>

definition holds :: "string \<Rightarrow> BlockEntry \<Rightarrow> service \<Rightarrow> bool" where
  "holds k e s \<longleftrightarrow> tables_ok (srv s) \<and> \<not> gMultiInstanceMode (srv s) \<and> ip_get (ipTable (srv s)) k = Some e \<and>
     \<not> pending k (srv s) \<and> k \<notin> set (w_ips s)"

text \<open>A step that concerns the address \<open>k\<close>: a write to it, a CrowdSec decision about it, or a
  reading of the clock at which its entry has expired.\<close>

fun concerns :: "string \<Rightarrow> BlockEntry \<Rightarrow> 'rr label \<Rightarrow> bool" where
  "concerns k e (HttpRequest api clk hr) \<longleftrightarrow>
     (\<exists>n. expired (clk n) (be_Expiration e)) \<or> (api \<and> hr_Method hr \<in> {''PUT'', ''DELETE''} \<and> hr_Path hr = [''block'', k])"
| "concerns k e (DnsQuery lib now r) \<longleftrightarrow> expired now (be_Expiration e)"
| "concerns k e (TickStart now) \<longleftrightarrow> expired now (be_Expiration e)"
| "concerns k e (CrowdSecReply clk reply) \<longleftrightarrow> k \<in> reply_keys reply"
| "concerns k e _ \<longleftrightarrow> False"

lemma serve_other_key:
  assumes "tables_ok st" "\<not> gMultiInstanceMode st" "\<not> (api \<and> hr_Method hr \<in> {''PUT'', ''DELETE''} \<and> hr_Path hr = [''block'', k])"
  shows "ip_get (ipTable (serve (api, clk, hr) st)) k = ip_get (ipTable st) k"
proof -
  have "bl_ips (spec_serve (api, clk, hr) b) k = bl_ips b k" for b
    using assms(3)
    by (auto simp: spec_serve_def spec_request_def RegisterWriteHandler_def Let_def
        split: list.splits if_splits option.splits sum.splits endpoint.splits)
  moreover have "bl_ips (abs_server st) = ip_get (ipTable st)" for st by (simp add: abs_server_def)
  ultimately show ?thesis using refine_serve(1) [OF assms(1,2), of "(api, clk, hr)"] by metis
qed

lemma pending_serve:
  "pending k (serve (api, clk, hr) st) \<Longrightarrow>
   pending k st \<or> (\<exists>e n. ip_get (ipTable st) k = Some e \<and> expired (clk n) (be_Expiration e))"
  by (auto simp: serve_def apiListener_def lookupListener_def split: if_splits dest!: pending_run_endpoint)

lemma expiredIPs_live:
  assumes "tables_ok st" "ip_get (ipTable st) k = Some e" "\<not> expired now (be_Expiration e)"
  shows "k \<notin> set (expiredIPs now st)"
proof
  assume "k \<in> set (expiredIPs now st)"
  then obtain e' where "(k, e') \<in> set (ipTable st)" "expired now (be_Expiration e')"
    by (auto simp: expiredIPs_def expired_def)
  moreover have "distinct (map fst (ipTable st))" using assms(1) by (simp add: tables_ok_def ip_invar_def)
  ultimately have "ip_get (ipTable st) k = Some e'" by (simp add: ip_get_def)
  with assms(2,3) \<open>expired now (be_Expiration e')\<close> show False by simp
qed

lemma removal_other_key:
  assumes "tables_ok st" "t \<noteq> DeleteExpiredIP k" "ip \<noteq> k"
  shows "ip_get (ipTable (run_task t st)) k = ip_get (ipTable st) k" "ip_get (ipTable (expireIP ip st)) k = ip_get (ipTable st) k"
    "ip_get (ipTable (expireCIDR c st)) k = ip_get (ipTable st) k"
  using assms
  by (auto simp: run_task_def deleteExpiredIP_simps deleteExpiredCIDR_simps expireIP_simps expireCIDR_simps tables_ok_def
      ips.lookup_del split: task.splits)

lemma pending_removals:
  "pending k (run_task t st) = pending k st" "pending k (expireIP ip st) = pending k st" "pending k (expireCIDR c st) = pending k st"
  by (auto simp: run_task_def deleteExpiredIP_def deleteExpiredCIDR_def expireIP_def expireCIDR_def Let_def
      split: task.splits option.splits)

lemma pending_taken: "goroutines st = ts @ t # us \<Longrightarrow> \<not> pending k st \<Longrightarrow> t \<noteq> DeleteExpiredIP k \<and> \<not> pending k (st\<lparr>goroutines := ts @ us\<rparr>)"
  by (auto simp: pending_def)

lemma holds_step:
  assumes "service_step s l s'" "holds k e s" "\<not> has_prefix (be_Source e) ''crowdsec''" "\<not> concerns k e l"
  shows "holds k e s'"
proof -
  have h: "tables_ok (srv s)" "\<not> gMultiInstanceMode (srv s)" "ip_get (ipTable (srv s)) k = Some e"
    "\<not> pending k (srv s)" "k \<notin> set (w_ips s)"
    using assms(2) by (simp_all add: holds_def)
  have keep: "tables_ok (srv s')" "\<not> gMultiInstanceMode (srv s')" using step_keeps_tables [OF assms(1) h(1)] h(2) by simp_all
  have "ip_get (ipTable (srv s')) k = Some e \<and> \<not> pending k (srv s') \<and> k \<notin> set (w_ips s')"
    using assms(1)
  proof (cases rule: service_step.cases)
    case (step_http api clk hr)
    then show ?thesis
      using assms(4) h serve_other_key [OF h(1,2), of api hr k clk] pending_serve [of k api clk hr "srv s"] by auto
  next
    case (step_dns lib now r reply st)
    then show ?thesis
      using assms(4) h handleDNSRequest_step [OF step_dns(3)] pending_dns [OF step_dns(3), of k] by (auto simp: dns_step_def)
  next
    case (step_task ts t us)
    let ?st = "(srv s)\<lparr>goroutines := ts @ us\<rparr>"
    have t: "t \<noteq> DeleteExpiredIP k" "\<not> pending k ?st" using pending_taken [OF step_task(3) h(4)] by simp_all
    then show ?thesis
      using step_task h removal_other_key(1) [of ?st t k "k @ ''x''"] by (simp add: pending_removals)
  next
    case (step_tick ips now)
    have "k \<notin> set (expiredIPs now (srv s))" using expiredIPs_live [OF h(1,3)] assms(4) step_tick(1) by simp
    then have "k \<notin> set ips" using step_tick(6) by (metis set_mset_mset)
    with step_tick h show ?thesis by simp
  next
    case (step_ip ip ips)
    with h removal_other_key(2) [OF h(1), of "DeleteExpiredCIDR []" k ip] show ?thesis by (auto simp: pending_removals)
  next
    case (step_cidr c cs)
    with h removal_other_key(3) [OF h(1), of "DeleteExpiredCIDR []" k "k @ ''x''"] show ?thesis by (simp add: pending_removals)
  next
    case (step_crowdsec clk reply b st)
    then show ?thesis
      using assms(3,4) h crowdSecRound_single [OF h(1,2) step_crowdsec(3)] pending_crowdSecRound [OF step_crowdsec(3), of k] by auto
  qed (use h in simp_all)
  with keep show ?thesis by (simp add: holds_def)
qed

text \<open>C2: A block disappears only for a reason. In single-instance mode, take an entry that did
  not come from CrowdSec and of which no removal is under way. Whatever else happens, in any
  order: as long as nobody writes to that very address, CrowdSec sends no decision about it, and
  no clock is read at which the entry has expired, the entry stays in the table unchanged and
  \<open>/auth\<close> forbids the address. In particular the expiration worker and the background
  removals of other addresses never take it away.\<close>

theorem block_survives:
  assumes "service_run s ls s'" "holds k e s" "\<not> has_prefix (be_Source e) ''crowdsec''" "\<forall>l \<in> set ls. \<not> concerns k e l"
  shows "ip_get (ipTable (srv s')) k = Some e \<and>
    (\<forall>clk r. req_PathValue r ''ip'' = k \<and> IsValidIP k \<and> \<not> expired (clk 0) (be_Expiration e) \<longrightarrow>
      status_code (fst (handleAuth clk r (srv s'))) = 403)"
proof -
  have "holds k e s'"
    using assms by (induction rule: service_run.induct) (auto dest: holds_step)
  then have "ip_get (ipTable (srv s')) k = Some e" by (simp add: holds_def)
  then show ?thesis by (simp add: status_handleAuth blocked_by_def live_ip_def)
qed

definition sample_held :: service where
  "sample_held = (sample_service False)\<lparr>srv := ipTable_store (sample_entry ''192.0.2.1'' 0) (initial_server False)\<rparr>"

theorem block_survives_witness:
  "\<exists>s'. service_run sample_held [TickStart 90, HttpRequest False (\<lambda>_. 95)
      \<lparr>hr_Method = ''GET'', hr_Path = [''auth'', ''192.0.2.1''], hr_Query = []\<rparr> :: unit label] s' \<and>
    ip_get (ipTable (srv s')) ''192.0.2.1'' = Some (sample_entry ''192.0.2.1'' 0)"
proof -
  let ?e = "sample_entry ''192.0.2.1'' 0" and ?hr = "\<lparr>hr_Method = ''GET'', hr_Path = [''auth'', ''192.0.2.1''], hr_Query = []\<rparr>"
  let ?s = "sample_held\<lparr>w_tick := Some 90, w_ips := []\<rparr>"
  let ?s' = "?s\<lparr>srv := serve (False, \<lambda>_. 95, ?hr) (srv ?s)\<rparr>"
  have e: "be_Expiration ?e = 0" "be_IP ?e = ''192.0.2.1''" "\<not> has_prefix (be_Source ?e) ''crowdsec''"
    by (simp_all add: sample_entry_def has_prefix_def)
  have srv: "srv sample_held = ipTable_store ?e (initial_server False)" "w_tick sample_held = None" "w_ips sample_held = []"
      "w_cidrs sample_held = []" by (simp_all add: sample_held_def sample_service_def)
  have tick: "service_step sample_held (TickStart 90 :: unit label) ?s"
    by (rule step_tick) (simp_all add: srv expiredIPs_def ip_put_def e)
  then have r: "service_run sample_held [TickStart 90, HttpRequest False (\<lambda>_. 95) ?hr :: unit label] ?s'"
    using step_http [of ?s False "\<lambda>_. 95" ?hr] by auto
  have "holds ''192.0.2.1'' ?e sample_held"
    using ips.lookup_put_same [of "[]" ?e] ips.invar_put [of "[]" ?e] by (simp add: holds_def srv e tables_ok_def pending_def)
  from block_survives [OF r this e(3)] r e(1) show ?thesis by (auto simp: expired_def)
qed

section \<open>Blocking an expired address again\<close>

text \<open>C35: Blocking an address again after its entry has expired can be lost. If an address is
  still in the table with an expired entry, an accepted \<open>PUT\<close> (answered with 200) stores the
  new entry, but the lookup it makes of the old entry has already started a background removal
  by address. When that removal runs, it deletes the new entry: the address is not in the table
  any more, and the last two requests to etcd delete the two records that the \<open>PUT\<close> has
  just written.\<close>

theorem reblocking_expired_is_lost:
  assumes "tables_ok (srv s)" "\<not> gMultiInstanceMode (srv s)"
    and "ip_get (ipTable (srv s)) k = Some e" "expired (clk 1) (be_Expiration e)"
    and "ParseIP k = Some a" "put_params (clk 0) q = Inr f"
    and hr: "hr = \<lparr>hr_Method = ''PUT'', hr_Path = [''block'', k], hr_Query = q\<rparr>"
  shows "status_code (fst (apiListener clk hr (srv s))) = 200 \<and>
    ip_get (ipTable (snd (apiListener clk hr (srv s)))) k \<noteq> None \<and>
    (\<exists>s'. service_run s [HttpRequest True clk hr, RunTask (DeleteExpiredIP k) :: 'rr label] s' \<and>
      ip_get (ipTable (srv s')) k = None \<and>
      (\<exists>earlier. etcd_requests (srv s') = earlier @
         map (\<lambda>key. EtcdRequest ''/v3/kv/deleterange'' (JObj [(''key'', JStr (b64 key))])) [rblKey a, reverseKey a]))"
proof -
  let ?r = "path_request ''PUT'' [(''ip'', k)] q"
  have api: "apiListener clk hr (srv s) = handlePut clk ?r (srv s)"
    by (simp add: hr apiListener_def RegisterReadHandler_def RegisterWriteHandler_def run_endpoint_def)
  let ?st = "snd (handlePut clk ?r (srv s))"
  note acc = handlePut_accepts [where st = "srv s" and clk = clk and r = ?r, simplified, OF assms(5,6)]
  have get: "ip_get (ipTable ?st) k \<noteq> None"
    using acc(3) assms(1,2) by (simp add: tables_ok_def ips.lookup_put put_entry_def)
  have "pending k ?st"
    using assms(3-6) by (simp add: handlePut_def Let_def case_prod_unfold pending_lookup)
  then obtain ts us where g: "goroutines ?st = ts @ DeleteExpiredIP k # us"
    unfolding pending_def by (meson split_list)
  let ?s = "s\<lparr>srv := ?st\<rparr>"
  let ?st' = "run_task (DeleteExpiredIP k) (?st\<lparr>goroutines := ts @ us\<rparr>)"
  have "service_run s [HttpRequest True clk hr, RunTask (DeleteExpiredIP k) :: 'rr label] (?s\<lparr>srv := ?st'\<rparr>)"
    using step_http [of s True clk hr] step_task [of ?s ts "DeleteExpiredIP k" us] g by (auto simp: serve_def api)
  moreover have "tables_ok ?st" "\<not> gMultiInstanceMode ?st"
    using assms(1,2) tables_ok_handlePut multi_run_endpoint [of clk hr "Some (EPut k)" "srv s"] by (auto simp: run_endpoint_def hr)
  then have "ip_get (ipTable ?st') k = None"
    using assms(5) by (simp add: run_task_def deleteExpiredIP_simps tables_ok_def ips.lookup_del)
  moreover have "etcd_requests ?st' = etcd_requests ?st @
      map (\<lambda>key. EtcdRequest ''/v3/kv/deleterange'' (JObj [(''key'', JStr (b64 key))])) [rblKey a, reverseKey a]"
    using assms(5) by (simp add: run_task_def deleteExpiredIP_def Let_def etcd_defs)
  ultimately have "service_run s [HttpRequest True clk hr, RunTask (DeleteExpiredIP k) :: 'rr label] (?s\<lparr>srv := ?st'\<rparr>) \<and>
      ip_get (ipTable (srv (?s\<lparr>srv := ?st'\<rparr>))) k = None \<and>
      (\<exists>earlier. etcd_requests (srv (?s\<lparr>srv := ?st'\<rparr>)) = earlier @
         map (\<lambda>key. EtcdRequest ''/v3/kv/deleterange'' (JObj [(''key'', JStr (b64 key))])) [rblKey a, reverseKey a])" by simp
  with acc(1) get show ?thesis unfolding api by blast
qed

theorem reblocking_expired_is_lost_witness:
  "\<exists>s s'. service_run s [HttpRequest True (\<lambda>_. 100) sample_block, RunTask (DeleteExpiredIP ''192.0.2.1'') :: unit label] s' \<and>
     status_code (fst (apiListener (\<lambda>_. 100) sample_block (srv s))) = 200 \<and> ip_get (ipTable (srv s')) ''192.0.2.1'' = None"
proof -
  let ?e = "sample_entry ''192.0.2.1'' 50" and ?s = "sample_service False"
  let ?s0 = "?s\<lparr>srv := ipTable_store (sample_entry ''192.0.2.1'' 50) (initial_server False)\<rparr>"
  have e: "be_Expiration ?e = 50" "be_IP ?e = ''192.0.2.1''" by (simp_all add: sample_entry_def)
  have t: "tables_ok (srv ?s0)" "ip_get (ipTable (srv ?s0)) ''192.0.2.1'' = Some ?e" "\<not> gMultiInstanceMode (srv ?s0)"
    using ips.lookup_put_same [of "[]" ?e] ips.invar_put [of "[]" ?e] by (simp_all add: e tables_ok_def)
  have p: "put_params 100 [] = Inr (put_defaults 100)"
    by (simp add: put_params_def put_names_def allowedPutParams_def query_get_def
        put_texts_def put_last_seen_def put_duration_def put_expiration_def Let_def)
  have "expired ((\<lambda>_. 100) (1 :: nat)) (be_Expiration ?e)" by (simp add: e expired_def)
  from reblocking_expired_is_lost [OF t(1,3,2) this sample_put_facts(2) p sample_block_def, where 'rr = unit]
  show ?thesis by blast
qed

section \<open>Expired blocks go\<close>

text \<open>The steps that may write the address \<open>k\<close>.\<close>

fun writes :: "string \<Rightarrow> 'rr label \<Rightarrow> bool" where
  "writes k (HttpRequest api clk hr) \<longleftrightarrow> api \<and> hr_Method hr \<in> {''PUT'', ''DELETE''} \<and> hr_Path hr = [''block'', k]"
| "writes k (CrowdSecReply clk reply) \<longleftrightarrow> k \<in> reply_keys reply"
| "writes k _ \<longleftrightarrow> False"

text \<open>The worker still has the address on its list, or it is gone.\<close>

definition expiring :: "string \<Rightarrow> service \<Rightarrow> bool" where
  "expiring k s \<longleftrightarrow> tables_ok (srv s) \<and> \<not> gMultiInstanceMode (srv s) \<and> w_tick s \<noteq> None \<and>
     (ip_get (ipTable (srv s)) k = None \<or> k \<in> set (w_ips s))"

lemma crowdSecRound_none:
  assumes "tables_ok st" "\<not> gMultiInstanceMode st" "crowdSecRound clk reply (b, st) = (b', st')"
    and "ip_get (ipTable st) k = None" "k \<notin> reply_keys reply"
  shows "ip_get (ipTable st') k = None"
proof (cases reply)
  case None
  with assms show ?thesis by (auto simp: crowdSecRound_def)
next
  case (Some stream)
  note purge = purge_stale_effect [OF assms(1,2), of "csValues (cs_New stream)"]
  note reconcile = apply_all_effect [OF purge(1,2), of clk 0 "cs_New stream" k]
  note apply_new = apply_all_effect [OF assms(1,2), of clk 0 "cs_New stream" k]
  note remove = fold_crowdSecRemove_effect [of "apply_all clk 0 (cs_New stream) st" "cs_Deleted stream" k]
  show ?thesis
    using Some assms(3-5) reconcile purge(3) [of k] apply_new remove
    by (cases b) (auto simp: crowdSecRound_def crowdSecReconcile_purge reply_keys_def)
qed

lemma removal_none:
  assumes "tables_ok st" "ip_get (ipTable st) k = None"
  shows "ip_get (ipTable (run_task t st)) k = None" "ip_get (ipTable (expireIP ip st)) k = None"
    "ip_get (ipTable (expireCIDR c st)) k = None"
  using assms
  by (auto simp: run_task_def deleteExpiredIP_simps deleteExpiredCIDR_simps expireIP_simps expireCIDR_simps tables_ok_def
      ips.lookup_del split: task.splits)

lemma expiring_step:
  assumes "service_step s l s'" "expiring k s" "ParseIP k \<noteq> None" "\<not> writes k l" "l \<noteq> TickNetworks"
  shows "expiring k s'"
proof -
  have h: "tables_ok (srv s)" "\<not> gMultiInstanceMode (srv s)" "w_tick s \<noteq> None"
    and q: "ip_get (ipTable (srv s)) k = None \<or> k \<in> set (w_ips s)"
    using assms(2) by (simp_all add: expiring_def)
  have keep: "tables_ok (srv s')" "\<not> gMultiInstanceMode (srv s')" using step_keeps_tables [OF assms(1) h(1)] h(2) by simp_all
  have "w_tick s' \<noteq> None \<and> (ip_get (ipTable (srv s')) k = None \<or> k \<in> set (w_ips s'))"
    using assms(1)
  proof (cases rule: service_step.cases)
    case (step_http api clk hr)
    with assms(4) h q serve_other_key [OF h(1,2), of api hr k clk] show ?thesis by auto
  next
    case (step_dns lib now r reply st)
    with h q handleDNSRequest_step [OF step_dns(3)] show ?thesis by (auto simp: dns_step_def)
  next
    case (step_task ts t us)
    with h q removal_none(1) [of "(srv s)\<lparr>goroutines := ts @ us\<rparr>" k t] show ?thesis by auto
  next
    case (step_ip ip ips)
    have "ip_get (ipTable (expireIP k (srv s))) k = None"
      using assms(3) h(1) by (auto simp: expireIP_simps tables_ok_def ips.lookup_del)
    with step_ip h q removal_none(2) [OF h(1), of k ip] show ?thesis by auto
  next
    case (step_cidr c cs)
    with h q removal_none(3) [OF h(1), of k c] show ?thesis by auto
  next
    case (step_crowdsec clk reply b st)
    with assms(4) h q crowdSecRound_none [OF h(1,2) step_crowdsec(3)] show ?thesis by auto
  qed (use assms(5) h q in simp_all)
  with keep show ?thesis by (simp add: expiring_def)
qed

lemma expiring_run:
  assumes "service_run s ls s'" "expiring k s" "ParseIP k \<noteq> None" "\<forall>l \<in> set ls. \<not> writes k l \<and> l \<noteq> TickNetworks"
  shows "expiring k s'"
  using assms by (induction rule: service_run.induct) (auto dest: expiring_step)

lemma service_run_append:
  "service_run s (ls @ ls') s'' \<longleftrightarrow> (\<exists>s'. service_run s ls s' \<and> service_run s' ls' s'')"
  by (induction ls arbitrary: s) auto

lemma expiredIPs_complete:
  assumes "tables_ok st" "ip_get (ipTable st) k = Some e" "expired now (be_Expiration e)"
  shows "k \<in> set (expiredIPs now st)"
  using assms(2,3) by (force simp: expiredIPs_def expired_def ip_get_def dest: map_of_SomeD)

text \<open>The worker can always finish its list.\<close>

lemma worker_finishes:
  assumes "w_tick s = Some now"
  shows "\<exists>s'. service_run s (map TickIP (w_ips s) @ [TickNetworks :: 'rr label]) s' \<and> w_tick s' = None \<and> w_ips s' = []"
  using assms
proof (induction "w_ips s" arbitrary: s)
  case Nil
  have "service_step s (TickNetworks :: 'rr label) (s\<lparr>w_tick := None, w_cidrs := expiredCIDRs now (srv s)\<rparr>)"
    using Nil by (intro step_networks) simp_all
  then show ?case using Nil(1) by (intro exI [of _ "s\<lparr>w_tick := None, w_cidrs := expiredCIDRs now (srv s)\<rparr>"]) (auto simp: Nil(1) [symmetric])
next
  case (Cons ip ips)
  let ?s = "s\<lparr>srv := expireIP ip (srv s), w_ips := ips\<rparr>"
  have "service_step s (TickIP ip :: 'rr label) ?s" using Cons(2) by (intro step_ip) simp
  with Cons(1) [of ?s] Cons(2,3) show ?case by (auto simp: Cons(2) [symmetric])
qed

text \<open>C8: Every expired block is removed by the next tick. In single-instance mode, when the
  expiration worker starts a tick at a time at which the entry of a valid address has
  expired, then, whatever else happens in between, the entry is gone at the moment the worker
  has finished its list of addresses (the step that collects the networks), as long as nobody
  writes that address meanwhile. The worker cannot get stuck on the way: from every state of
  the tick its own steps, one for each address of the list, lead to that moment.\<close>

theorem expired_block_is_removed:
  assumes "tables_ok (srv s)" "\<not> gMultiInstanceMode (srv s)"
    and "ip_get (ipTable (srv s)) k = Some e" "expired now (be_Expiration e)" "ParseIP k \<noteq> None"
    and "service_run s (TickStart now # ls) s'" "\<forall>l \<in> set ls. \<not> writes k l \<and> l \<noteq> (TickNetworks :: 'rr label)"
  shows "(\<forall>s''. service_step s' (TickNetworks :: 'rr label) s'' \<longrightarrow> ip_get (ipTable (srv s'')) k = None) \<and>
    (\<exists>s''. service_run s' (map TickIP (w_ips s') @ [TickNetworks :: 'rr label]) s'' \<and> ip_get (ipTable (srv s'')) k = None)"
proof -
  obtain s1 where s1: "service_step s (TickStart now :: 'rr label) s1" "service_run s1 ls s'" using assms(6) by auto
  from s1(1) obtain ips where "s1 = s\<lparr>w_tick := Some now, w_ips := ips\<rparr>" "mset ips = mset (expiredIPs now (srv s))"
    by (cases rule: service_step.cases) auto
  then have "expiring k s1"
    using assms(1,2) expiredIPs_complete [OF assms(1,3,4)] by (auto simp: expiring_def dest: mset_eq_setD)
  then have e: "expiring k s'" using expiring_run [OF s1(2)] assms(5,7) by blast
  have fin: "ip_get (ipTable (srv s'')) k = None" if "expiring k t" "service_step t (TickNetworks :: 'rr label) s''" for t s''
    using that(2,1) by (cases rule: service_step.cases) (auto simp: expiring_def)
  obtain now' where "w_tick s' = Some now'" using e by (auto simp: expiring_def)
  from worker_finishes [OF this, where 'rr = 'rr] obtain s'' where
    s'': "service_run s' (map TickIP (w_ips s') @ [TickNetworks :: 'rr label]) s''" by blast
  then obtain t where t: "service_run s' (map TickIP (w_ips s') :: 'rr label list) t" "service_step t (TickNetworks :: 'rr label) s''"
    by (auto simp: service_run_append)
  have "expiring k t" using expiring_run [OF t(1) e assms(5)] by auto
  with fin [OF this t(2)] fin [OF e] s'' show ?thesis by blast
qed

theorem expired_block_is_removed_witness:
  "\<exists>s s' s''. service_run s [TickStart 90 :: unit label] s' \<and> ip_get (ipTable (srv s)) ''192.0.2.1'' \<noteq> None \<and>
    service_run s' (map TickIP (w_ips s') @ [TickNetworks :: unit label]) s'' \<and> ip_get (ipTable (srv s'')) ''192.0.2.1'' = None"
proof -
  let ?e = "sample_entry ''192.0.2.1'' 50"
  let ?s = "(sample_service False)\<lparr>srv := ipTable_store (sample_entry ''192.0.2.1'' 50) (initial_server False)\<rparr>"
  let ?s' = "?s\<lparr>w_tick := Some 90, w_ips := expiredIPs 90 (srv ?s)\<rparr>"
  have e: "be_Expiration ?e = 50" "be_IP ?e = ''192.0.2.1''" by (simp_all add: sample_entry_def)
  have t: "tables_ok (srv ?s)" "\<not> gMultiInstanceMode (srv ?s)" "ip_get (ipTable (srv ?s)) ''192.0.2.1'' = Some ?e"
    using ips.lookup_put_same [of "[]" ?e] ips.invar_put [of "[]" ?e] by (simp_all add: e tables_ok_def)
  have "expired 90 (be_Expiration ?e)" "ParseIP ''192.0.2.1'' \<noteq> None" using sample_put_facts(2) by (simp_all add: e expired_def)
  note facts = t this
  have r: "service_run ?s [TickStart 90 :: unit label] ?s'"
    using step_tick [of ?s "expiredIPs 90 (srv ?s)" 90] by (auto simp: sample_service_def)
  have "ip_get (ipTable (srv ?s)) ''192.0.2.1'' \<noteq> None" using t(3) by simp
  moreover obtain s'' where "service_run ?s' (map TickIP (w_ips ?s') @ [TickNetworks :: unit label]) s''"
    "ip_get (ipTable (srv s'')) ''192.0.2.1'' = None" using expired_block_is_removed [OF facts r] by auto
  ultimately show ?thesis using r by blast
qed

end
