(* ===== verification/TimeProps.thy ===== *)
theory TimeProps
  imports GoTime
begin

text \<open>
  Facts about the parsers of times: the loop of \<open>ParseDuration\<close> never runs out of fuel, and
  durations and timestamps stay within 64 bits.
\<close>

section \<open>Durations\<close>

lemma leadingInt_shorter: "leadingInt s x = Some (v, s') \<Longrightarrow> length s' \<le> length s"
  by (induction s arbitrary: x) (auto split: if_splits dest!: le_SucI)

lemma leadingFraction_shorter: "leadingFraction s x scale ov = (f, scale', s') \<Longrightarrow> length s' \<le> length s"
proof (induction s arbitrary: x scale ov)
  case (Cons c s)
  then show ?case by (simp split: if_splits) (metis le_SucI, metis le_SucI, metis le_SucI, metis le_SucI, auto)
qed simp

lemma takeWhile_dropWhile_shorter:
  "takeWhile P s \<noteq> [] \<Longrightarrow> length (dropWhile P s) < length s"
  using takeWhile_dropWhile_id [of P s] by (metis length_append length_greater_0_conv less_add_same_cancel2)

text \<open>Every round of the loop consumes at least the unit.\<close>

lemma duration_component_shorter:
  assumes "duration_component s = Some (v, s')"
  shows "length s' < length s \<and> v \<le> 2 ^ 63"
proof -
  obtain n s1 where i: "leadingInt s 0 = Some (n, s1)"
    using assms by (auto simp: duration_component_def split: if_splits option.splits)
  define rest where "rest = (if s1 \<noteq> [] \<and> hd s1 = CHR ''.'' then snd (snd (leadingFraction (tl s1) 0 (1, 1) False)) else s1)"
  have "length rest \<le> length s1"
    using leadingFraction_shorter [of "tl s1" 0 "(1, 1)" False]
    by (cases "leadingFraction (tl s1) 0 (1, 1) False") (auto simp: rest_def intro: le_trans)
  moreover have "length s1 \<le> length s" using i by (rule leadingInt_shorter)
  moreover have "s' = dropWhile (\<lambda>c. \<not> is_num_char c) rest \<and> takeWhile (\<lambda>c. \<not> is_num_char c) rest \<noteq> [] \<and> v \<le> 2 ^ 63"
    using assms i
    by (auto simp: duration_component_def rest_def Let_def case_prod_unfold simp del: power_numeral takeWhile_eq_Nil_iff
        split: if_splits option.splits)
  ultimately show ?thesis using takeWhile_dropWhile_shorter [of "\<lambda>c. \<not> is_num_char c" rest] by auto
qed

lemma duration_loop_bound: "duration_loop fuel s d = Some r \<Longrightarrow> d \<le> 2 ^ 63 \<Longrightarrow> r \<le> 2 ^ 63"
proof (induction fuel arbitrary: s d)
  case 0
  then show ?case by (subst (asm) duration_loop.simps) (auto split: if_splits)
next
  case (Suc k)
  from Suc.prems(1) show ?case
    by (subst (asm) duration_loop.simps)
      (use Suc.prems(2) in \<open>auto split: if_splits option.splits intro: Suc.IH simp del: power_numeral simp: not_less\<close>)
qed

text \<open>The length of the text is enough fuel.\<close>

lemma duration_loop_fuel: "length s \<le> fuel \<Longrightarrow> duration_loop fuel s d = duration_loop (length s) s d"
proof (induction "length s" arbitrary: s d fuel rule: less_induct)
  case less
  show ?case
  proof (cases "s = []")
    case True
    then show ?thesis by (simp add: duration_loop.simps)
  next
    case False
    then obtain k n where k: "fuel = Suc k" "length s = Suc n" "n \<le> k"
      using less.prems by (cases fuel; cases "length s") auto
    have "duration_loop k s' d' = duration_loop n s' d'" if "duration_component s = Some (v, s')" for v s' d'
    proof -
      have "length s' < length s" using duration_component_shorter [OF that] by simp
      then have "length s' \<le> n" "length s' \<le> k" using k by simp_all
      then show ?thesis using less.hyps [OF \<open>length s' < length s\<close>] by metis
    qed
    then show ?thesis
      using False k by (subst (1 2) duration_loop.simps) (auto split: option.splits)
  qed
qed

lemma ParseDuration_range: "ParseDuration s = Some d \<Longrightarrow> int64_range d"
  by (auto simp: ParseDuration_def int64_range_def Let_def split: if_splits option.splits dest!: duration_loop_bound)

section \<open>Timestamps\<close>

lemma getnum_range: "getnum fixed s = Some (n, s') \<Longrightarrow> 0 \<le> n \<and> n < 100"
  using digit_val_less [of "hd s"] digit_val_less [of "hd (tl s)"]
  by (auto simp: getnum_def split: list.splits if_splits)

lemma dec_value_less: "list_all is_digit s \<Longrightarrow> dec_value s < 10 ^ length s"
proof (induction s rule: rev_induct)
  case (snoc c s)
  then show ?case using digit_val_less [of c] by (simp add: dec_value_append)
qed (simp add: dec_value_def)

lemma parse_year_range: "parse_year s = Some (y, s') \<Longrightarrow> 0 \<le> y \<and> y < 10000"
  using dec_value_less [of "take 4 s"] by (auto simp: parse_year_def min_def split: if_splits)

lemma parse_clock_range: "parse_clock s = Some (secs, s') \<Longrightarrow> 0 \<le> secs \<and> secs < 86400"
  by (auto simp: parse_clock_def Option.bind_eq_Some_conv split: if_splits prod.splits dest!: getnum_range)

lemma parse_zone_range: "parse_zone s = Some (z, s') \<Longrightarrow> \<bar>z\<bar> \<le> 90000"
  by (auto simp: parse_zone_def split: if_splits option.splits prod.splits dest!: getnum_range)

lemma unix_days_range: "0 \<le> y \<Longrightarrow> y < 10000 \<Longrightarrow> 1 \<le> m \<Longrightarrow> m \<le> 12 \<Longrightarrow> 1 \<le> d \<Longrightarrow> d < 100 \<Longrightarrow> \<bar>unix_days y m d\<bar> < 5000000"
  by (auto simp: unix_days_def Let_def abs_less_iff)

lemma ParseRFC3339_range: "ParseRFC3339 s = Some t \<Longrightarrow> int64_range t"
proof -
  assume "ParseRFC3339 s = Some t"
  then obtain y m d secs zone where f: "0 \<le> y" "y < 10000" "1 \<le> m" "m \<le> 12" "1 \<le> d" "d < 100" "0 \<le> secs" "secs < 86400" "\<bar>zone\<bar> \<le> 90000"
    and t: "t = unix_days y m d * 86400 + secs - zone"
    by (simp add: ParseRFC3339_def Option.bind_eq_Some_conv case_prod_unfold split: if_splits)
      (smt (verit) parse_year_range getnum_range parse_clock_range parse_zone_range prod.collapse)
  have "\<bar>unix_days y m d\<bar> < 5000000" using f by (intro unix_days_range)
  then show ?thesis using f(7-9) unfolding t int64_range_def by (simp add: abs_less_iff abs_le_iff)
qed

end
