(* ===== verification/Typed.thy ===== *)
theory Typed
  imports Interleaving TimeProps
begin

text \<open>
  The \<open>int64\<close> fields of the program are \<open>int\<close> in the model, reduced where the program computes
  with them. This theory shows that the model is well typed: whatever the process reads (the
  clock, texts of requests, records of etcd, decisions of CrowdSec), every number it keeps in
  its tables and counters is one that 64 bits can hold.
\<close>

section \<open>Decoding keeps a typing of the fields\<close>

text \<open>A store into one field that keeps a typing of the struct: then so does the decoder.\<close>

locale typed_store =
  fixes store :: "string \<Rightarrow> jvalue \<Rightarrow> 'r \<Rightarrow> 'r \<times> bool"
    and typed :: "'r \<Rightarrow> bool"
  assumes store_typed: "typed r \<Longrightarrow> typed (fst (store k v r))"
begin

lemma store_fields_typed: "typed (fst acc) \<Longrightarrow> typed (fst (store_fields store kvs acc))"
proof (induction kvs arbitrary: acc)
  case (Cons kv kvs)
  have "typed (fst (case acc of (r, err) \<Rightarrow> case kv of (k, v) \<Rightarrow> case store k v r of (r', e) \<Rightarrow> (r', err \<or> e)))"
    using Cons.prems by (simp add: case_prod_unfold store_typed)
  from Cons.IH [OF this] show ?case by (cases acc; cases kv) (simp add: store_fields_def)
qed (simp add: store_fields_def)

lemma store_struct_typed: "typed r \<Longrightarrow> typed (fst (store_struct store v r))"
  by (cases v) (simp_all add: store_struct_def store_fields_typed)

lemma Unmarshal_typed: "typed r \<Longrightarrow> typed (fst (Unmarshal store s r))"
  by (simp add: Unmarshal_def store_struct_typed split: option.splits)

lemma store_slice_typed:
  "typed zero \<Longrightarrow> list_all typed old \<Longrightarrow> list_all typed (fst (store_slice store zero v old))"
  by (cases v) (auto simp: store_slice_def Let_def list_all_iff store_struct_typed)

end

lemma int64_range_0 [simp]: "int64_range 0"
  by (simp add: int64_range_def)

lemma ParseInt_range: "int64_range (fst (ParseInt s))"
  by (auto simp: ParseInt_def int64_range_def Let_def split: if_splits prod.splits)

lemma store_int_range:
  "int64_range old \<Longrightarrow> int64_range (fst (store_int v old))"
  "int64_range old \<Longrightarrow> int64_range (fst (store_quoted_int v old))"
  using ParseInt_range
  by (auto simp: store_int_def store_quoted_int_def case_prod_unfold split: jvalue.splits)

definition record_in_range :: "BlockRecord \<Rightarrow> bool" where
  "record_in_range r \<longleftrightarrow> int64_range (br_Version r) \<and> int64_range (br_TTL r) \<and> int64_range (br_FirstSeen r) \<and>
     int64_range (br_LastSeen r) \<and> int64_range (br_Expiration r)"

definition event_in_range :: "watchEvent \<Rightarrow> bool" where
  "event_in_range ev \<longleftrightarrow> int64_range (ev_CreateRevision ev) \<and> int64_range (ev_ModRevision ev) \<and> int64_range (ev_Version ev)"

definition response_in_range :: "watchResponse \<Rightarrow> bool" where
  "response_in_range r \<longleftrightarrow> list_all event_in_range (wr_Events r)"

interpretation records: typed_store store_BlockRecord record_in_range
  by unfold_locales (simp add: store_BlockRecord_def record_in_range_def store_int_range)

interpretation kvs: typed_store store_kv event_in_range
  by unfold_locales (simp add: store_kv_def event_in_range_def store_int_range)

interpretation events: typed_store store_watchEvent event_in_range
  by unfold_locales (simp add: store_watchEvent_def kvs.store_struct_typed, simp add: event_in_range_def)

interpretation results: typed_store store_result response_in_range
  by unfold_locales
    (simp add: store_result_def response_in_range_def events.store_slice_typed zero_watchEvent_def event_in_range_def)

interpretation responses: typed_store store_watchResponse response_in_range
  by unfold_locales (simp add: store_watchResponse_def results.store_struct_typed)

lemma decoded_record: "record_in_range (fst (Unmarshal store_BlockRecord s zero_BlockRecord))"
  by (rule records.Unmarshal_typed) (simp add: record_in_range_def zero_BlockRecord_def)

lemma decoded_events: "list_all event_in_range (wr_Events (fst (Unmarshal store_watchResponse s zero_watchResponse)))"
  using responses.Unmarshal_typed [of zero_watchResponse s]
  by (simp add: response_in_range_def zero_watchResponse_def)

section \<open>The state of the process\<close>

definition entry_in_range :: "BlockEntry \<Rightarrow> bool" where
  "entry_in_range e \<longleftrightarrow> int64_range (be_CreateRevision e) \<and> int64_range (be_ModRevision e) \<and> int64_range (be_FirstSeen e) \<and>
     int64_range (be_LastSeen e) \<and> int64_range (be_Expiration e)"

definition network_in_range :: "CIDREntry \<Rightarrow> bool" where
  "network_in_range e \<longleftrightarrow> int64_range (ce_FirstSeen e) \<and> int64_range (ce_LastSeen e) \<and> int64_range (ce_Expiration e)"

definition values_in_range :: "server \<Rightarrow> bool" where
  "values_in_range st \<longleftrightarrow> (\<forall>(k, e) \<in> set (ipTable st). entry_in_range e) \<and> (\<forall>e \<in> set (cidrTable st). network_in_range e) \<and>
     (\<forall>c. int64_range (stats st c)) \<and> int64_range (gEtcdRevision st)"

text \<open>The readings of the clock: seconds since the epoch fit in 64 bits. The bouncer adds a
  duration of up to 292 years to its reading, for which one bit is to spare.\<close>

definition clock_ok :: "int \<Rightarrow> bool" where
  "clock_ok t \<longleftrightarrow> - (2 ^ 62) \<le> unix t \<and> unix t < 2 ^ 62"

fun label_clocks_ok :: "'rr label \<Rightarrow> bool" where
  "label_clocks_ok (HttpRequest api clk hr) \<longleftrightarrow> (\<forall>i. int64_range (clk i))"
| "label_clocks_ok (CrowdSecReply clk reply) \<longleftrightarrow> (\<forall>i j. clock_ok (clk i j))"
| "label_clocks_ok _ \<longleftrightarrow> True"

lemma clock_ok_range: "clock_ok t \<Longrightarrow> int64_range (unix t)"
  by (simp add: clock_ok_def int64_range_def)

lemma clock_ok_plus:
  assumes "clock_ok t" "int64_range d"
  shows "int64_range (unix (t + d))"
proof -
  have "unix t * second \<le> t" "t < (unix t + 1) * second"
    using minus_mod_eq_mult_div [of t second] pos_mod_bound [of second t] pos_mod_sign [of second t]
    by (simp_all add: unix_def second_def algebra_simps)
  moreover have "- 9223372037 * second \<le> d" "d < 9223372037 * second"
    using assms(2) by (simp_all add: int64_range_def second_def)
  ultimately have "(unix t - 9223372037) * second \<le> t + d" "t + d < (unix t + 9223372038) * second"
    by (simp_all add: algebra_simps)
  then have "unix t - 9223372037 \<le> unix (t + d)" "unix (t + d) < unix t + 9223372038"
    by (simp_all add: unix_def second_def zdiv_mono1 div_less_iff_less_mult less_eq_div_iff_mult_less_eq)
  then show ?thesis using assms(1) by (simp add: clock_ok_def int64_range_def)
qed

section \<open>What keeps the values in range\<close>

lemma in_cidr_upsert: "x \<in> set (cidr_upsert e es) \<Longrightarrow> x = e \<or> x \<in> set es"
  using set_update_subset_insert [of es _ e] by (auto simp: cidr_upsert_def split: option.splits)

lemma in_cidr_remove: "x \<in> set (cidr_remove c es) \<Longrightarrow> x \<in> set es"
proof (cases "find_index (\<lambda>e. ce_CIDR e = c) es")
  case (Some i)
  assume "x \<in> set (cidr_remove c es)"
  then have "x \<in> set (es[i := es ! (length es - 1)])"
    using Some by (auto simp: cidr_remove_def Let_def dest: in_set_takeD)
  moreover have "es \<noteq> []" using Some by auto
  ultimately show ?thesis using set_update_subset_insert [of es i] by (metis insertE last_conv_nth last_in_set subsetD)
qed (simp add: cidr_remove_def)

lemma in_range_effects [simp]:
  "values_in_range (log_call l st) = values_in_range st" "values_in_range (spawn t st) = values_in_range st"
  "values_in_range (send_etcd r st) = values_in_range st" "values_in_range (st\<lparr>goroutines := ts\<rparr>) = values_in_range st"
  by (simp_all add: values_in_range_def)

lemma in_range_etcd [simp]:
  "values_in_range (etcdPut k v st) = values_in_range st" "values_in_range (etcdDelete k st) = values_in_range st"
  "values_in_range (etcdPutCIDR c r st) = values_in_range st" "values_in_range (etcdDeleteCIDR c st) = values_in_range st"
  by (simp_all add: etcd_defs)

lemma in_range_updates [simp, intro]:
  "values_in_range st \<Longrightarrow> values_in_range (stats_add c d st)"
  "values_in_range st \<Longrightarrow> values_in_range (ipTable_delete ip st)"
  "values_in_range st \<Longrightarrow> values_in_range (cidrTable_remove cidr st)"
  "values_in_range st \<Longrightarrow> entry_in_range e \<Longrightarrow> values_in_range (ipTable_store e st)"
  "values_in_range st \<Longrightarrow> network_in_range ce \<Longrightarrow> values_in_range (cidrTable_upsert ce st)"
  by (auto simp: values_in_range_def cidrTable_remove_def cidrTable_upsert_def ip_del_def ip_put_def
      dest!: set_AList_update set_AList_delete in_cidr_upsert in_cidr_remove)

lemma in_range_revision [simp, intro]:
  "values_in_range st \<Longrightarrow> int64_range n \<Longrightarrow> values_in_range (st\<lparr>gEtcdRevision := n\<rparr>)"
  by (simp add: values_in_range_def)

lemma in_range_lookups [simp]:
  "values_in_range (snd (ipTableLookup now ip st)) = values_in_range st"
  "values_in_range (snd (cidr_lookup now addr st)) = values_in_range st"
  by (auto simp: ipTableLookup_def cidr_lookup_find split: option.splits)

lemma in_range_found:
  "values_in_range st \<Longrightarrow> fst (ipTableLookup now ip st) = Some e \<Longrightarrow> int64_range (be_FirstSeen e)"
  "values_in_range st \<Longrightarrow> findByCIDR cidr st = Some ce \<Longrightarrow> int64_range (ce_FirstSeen ce)"
  by (auto simp: fst_ipTableLookup ip_get_def findByCIDR_def cidr_find_def values_in_range_def entry_in_range_def network_in_range_def
      find_Some_iff dest!: map_of_SomeD)

section \<open>Requests\<close>

lemma put_params_range:
  assumes "put_params now q = Inr f" "int64_range now"
  shows "int64_range (pf_LastSeen f)" "int64_range (pf_Expiration f)"
proof -
  have d: "pf_LastSeen (put_texts q (put_defaults now)) = now" "pf_Expiration (put_texts q (put_defaults now)) = 0"
    by (simp_all add: put_texts_def put_defaults_def Let_def)
  show "int64_range (pf_LastSeen f)" "int64_range (pf_Expiration f)"
    using assms d
    by (auto simp: put_params_def put_last_seen_def put_duration_def put_expiration_def Let_def ParseRFC3339_range
        split: option.splits sum.splits if_splits)
qed

lemma written_in_range:
  assumes "put_params now q = Inr f" "int64_range now" "int64_range first"
  shows "entry_in_range (put_entry ip f first)" "network_in_range (put_cidr_entry c net f first)"
  using assms put_params_range [OF assms(1,2)]
  by (simp_all add: entry_in_range_def network_in_range_def put_entry_def put_cidr_entry_def)

lemma first_seen_range:
  assumes "values_in_range st" "int64_range now"
  shows "int64_range (case fst (ipTableLookup t ip st) of None \<Rightarrow> now | Some e \<Rightarrow> be_FirstSeen e)"
    "int64_range (case findByCIDR cidr st of None \<Rightarrow> now | Some ce \<Rightarrow> ce_FirstSeen ce)"
  using assms by (auto split: option.splits dest: in_range_found)

lemma in_range_handlers:
  assumes "values_in_range st" "\<forall>i. int64_range (clk i)"
  shows "values_in_range (snd (handlePut clk r st))" "values_in_range (snd (handlePutNetwork clk r st))"
    "values_in_range (snd (handleDelete r st))" "values_in_range (snd (handleDeleteNetwork r st))"
    "values_in_range (snd (handleLookup clk r st))" "values_in_range (snd (handleAuth clk r st))"
    "values_in_range (snd (handleList clk r st))" "values_in_range (snd (handleHealth r st))"
    "values_in_range (snd (handleNotFound r st))"
  using assms
  by (auto simp: handler_unfold Let_def case_prod_unfold lookup_entry_def
      intro!: in_range_updates written_in_range dest!: in_range_found [rotated] split: option.splits sum.splits)

lemma in_range_serve:
  assumes "values_in_range st" "\<forall>i. int64_range (clk i)"
  shows "values_in_range (serve (api, clk, hr) st)"
  using assms
  by (simp add: serve_def apiListener_def lookupListener_def run_endpoint_def Let_def in_range_handlers
      split: option.splits endpoint.splits)

lemma in_range_dns:
  assumes "handleDNSRequest lib now r st = Some (reply, st')" "values_in_range st"
  shows "values_in_range st'"
  using assms
  by (auto simp: handleDNSRequest_def dns_rbl_case_def dns_ptr_case_def Let_def case_prod_unfold
      split: list.splits option.splits if_splits)

section \<open>Workers\<close>

lemma in_range_removals:
  assumes "values_in_range st"
  shows "values_in_range (run_task t st)" "values_in_range (expireIP ip st)" "values_in_range (expireCIDR c st)"
    "values_in_range (crowdSecRemove d st)" "values_in_range (reconcile_removeIP ip st)" "values_in_range (reconcile_removeCIDR c st)"
  using assms
  by (simp_all add: run_task_def deleteExpiredIP_def deleteExpiredCIDR_def expireIP_def expireCIDR_def crowdSecRemove_def
      reconcile_removeIP_def reconcile_removeCIDR_def Let_def split: task.splits option.splits)

lemma cs_expiration_range:
  assumes "clock_ok t"
  shows "int64_range (fst (cs_expiration t d st))" "values_in_range (snd (cs_expiration t d st)) = values_in_range st"
  using assms by (auto simp: cs_expiration_def clock_ok_plus ParseDuration_range split: option.splits)

lemma in_range_apply:
  assumes "values_in_range st" "\<forall>i. clock_ok (clk i)"
  shows "values_in_range (crowdSecApply clk d st)"
  using assms
  by (simp add: crowdSecApply_def crowdSecApplyIP_def crowdSecApplyCIDR_def cs_entry_def cs_cidr_entry_def Let_def
      case_prod_unfold cs_expiration_range first_seen_range clock_ok_range entry_in_range_def network_in_range_def split: option.splits)

lemma in_range_apply_all:
  "values_in_range st \<Longrightarrow> \<forall>i j. clock_ok (clk i j) \<Longrightarrow> values_in_range (apply_all clk i ds st)"
  by (induction clk i ds st rule: apply_all.induct) (simp_all add: in_range_apply)

interpretation range_order: step_order "\<lambda>s s'. values_in_range s \<longrightarrow> values_in_range s'"
  by unfold_locales simp_all

lemma in_range_fold:
  "(\<And>x s. x \<in> set xs \<Longrightarrow> values_in_range s \<Longrightarrow> values_in_range (f x s)) \<Longrightarrow> values_in_range st \<Longrightarrow>
   values_in_range (fold f xs st)"
  using range_order.fold_ordered [of xs f st] by blast

lemma in_range_folds:
  assumes "values_in_range st"
  shows "values_in_range (fold crowdSecRemove ds st)" "values_in_range (fold reconcile_removeIP ips st)"
    "values_in_range (fold reconcile_removeCIDR cs st)"
  by (rule in_range_fold, simp_all add: in_range_removals assms)+

lemma in_range_crowdsec:
  assumes "crowdSecRound clk reply (b, st) = (b', st')" "values_in_range st" "\<forall>i j. clock_ok (clk i j)"
  shows "values_in_range st'"
  using assms
  by (auto simp: crowdSecRound_def crowdSecReconcile_def Let_def in_range_folds in_range_apply_all split: option.splits if_splits)

lemma in_range_record_entries:
  assumes "record_in_range rec" "int64_range c" "int64_range m"
  shows "entry_in_range (record_entry ip rec c m)" "network_in_range (record_cidr_entry cidr net rec)"
  using assms by (simp_all add: record_in_range_def entry_in_range_def network_in_range_def record_entry_def record_cidr_entry_def)

lemma in_range_events:
  assumes "values_in_range st" "event_in_range ev"
  shows "values_in_range (watch_event ev st)" "values_in_range (cidr_watch_event ev st)"
  using assms decoded_record [of "base64_decode (ev_Value ev)"]
  by (simp_all add: watch_event_def cidr_watch_event_def Let_def case_prod_unfold in_range_record_entries event_in_range_def
      in_range_record_entries(2) [where c = 0 and m = 0] split: option.splits)

lemma in_range_lines:
  assumes "values_in_range st"
  shows "values_in_range (watch_line l st)" "values_in_range (cidr_watch_line l st)"
proof -
  have r: "values_in_range (watch_revision rvn st)" "values_in_range (updateRevision (fst (ParseInt rvn)) st)" for rvn
    using assms ParseInt_range [of rvn] by (auto simp: watch_revision_def updateRevision_def case_prod_unfold)
  show "values_in_range (watch_line l st)" "values_in_range (cidr_watch_line l st)"
    using assms r decoded_events [of l]
    by (auto simp: watch_line_def cidr_watch_line_def Let_def case_prod_unfold
        list_all_iff intro!: in_range_fold in_range_events)
qed

section \<open>Every run\<close>

lemma step_keeps_range:
  assumes "service_step s l s'" "label_clocks_ok l" "values_in_range (srv s)"
  shows "values_in_range (srv s')"
  using assms
  by (cases rule: service_step.cases)
    (simp_all add: in_range_serve in_range_dns in_range_removals in_range_crowdsec in_range_lines)



end
