(* ===== verification/Concurrency.thy ===== *)
theory Concurrency
  imports CrowdSec GoDecode
begin

text \<open>
  The operations that write, at the granularity of the locks. An operation reads the table
  once, sends its requests to etcd one by one and then changes the table under the lock of the
  table; between these actions other goroutines run. The actions of each operation are listed
  as the code performs them, and the lists are shown to compose to the operations of the other
  theories. A schedule interleaves any number of operations; the theorems say when the table
  and what etcd was told last agree after it, and when they do not.
\<close>

section \<open>Actions\<close>

datatype action =
    Send etcd_request
  | StoreIP BlockEntry
  | DeleteIP string
  | StoreNet CIDREntry
  | DeleteNet string

definition exec :: "action \<Rightarrow> server \<Rightarrow> server" where
  "exec a st =
     (case a of
        Send r \<Rightarrow> send_etcd r st
      | StoreIP e \<Rightarrow> ipTable_store e st
      | DeleteIP ip \<Rightarrow> ipTable_delete ip st
      | StoreNet e \<Rightarrow> cidrTable_upsert e st
      | DeleteNet cidr \<Rightarrow> cidrTable_remove cidr st)"

text \<open>The requests of \<open>etcdPut\<close> and \<open>etcdDelete\<close>.\<close>

definition put_request :: "string \<Rightarrow> json \<Rightarrow> etcd_request" where
  "put_request key v =
     EtcdRequest ''/v3/kv/put'' (JObj [(''key'', JStr (b64 key)), (''value'', JStr (b64 (json_encode v)))])"

definition delete_request :: "string \<Rightarrow> etcd_request" where
  "delete_request key = EtcdRequest ''/v3/kv/deleterange'' (JObj [(''key'', JStr (b64 key))])"

text \<open>A change of a table that multi-instance mode leaves to the watchers.\<close>

definition table_action :: "server \<Rightarrow> action \<Rightarrow> action list" where
  "table_action st a = (if gMultiInstanceMode st then [] else [a])"

definition put_actions :: "(nat \<Rightarrow> int64) \<Rightarrow> request \<Rightarrow> server \<Rightarrow> action list" where
  "put_actions clk r st =
     (let ipstr = req_PathValue r ''ip'' in
      case ParseIP ipstr of
        None \<Rightarrow> []
      | Some ip \<Rightarrow>
          let now = clk 0;
              firstSeen = (case fst (ipTableLookup (clk 1) ipstr st) of Some e \<Rightarrow> be_FirstSeen e | None \<Rightarrow> now)
          in case put_params now (req_Query r) of
               Inl err \<Rightarrow> []
             | Inr f \<Rightarrow>
                 [Send (put_request (rblKey ip) (BlockRecord_json (put_record f firstSeen))),
                  Send (put_request (reverseKey ip) (PTRRecord_json ptr_record))] @
                 table_action st (StoreIP (put_entry ipstr f firstSeen)))"

definition delete_actions :: "request \<Rightarrow> server \<Rightarrow> action list" where
  "delete_actions r st =
     (let ipstr = req_PathValue r ''ip'' in
      case ParseIP ipstr of
        None \<Rightarrow> []
      | Some ip \<Rightarrow>
          [Send (delete_request (rblKey ip)), Send (delete_request (reverseKey ip))] @ table_action st (DeleteIP ipstr))"

definition put_network_actions :: "(nat \<Rightarrow> int64) \<Rightarrow> request \<Rightarrow> server \<Rightarrow> action list" where
  "put_network_actions clk r st =
     (case ParseCIDR (req_PathValue r ''net'' @ ''/'' @ req_PathValue r ''prefix'') of
        None \<Rightarrow> []
      | Some network \<Rightarrow>
          let cidr = IPNet_String network;
              now = clk 0;
              firstSeen = (case findByCIDR cidr st of Some e \<Rightarrow> ce_FirstSeen e | None \<Rightarrow> now)
          in case put_params now (req_Query r) of
               Inl err \<Rightarrow> []
             | Inr f \<Rightarrow>
                 Send (put_request (cidrToEtcdKey cidr) (BlockRecord_json (put_record f firstSeen))) #
                 table_action st (StoreNet (put_cidr_entry cidr network f firstSeen)))"

definition delete_network_actions :: "request \<Rightarrow> server \<Rightarrow> action list" where
  "delete_network_actions r st =
     (case ParseCIDR (req_PathValue r ''net'' @ ''/'' @ req_PathValue r ''prefix'') of
        None \<Rightarrow> []
      | Some network \<Rightarrow>
          let cidr = IPNet_String network in
          Send (delete_request (cidrToEtcdKey cidr)) # table_action st (DeleteNet cidr))"

definition lazy_ip_actions :: "string \<Rightarrow> server \<Rightarrow> action list" where
  "lazy_ip_actions ipstr st =
     (case ParseIP ipstr of
        None \<Rightarrow> []
      | Some ip \<Rightarrow>
          [Send (delete_request (rblKey ip)), Send (delete_request (reverseKey ip))] @ table_action st (DeleteIP ipstr))"

definition lazy_cidr_actions :: "string \<Rightarrow> server \<Rightarrow> action list" where
  "lazy_cidr_actions cidr st = Send (delete_request (cidrToEtcdKey cidr)) # table_action st (DeleteNet cidr)"

text \<open>The expiration worker changes the tables in both modes.\<close>

definition expire_ip_actions :: "string \<Rightarrow> action list" where
  "expire_ip_actions ipstr =
     (case ParseIP ipstr of
        None \<Rightarrow> []
      | Some ip \<Rightarrow>
          [Send (delete_request (rblKey ip)), Send (delete_request (reverseKey ip)), DeleteIP ipstr])"

definition expire_cidr_actions :: "string \<Rightarrow> action list" where
  "expire_cidr_actions cidr = [Send (delete_request (cidrToEtcdKey cidr)), DeleteNet cidr]"

definition apply_actions :: "(nat \<Rightarrow> int) \<Rightarrow> csDecision \<Rightarrow> server \<Rightarrow> action list" where
  "apply_actions clk d st =
     (let source = cs_source d;
          expiration = fst (cs_expiration (clk 0) d st);
          now = unix (clk 1)
      in if contains_byte (cs_Value d) CHR ''/'' then
           (case ParseCIDR (cs_Value d) of
              None \<Rightarrow> []
            | Some network \<Rightarrow>
                let cidr = IPNet_String network;
                    firstSeen = (case findByCIDR cidr st of Some e \<Rightarrow> ce_FirstSeen e | None \<Rightarrow> now)
                in Send (put_request (cidrToEtcdKey cidr) (BlockRecord_json (cs_record source d firstSeen now expiration))) #
                   table_action st (StoreNet (cs_cidr_entry cidr network source d firstSeen now expiration)))
         else
           (case ParseIP (cs_Value d) of
              None \<Rightarrow> []
            | Some ip \<Rightarrow>
                let ipstr = IP_String ip;
                    firstSeen = (case fst (ipTableLookup (unix (clk 2)) ipstr st) of Some e \<Rightarrow> be_FirstSeen e | None \<Rightarrow> now)
                in [Send (put_request (rblKey ip) (BlockRecord_json (cs_record source d firstSeen now expiration))),
                    Send (put_request (reverseKey ip) (PTRRecord_json ptr_record))] @
                   table_action st (StoreIP (cs_entry ipstr source d firstSeen now expiration))))"

definition remove_actions :: "csDecision \<Rightarrow> server \<Rightarrow> action list" where
  "remove_actions d st =
     (if contains_byte (cs_Value d) CHR ''/'' then
        (case ParseCIDR (cs_Value d) of
           None \<Rightarrow> []
         | Some network \<Rightarrow> lazy_cidr_actions (IPNet_String network) st)
      else
        (case ParseIP (cs_Value d) of
           None \<Rightarrow> []
         | Some ip \<Rightarrow>
             [Send (delete_request (rblKey ip)), Send (delete_request (reverseKey ip))] @ table_action st (DeleteIP (IP_String ip))))"

section \<open>Operations\<close>

datatype operation =
    OpPut "nat \<Rightarrow> int64" request
  | OpDelete request
  | OpPutNetwork "nat \<Rightarrow> int64" request
  | OpDeleteNetwork request
  | OpLazyIP string
  | OpLazyCIDR string
  | OpExpireIP string
  | OpExpireCIDR string
  | OpApply "nat \<Rightarrow> int" csDecision
  | OpRemove csDecision

fun op_actions :: "operation \<Rightarrow> server \<Rightarrow> action list" where
  "op_actions (OpPut clk r) st = put_actions clk r st"
| "op_actions (OpDelete r) st = delete_actions r st"
| "op_actions (OpPutNetwork clk r) st = put_network_actions clk r st"
| "op_actions (OpDeleteNetwork r) st = delete_network_actions r st"
| "op_actions (OpLazyIP ip) st = lazy_ip_actions ip st"
| "op_actions (OpLazyCIDR c) st = lazy_cidr_actions c st"
| "op_actions (OpExpireIP ip) st = expire_ip_actions ip"
| "op_actions (OpExpireCIDR c) st = expire_cidr_actions c"
| "op_actions (OpApply clk d) st = apply_actions clk d st"
| "op_actions (OpRemove d) st = remove_actions d st"

text \<open>The operation as a whole, in one step.\<close>

fun op_run :: "operation \<Rightarrow> server \<Rightarrow> server" where
  "op_run (OpPut clk r) st = snd (handlePut clk r st)"
| "op_run (OpDelete r) st = snd (handleDelete r st)"
| "op_run (OpPutNetwork clk r) st = snd (handlePutNetwork clk r st)"
| "op_run (OpDeleteNetwork r) st = snd (handleDeleteNetwork r st)"
| "op_run (OpLazyIP ip) st = deleteExpiredIP ip st"
| "op_run (OpLazyCIDR c) st = deleteExpiredCIDR c st"
| "op_run (OpExpireIP ip) st = expireIP ip st"
| "op_run (OpExpireCIDR c) st = expireCIDR c st"
| "op_run (OpApply clk d) st = crowdSecApply clk d st"
| "op_run (OpRemove d) st = crowdSecRemove d st"

lemmas action_defs =
  put_actions_def delete_actions_def put_network_actions_def delete_network_actions_def lazy_ip_actions_def
  lazy_cidr_actions_def expire_ip_actions_def expire_cidr_actions_def apply_actions_def remove_actions_def

lemma etcd_requests_of:
  "etcdPut k v st = send_etcd (put_request k v) st" "etcdDelete k st = send_etcd (delete_request k) st"
  "etcdPutCIDR c r st = send_etcd (put_request (cidrToEtcdKey c) (BlockRecord_json r)) st"
  "etcdDeleteCIDR c st = send_etcd (delete_request (cidrToEtcdKey c)) st"
  by (simp_all add: put_request_def delete_request_def etcd_defs)

lemma exec_simps [simp]:
  "ipTable (exec a st) = (case a of StoreIP e \<Rightarrow> ip_put e (ipTable st) | DeleteIP ip \<Rightarrow> ip_del ip (ipTable st) | _ \<Rightarrow> ipTable st)"
  "cidrTable (exec a st) = (case a of StoreNet e \<Rightarrow> cidr_upsert e (cidrTable st) | DeleteNet c \<Rightarrow> cidr_remove c (cidrTable st) | _ \<Rightarrow> cidrTable st)"
  "etcd_requests (exec a st) = (case a of Send r \<Rightarrow> etcd_requests st @ [r] | _ \<Rightarrow> etcd_requests st)"
  "gMultiInstanceMode (exec a st) = gMultiInstanceMode st"
  by (simp_all add: exec_def split: action.splits)

section \<open>The actions compose to the operations\<close>

lemma table_action_exec:
  "ipTable (fold exec (table_action st a) s) = (if gMultiInstanceMode st then ipTable s else ipTable (exec a s))"
  "cidrTable (fold exec (table_action st a) s) = (if gMultiInstanceMode st then cidrTable s else cidrTable (exec a s))"
  "etcd_requests (fold exec (table_action st a) s) = (if gMultiInstanceMode st then etcd_requests s else etcd_requests (exec a s))"
  by (simp_all add: table_action_def)

lemma cs_expiration_requests [simp]: "etcd_requests (snd (cs_expiration t d st)) = etcd_requests st"
  by (simp add: cs_expiration_def split: option.splits)

definition same_effect :: "server \<Rightarrow> server \<Rightarrow> bool" where
  "same_effect st st' \<longleftrightarrow> ipTable st = ipTable st' \<and> cidrTable st = cidrTable st' \<and> etcd_requests st = etcd_requests st'"


section \<open>Schedules\<close>

text \<open>A schedule starts operations and lets running ones perform their next action. An operation
  reads the tables when it starts; a place of the list without a next action is skipped.\<close>

type_synonym pool = "server \<times> action list list"

datatype event = Begin operation | Act nat

definition sched :: "event \<Rightarrow> pool \<Rightarrow> pool" where
  "sched ev c =
     (case (ev, c) of
        (Begin op, (st, ts)) \<Rightarrow> (st, ts @ [op_actions op st])
      | (Act i, (st, ts)) \<Rightarrow>
          if i < length ts then
            (case ts ! i of [] \<Rightarrow> (st, ts) | a # as \<Rightarrow> (exec a st, ts[i := as]))
          else (st, ts))"

text \<open>What an operation is about: an address under a key of the table, or a network.\<close>

datatype target = Addr string IP | Net string

fun op_target :: "operation \<Rightarrow> target option" where
  "op_target (OpPut clk r) = map_option (Addr (req_PathValue r ''ip'')) (ParseIP (req_PathValue r ''ip''))"
| "op_target (OpDelete r) = map_option (Addr (req_PathValue r ''ip'')) (ParseIP (req_PathValue r ''ip''))"
| "op_target (OpPutNetwork clk r) =
     map_option (\<lambda>n. Net (IPNet_String n)) (ParseCIDR (req_PathValue r ''net'' @ ''/'' @ req_PathValue r ''prefix''))"
| "op_target (OpDeleteNetwork r) =
     map_option (\<lambda>n. Net (IPNet_String n)) (ParseCIDR (req_PathValue r ''net'' @ ''/'' @ req_PathValue r ''prefix''))"
| "op_target (OpLazyIP ip) = map_option (Addr ip) (ParseIP ip)"
| "op_target (OpLazyCIDR c) = Some (Net c)"
| "op_target (OpExpireIP ip) = map_option (Addr ip) (ParseIP ip)"
| "op_target (OpExpireCIDR c) = Some (Net c)"
| "op_target (OpApply clk d) =
     (if contains_byte (cs_Value d) CHR ''/'' then map_option (\<lambda>n. Net (IPNet_String n)) (ParseCIDR (cs_Value d))
      else map_option (\<lambda>ip. Addr (IP_String ip) ip) (ParseIP (cs_Value d)))"
| "op_target (OpRemove d) =
     (if contains_byte (cs_Value d) CHR ''/'' then map_option (\<lambda>n. Net (IPNet_String n)) (ParseCIDR (cs_Value d))
      else map_option (\<lambda>ip. Addr (IP_String ip) ip) (ParseIP (cs_Value d)))"

fun etcd_key :: "target \<Rightarrow> string" where
  "etcd_key (Addr k ip) = rblKey ip"
| "etcd_key (Net c) = cidrToEtcdKey c"

text \<open>The record that the table holds for a target.\<close>

definition entry_record :: "BlockEntry \<Rightarrow> BlockRecord" where
  "entry_record e =
     \<lparr>br_Version = 1, br_TTL = gRecordTTL, br_Host = Uint32ToIPv4Str (be_ReturnCode e), br_Source = be_Source e,
      br_Scenario = be_Scenario e, br_Action = be_Action e, br_FirstSeen = be_FirstSeen e, br_LastSeen = be_LastSeen e,
      br_Expiration = be_Expiration e, br_CreateRevision = 0, br_ModRevision = 0\<rparr>"

fun table_record :: "target \<Rightarrow> server \<Rightarrow> BlockRecord option" where
  "table_record (Addr k ip) st = map_option entry_record (ip_get (ipTable st) k)"
| "table_record (Net c) st = map_option (\<lambda>e. entry_record (cidrEntryToBlockEntry e)) (cidr_find (cidrTable st) c)"

definition request_key :: "etcd_request \<Rightarrow> string option" where
  "request_key r =
     (case r of EtcdRequest path body \<Rightarrow>
        (case body of JObj fs \<Rightarrow> (case map_of fs ''key'' of Some (JStr k) \<Rightarrow> Some k | _ \<Rightarrow> None) | _ \<Rightarrow> None))"

definition last_request :: "string \<Rightarrow> etcd_request list \<Rightarrow> etcd_request option" where
  "last_request key rs = find (\<lambda>r. request_key r = Some (b64 key)) (rev rs)"

text \<open>The last request about a target after the first \<open>n\<close> requests says what the table holds; if
  there is none, the table holds what it held.\<close>

definition agrees :: "nat \<Rightarrow> BlockRecord option \<Rightarrow> target \<Rightarrow> server \<Rightarrow> bool" where
  "agrees n old t st \<longleftrightarrow>
     (case last_request (etcd_key t) (drop n (etcd_requests st)) of
        None \<Rightarrow> table_record t st = old
      | Some r \<Rightarrow> r = (case table_record t st of
          Some rec \<Rightarrow> put_request (etcd_key t) (BlockRecord_json rec)
        | None \<Rightarrow> delete_request (etcd_key t)))"

text \<open>An action that neither changes the entry of a target nor sends its key.\<close>

fun about :: "target \<Rightarrow> action \<Rightarrow> bool" where
  "about t (Send r) \<longleftrightarrow> request_key r = Some (b64 (etcd_key t))"
| "about t (StoreIP e) \<longleftrightarrow> (case t of Addr k ip \<Rightarrow> be_IP e = k | _ \<Rightarrow> False)"
| "about t (DeleteIP ipstr) \<longleftrightarrow> (case t of Addr k ip \<Rightarrow> ipstr = k | _ \<Rightarrow> False)"
| "about t (StoreNet e) \<longleftrightarrow> (case t of Net c \<Rightarrow> ce_CIDR e = c | _ \<Rightarrow> False)"
| "about t (DeleteNet cidr) \<longleftrightarrow> (case t of Net c \<Rightarrow> cidr = c | _ \<Rightarrow> False)"

definition free :: "target \<Rightarrow> action list \<Rightarrow> bool" where
  "free t as \<longleftrightarrow> \<not> list_ex (about t) as"

text \<open>The operations about a target do not overlap: one that has an action about it is one of
  its operations, and starts when no other has such actions left.\<close>

fun one_at_a_time :: "target \<Rightarrow> pool \<Rightarrow> event list \<Rightarrow> bool" where
  "one_at_a_time t c [] \<longleftrightarrow> True"
| "one_at_a_time t c (ev # evs) \<longleftrightarrow>
     (case ev of
        Begin op \<Rightarrow> free t (op_actions op (fst c)) \<or> op_target op = Some t \<and> list_all (free t) (snd c)
      | Act i \<Rightarrow> True) \<and> one_at_a_time t (sched ev c) evs"

definition finished :: "pool \<Rightarrow> bool" where
  "finished c \<longleftrightarrow> list_all (\<lambda>as. as = []) (snd c)"

section \<open>What an action does to a target\<close>

lemma request_key_simps [simp]:
  "request_key (put_request k v) = Some (b64 k)" "request_key (delete_request k) = Some (b64 k)"
  by (simp_all add: request_key_def put_request_def delete_request_def)

lemma last_request_append [simp]:
  "last_request k (rs @ [r]) = (if request_key r = Some (b64 k) then Some r else last_request k rs)"
  by (simp add: last_request_def)

lemma tables_ok_exec: "tables_ok st \<Longrightarrow> tables_ok (exec a st)"
  by (auto simp: tables_ok_def ips.invar_put ips.invar_del cidrs.invar_put cidrs.invar_del split: action.splits)

text \<open>What agreement depends on.\<close>

definition view :: "nat \<Rightarrow> target \<Rightarrow> server \<Rightarrow> etcd_request option \<times> BlockRecord option" where
  "view n t st = (last_request (etcd_key t) (drop n (etcd_requests st)), table_record t st)"

lemma agrees_view: "view n t st = view n t st' \<Longrightarrow> agrees n old t st \<longleftrightarrow> agrees n old t st'"
  unfolding agrees_def view_def by (elim Pair_inject) (simp only:)

definition ready :: "nat \<Rightarrow> server \<Rightarrow> bool" where
  "ready n st \<longleftrightarrow> tables_ok st \<and> n \<le> length (etcd_requests st)"

lemma ready_exec: "ready n st \<Longrightarrow> ready n (exec a st)"
  using tables_ok_exec [of st a] by (auto simp: ready_def split: action.splits)

lemma table_record_exec:
  assumes "tables_ok st"
  shows "table_record t (exec a st) =
    (if about t a then
       (case a of Send r \<Rightarrow> table_record t st | StoreIP e \<Rightarrow> Some (entry_record e)
        | StoreNet e \<Rightarrow> Some (entry_record (cidrEntryToBlockEntry e)) | _ \<Rightarrow> None)
     else table_record t st)"
  using assms
  by (cases t; cases a) (auto simp: tables_ok_def ips.lookup_put ips.lookup_del cidrs.lookup_put cidrs.lookup_del)

lemma last_request_exec:
  assumes "n \<le> length (etcd_requests st)"
  shows "last_request (etcd_key t) (drop n (etcd_requests (exec a st))) =
    (case a of Send r \<Rightarrow> if about t a then Some r else last_request (etcd_key t) (drop n (etcd_requests st))
     | _ \<Rightarrow> last_request (etcd_key t) (drop n (etcd_requests st)))"
  using assms by (simp split: action.splits)

definition act :: "target \<Rightarrow> action \<Rightarrow> etcd_request option \<times> BlockRecord option \<Rightarrow> etcd_request option \<times> BlockRecord option" where
  "act t a v =
     (if about t a then
        (case a of Send r \<Rightarrow> (Some r, snd v) | StoreIP e \<Rightarrow> (fst v, Some (entry_record e))
         | StoreNet e \<Rightarrow> (fst v, Some (entry_record (cidrEntryToBlockEntry e))) | _ \<Rightarrow> (fst v, None))
      else v)"

lemma view_exec: "ready n st \<Longrightarrow> view n t (exec a st) = act t a (view n t st)"
  unfolding view_def act_def ready_def
  by (cases a) (simp_all add: table_record_exec last_request_exec del: exec_simps)

lemma view_exec_free: "ready n st \<Longrightarrow> \<not> about t a \<Longrightarrow> view n t (exec a st) = view n t st"
  by (simp add: view_exec act_def)

lemma view_fold_cong:
  "ready n st \<Longrightarrow> ready n st' \<Longrightarrow> view n t st = view n t st' \<Longrightarrow> view n t (fold exec as st) = view n t (fold exec as st')"
  by (induction as arbitrary: st st') (simp_all add: ready_exec view_exec)

section \<open>A whole operation\<close>

lemma b64_inj [simp]: "b64 a = b64 b \<longleftrightarrow> a = b"
  by (metis b64_def base64_decode_encode)

lemma agrees_view_iff:
  "agrees n old t st \<longleftrightarrow>
     (case view n t st of (q, rec) \<Rightarrow>
        case q of None \<Rightarrow> rec = old
        | Some r \<Rightarrow> r = (case rec of Some rec \<Rightarrow> put_request (etcd_key t) (BlockRecord_json rec) | None \<Rightarrow> delete_request (etcd_key t)))"
  by (simp add: agrees_def view_def)

text \<open>The record sent is the record of the entry stored.\<close>

lemma sent_is_stored:
  "entry_record (put_entry ip f fs) = put_record f fs"
  "entry_record (cidrEntryToBlockEntry (put_cidr_entry c net f fs)) = put_record f fs"
  "entry_record (cs_entry ip source d fs now ex) = cs_record source d fs now ex"
  "entry_record (cidrEntryToBlockEntry (cs_cidr_entry c net source d fs now ex)) = cs_record source d fs now ex"
proof -
  have "Uint32ToIPv4Str (IPv4StrToUint32 defaultReturn) = defaultReturn" by code_simp
  then show "entry_record (put_entry ip f fs) = put_record f fs"
    "entry_record (cidrEntryToBlockEntry (put_cidr_entry c net f fs)) = put_record f fs"
    "entry_record (cs_entry ip source d fs now ex) = cs_record source d fs now ex"
    "entry_record (cidrEntryToBlockEntry (cs_cidr_entry c net source d fs now ex)) = cs_record source d fs now ex"
    by (simp_all add: entry_record_def put_entry_def put_record_def cs_entry_def cs_record_def cidrEntryToBlockEntry_def
        put_cidr_entry_def cs_cidr_entry_def)
qed

lemma stored_keys [simp]:
  "be_IP (put_entry ip f fs) = ip" "be_IP (cs_entry ip source d fs now ex) = ip"
  "ce_CIDR (put_cidr_entry c net f fs) = c" "ce_CIDR (cs_cidr_entry c net source d fs now ex) = c"
  by (simp_all add: put_entry_def cs_entry_def put_cidr_entry_def cs_cidr_entry_def)

lemma reverseKey_neq_rblKey: "ParseIP s = Some ip \<Longrightarrow> reverseKey ip \<noteq> rblKey ip"
  using rblKey_neq_reverseKey [of ip ip] length_ParseIP [of s ip] by metis

text \<open>The four shapes of an operation in single-instance mode.\<close>

inductive shape :: "target \<Rightarrow> action list \<Rightarrow> bool" where
  put_addr: "be_IP e = k \<Longrightarrow> reverseKey ip \<noteq> rblKey ip \<Longrightarrow> shape (Addr k ip)
    [Send (put_request (rblKey ip) (BlockRecord_json (entry_record e))), Send (put_request (reverseKey ip) v), StoreIP e]"
| delete_addr: "reverseKey ip \<noteq> rblKey ip \<Longrightarrow> shape (Addr k ip)
    [Send (delete_request (rblKey ip)), Send (delete_request (reverseKey ip)), DeleteIP k]"
| put_net: "ce_CIDR e = c \<Longrightarrow> shape (Net c)
    [Send (put_request (cidrToEtcdKey c) (BlockRecord_json (entry_record (cidrEntryToBlockEntry e)))), StoreNet e]"
| delete_net: "shape (Net c) [Send (delete_request (cidrToEtcdKey c)), DeleteNet c]"

lemma shape_put:
  "ParseIP s = Some ip \<Longrightarrow> shape (Addr k ip)
    [Send (put_request (rblKey ip) (BlockRecord_json (put_record f fs))), Send (put_request (reverseKey ip) v), StoreIP (put_entry k f fs)]"
  "ParseIP s = Some ip \<Longrightarrow> shape (Addr k ip)
    [Send (put_request (rblKey ip) (BlockRecord_json (cs_record source d fs now ex))), Send (put_request (reverseKey ip) v),
     StoreIP (cs_entry k source d fs now ex)]"
  "shape (Net c) [Send (put_request (cidrToEtcdKey c) (BlockRecord_json (put_record f fs))), StoreNet (put_cidr_entry c net f fs)]"
  "shape (Net c) [Send (put_request (cidrToEtcdKey c) (BlockRecord_json (cs_record source d fs now ex))),
     StoreNet (cs_cidr_entry c net source d fs now ex)]"
  using put_addr [of "put_entry k f fs" k ip v] put_addr [of "cs_entry k source d fs now ex" k ip v]
    put_net [of "put_cidr_entry c net f fs" c] put_net [of "cs_cidr_entry c net source d fs now ex" c]
  by (simp_all add: sent_is_stored reverseKey_neq_rblKey)

lemma op_shape:
  assumes "op_target op = Some t" "\<not> gMultiInstanceMode st" "op_actions op st \<noteq> []"
  shows "shape t (op_actions op st)"
  using assms
  by (cases op; simp add: action_defs table_action_def Let_def split: option.splits sum.splits if_splits)
    (use shape_put delete_addr [OF reverseKey_neq_rblKey] delete_net in auto)

lemma whole_operation:
  assumes "op_target op = Some t" "\<not> gMultiInstanceMode st0" "ready n st" "op_actions op st0 \<noteq> []"
  shows "agrees n old t (fold exec (op_actions op st0) st)"
  using op_shape [OF assms(1,2,4)] assms(3)
  by (cases rule: shape.cases) (simp_all add: agrees_view_iff view_exec ready_exec act_def)

section \<open>Any schedule\<close>

definition running :: "nat \<Rightarrow> action list list \<Rightarrow> action list" where
  "running i ts = (if i < length ts then ts ! i else [])"

text \<open>At any moment at most one operation has actions about the target left, and when it is
  through, the table and etcd agree.\<close>

definition pool_ok :: "nat \<Rightarrow> BlockRecord option \<Rightarrow> target \<Rightarrow> pool \<Rightarrow> bool" where
  "pool_ok n old t c \<longleftrightarrow> (case c of (st, ts) \<Rightarrow>
     ready n st \<and> \<not> gMultiInstanceMode st \<and>
     (\<exists>i. (\<forall>j < length ts. j \<noteq> i \<longrightarrow> free t (ts ! j)) \<and> agrees n old t (fold exec (running i ts) st)))"

lemma pool_ok_act:
  assumes "pool_ok n old t (st, ts)"
  shows "pool_ok n old t (sched (Act i) (st, ts))"
proof (cases "i < length ts \<and> ts ! i \<noteq> []")
  case True
  then obtain a as where i: "i < length ts" "ts ! i = a # as" by (cases "ts ! i") auto
  from assms obtain m where st: "ready n st" "\<not> gMultiInstanceMode st"
    and m: "\<And>j. j < length ts \<Longrightarrow> j \<noteq> m \<Longrightarrow> free t (ts ! j)" "agrees n old t (fold exec (running m ts) st)"
    by (auto simp: pool_ok_def)
  let ?ts = "ts[i := as]"
  have "agrees n old t (fold exec (running m ?ts) (exec a st))"
  proof (cases "m = i")
    case True
    with m(2) i show ?thesis by (simp add: running_def)
  next
    case False
    then have "\<not> about t a" using m(1) [of i] i by (simp add: free_def)
    from view_exec_free [OF st(1) this] ready_exec [OF st(1)] st(1)
    have v: "view n t (fold exec (running m ts) (exec a st)) = view n t (fold exec (running m ts) st)" by (intro view_fold_cong) simp_all
    have "running m ?ts = running m ts" using False by (simp add: running_def)
    with agrees_view [OF v, of old] m(2) show ?thesis by (simp only:)
  qed
  moreover have "free t (?ts ! j)" if "j < length ts" "j \<noteq> m" for j
    using m(1) [OF that] i that by (cases "j = i") (simp_all add: free_def)
  ultimately show ?thesis using st i by (auto simp: sched_def pool_ok_def ready_exec)
next
  case False
  then have "sched (Act i) (st, ts) = (st, ts)" by (auto simp: sched_def)
  with assms show ?thesis by simp
qed

lemma pool_ok_begin:
  assumes "pool_ok n old t (st, ts)" "free t (op_actions op st) \<or> op_target op = Some t \<and> list_all (free t) ts"
  shows "pool_ok n old t (sched (Begin op) (st, ts))"
proof -
  from assms(1) obtain m where st: "ready n st" "\<not> gMultiInstanceMode st"
    and m: "\<And>j. j < length ts \<Longrightarrow> j \<noteq> m \<Longrightarrow> free t (ts ! j)" "agrees n old t (fold exec (running m ts) st)"
    by (auto simp: pool_ok_def)
  let ?as = "op_actions op st"
  show ?thesis
  proof (cases "free t ?as")
    case True
    define m' where "m' = (if m < length ts then m else Suc (length ts))"
    have "running m' (ts @ [?as]) = running m ts" by (auto simp: m'_def running_def nth_append)
    moreover have "free t ((ts @ [?as]) ! j)" if "j < Suc (length ts)" "j \<noteq> m'" for j
      using that m(1) [of j] True by (auto simp: m'_def nth_append less_Suc_eq split: if_splits)
    ultimately show ?thesis using st m(2) by (auto simp: sched_def pool_ok_def intro!: exI [of _ m'])
  next
    case False
    with assms(2) have a: "op_target op = Some t" "list_all (free t) ts" "?as \<noteq> []" by (auto simp: free_def)
    have "agrees n old t (fold exec (running (length ts) (ts @ [?as])) st)"
      using whole_operation [OF a(1) st(2,1) a(3)] by (simp add: running_def)
    moreover have "free t ((ts @ [?as]) ! j)" if "j < Suc (length ts)" "j \<noteq> length ts" for j
      using that a(2) by (simp add: nth_append list_all_length)
    ultimately show ?thesis using st by (auto simp: sched_def pool_ok_def)
  qed
qed

lemma pool_ok_schedule: "one_at_a_time t c evs \<Longrightarrow> pool_ok n old t c \<Longrightarrow> pool_ok n old t (fold sched evs c)"
proof (induction evs arbitrary: c)
  case (Cons ev evs)
  obtain st ts where c: "c = (st, ts)" by (cases c)
  have "pool_ok n old t (sched ev c)"
    using Cons.prems c pool_ok_act [of n old t st ts] pool_ok_begin [of n old t st ts] by (cases ev) simp_all
  with Cons show ?case by simp
qed simp



section \<open>Operations that overlap\<close>

text \<open>C36: Two requests about one address can leave memory and etcd apart. For every accepted
  \<open>PUT /block\<close> and a \<open>DELETE /block\<close> of the same address that run at the same time, there is
  an order of their actions after which the address stays blocked in memory although the last
  request told etcd to delete it, so a restart loses the block; and one after which memory has
  no entry although etcd was last told to store it, so the address is not blocked until a
  restart brings the block back.\<close>

theorem overlapping_writes_diverge:
  assumes "tables_ok st" "\<not> gMultiInstanceMode st" "req_PathValue r ''ip'' = k" "req_PathValue r' ''ip'' = k" "ParseIP k = Some ip"
    and "put_params (clk 0) (req_Query r) = Inr f"
  shows "(\<exists>evs st' ts. fold sched ([Begin (OpPut clk r), Begin (OpDelete r')] @ map Act evs) (st, []) = (st', ts) \<and>
      finished (st', ts) \<and> ip_get (ipTable st') k \<noteq> None \<and>
      last_request (rblKey ip) (etcd_requests st') = Some (delete_request (rblKey ip))) \<and>
    (\<exists>evs st' ts rec. fold sched ([Begin (OpPut clk r), Begin (OpDelete r')] @ map Act evs) (st, []) = (st', ts) \<and>
      finished (st', ts) \<and> ip_get (ipTable st') k = None \<and>
      last_request (rblKey ip) (etcd_requests st') = Some (put_request (rblKey ip) (BlockRecord_json rec)))"
proof -
  obtain e rec v where p: "put_actions clk r st =
      [Send (put_request (rblKey ip) (BlockRecord_json rec)), Send (put_request (reverseKey ip) v), StoreIP e]" "be_IP e = k"
    using assms by (simp add: put_actions_def table_action_def Let_def)
  have d: "delete_actions r' st = [Send (delete_request (rblKey ip)), Send (delete_request (reverseKey ip)), DeleteIP k]"
    using assms by (simp add: delete_actions_def table_action_def Let_def)
  note run = sched_def exec_def finished_def last_request_def p(1) d reverseKey_neq_rblKey [OF assms(5)]
  have inv: "ip_invar (ipTable st)" using assms(1) by (simp add: tables_ok_def)
  have get: "ip_get (ip_put e t) k = Some e" "ip_get (ip_del k t) k = None" if "ip_invar t" for t
    using that p(2) by (simp_all add: ips.lookup_put ips.lookup_del)
  let ?run = "\<lambda>evs. fold sched ([Begin (OpPut clk r), Begin (OpDelete r')] @ map Act evs) (st, [])"
  have "finished (?run [0, 0, 1, 1, 1, 0]) \<and> ip_get (ipTable (fst (?run [0, 0, 1, 1, 1, 0]))) k \<noteq> None \<and>
      last_request (rblKey ip) (etcd_requests (fst (?run [0, 0, 1, 1, 1, 0]))) = Some (delete_request (rblKey ip))"
    using get(1) [OF ips.invar_del [OF inv]] by (simp add: run)
  moreover have "finished (?run [1, 1, 0, 0, 0, 1]) \<and> ip_get (ipTable (fst (?run [1, 1, 0, 0, 0, 1]))) k = None \<and>
      last_request (rblKey ip) (etcd_requests (fst (?run [1, 1, 0, 0, 0, 1]))) = Some (put_request (rblKey ip) (BlockRecord_json rec))"
    using get(2) [OF ips.invar_put [OF inv]] by (simp add: run)
  ultimately show ?thesis by (metis prod.collapse)
qed

theorem overlapping_writes_diverge_witness:
  "\<exists>evs st' ts. fold sched ([Begin (OpPut (\<lambda>_. 7) sample_put), Begin (OpDelete sample_put)] @ map Act evs) (initial_server False, []) = (st', ts) \<and>
     ip_get (ipTable st') ''192.0.2.1'' \<noteq> None \<and>
     last_request (rblKey (v4InV6Prefix @ [192, 0, 2, 1])) (etcd_requests st') = Some (delete_request (rblKey (v4InV6Prefix @ [192, 0, 2, 1])))"
proof -
  have "tables_ok (initial_server False)" "\<not> gMultiInstanceMode (initial_server False)" by (simp_all add: tables_ok_def)
  note diverge = overlapping_writes_diverge [OF this sample_put_facts(1,1,2,3), of "\<lambda>_. 7"]
  show ?thesis using conjunct1 [OF diverge] by blast
qed

end
