(* ===== verification/Spec2Isabelle.thy ===== *)
theory Spec2Isabelle
  imports LogProps Metrics CrowdSecFetch Startup DnsV6 Typed Concurrency
begin

text \<open>
  Verification development of open-blocklist, a service that keeps a list of blocked IP
  addresses and networks and answers questions about it over HTTP and DNS. The program is the
  Go code in \<open>src/src\<close>.

  \<^bold>\<open>The program.\<close> One process holds two tables in memory: \<open>ipTable\<close> (a map from the text of an
  address to its entry, \<open>main.go\<close>) and \<open>cidrTable\<close> (a slice of networks, \<open>cidr.go\<close>). Entries
  carry an expiration. Two HTTP listeners read the tables (\<open>/lookup\<close>, \<open>/auth\<close>, \<open>/list\<close>) and one
  of them writes (\<open>/block\<close>, \<open>/block-network\<close>); a DNS server (\<open>dns.go\<close>) answers from the address
  table; an expiration worker removes expired entries every minute, and a lookup that meets
  an expired entry starts its removal in the background. Every write also goes to etcd
  (\<open>etcd.go\<close>), from which both tables are loaded at start. In multi-instance mode the tables are
  written only by two goroutines that watch etcd, so that all instances converge. A bouncer
  (\<open>crowdsec.go\<close>) polls the decisions of a CrowdSec API and applies them. \<open>metrics.go\<close> publishes
  counters and probes, \<open>log.go\<close> writes the log through a channel and a worker, \<open>helpers.go\<close> holds
  conversions of addresses, the keys of etcd and the readers of the environment.

  \<^bold>\<open>Layers of the development.\<close>

  \<^item> Foundations. \<open>Prelude\<close>: machine types, wrap-around, printing and splitting of text,
    association lists, the collections of simplification rules. \<open>GoNet\<close>, \<open>GoTime\<close>, \<open>GoJson\<close>,
    \<open>GoDecode\<close>: what the code uses of the Go library (\<open>net\<close>, \<open>net/netip\<close>, \<open>time\<close>,
    \<open>encoding/json\<close>, \<open>encoding/base64\<close>, \<open>strconv\<close>). \<open>JsonRoundTrip\<close> shows that decoding inverts
    encoding; \<open>TimeProps\<close> that the parsers of times end within their fuel and stay in 64 bits.
  \<^item> Addresses (\<open>helpers.go\<close>). \<open>Helpers\<close>: the IPv4 and IPv6 conversions, one definition per
    function, the printers with their byte buffers, and the keys of etcd. \<open>IpText\<close>: printed
    addresses and networks parse back to what was printed, so keys by text are faithful.
  \<^item> State and tables. \<open>Server\<close>: the records, the counters, the state of the process (tables,
    mode, etcd revision and, as lists that only grow, the requests sent to etcd, the goroutines
    started and the calls of the log). \<open>Store\<close>: the locale \<open>keyed_store\<close>, the contract of both
    tables. \<open>IpTable\<close> and \<open>CidrTable\<close>: the operations of the two tables, interpreted as keyed
    stores.
  \<^item> Handlers (\<open>main.go\<close>). \<open>Http\<close>: requests, responses, the rendering of entries. \<open>Handlers\<close>: every
    handler with all its branches. \<open>HandlerProps\<close>: what they promise. \<open>Router\<close>: which request
    reaches which handler on which listener. \<open>Expiry\<close>: the expiration worker.
  \<^item> Network services. \<open>Dns\<close> and \<open>DnsV6\<close> (\<open>dns.go\<close>): the request handler and its answers for IPv4
    and IPv6 questions. \<open>CrowdSec\<close> and \<open>CrowdSecFetch\<close> (\<open>crowdsec.go\<close>): applying decisions, and
    fetching them from the raw reply. \<open>Etcd\<close> and \<open>EtcdProps\<close> (\<open>etcd.go\<close>): loading and watching.
    \<open>Replication\<close>: what one instance writes as another instance reads it, byte for byte.
  \<^item> Operation. \<open>Log\<close>, \<open>LogProps\<close> (\<open>log.go\<close>), \<open>Metrics\<close> (\<open>metrics.go\<close>), \<open>Config\<close> (the readers of the
    environment, \<open>waitForEtcd\<close>), \<open>Listeners\<close> (the starts of all goroutines, socket options,
    signals and shutdown, profiling), \<open>SelfTest\<close> (\<open>unittest_enabled.go\<close>), \<open>Startup\<close> (\<open>main\<close>).
  \<^item> The whole process. \<open>System\<close>: an abstract blocklist and the refinement of the HTTP interface to
    it. \<open>Interleaving\<close>: a step relation in which all goroutines take steps in any order.
    \<open>Typed\<close>: every number the process keeps fits the type it has in the program. \<open>Concurrency\<close>: the
    writing operations as lists of actions between which other goroutines run.

  \<^bold>\<open>What is shown.\<close>

  \<^item> Refinement: for every sequence of requests the two tables implement two maps with updates,
    and \<open>/auth\<close> answers by them. \<open>/auth\<close> and \<open>/lookup\<close> always agree.
  \<^item> Every interleaving: the tables keep one entry per key; a live block stays unless its address
    is written, decided by CrowdSec or seen expired; an expired block is gone when the next tick
    of the worker has gone through its list; numbers stay in 64 bits. With the actions inside the
    operations interleaved too, the tables and what etcd was told last agree about every key
    whose own operations do not overlap.
  \<^item> Handlers: an accepted block is visible until it expires, a network blocks exactly the
    addresses of its prefix, a rejected request has no effect, in multi-instance mode handlers
    write only to etcd, the lookup listener writes nothing.
  \<^item> Replication: a block, an unblock and both network requests travel through JSON, base 64 and
    the watch stream into the table of another instance; a restarted service blocks exactly
    what etcd has stored, and nothing listens before that; keys never collide; the watched range
    is exactly the prefix.
  \<^item> CrowdSec: a poll reads exactly the decisions the reply encodes; the first one synchronises
    the entries that come from CrowdSec and touches no other.
  \<^item> Log and metrics: no line is lost or written twice in any interleaving with the worker, JSON
    lines are well formed whatever they contain, the metrics page carries every metric once.
  \<^item> Termination and bounds: the wait for etcd ends, the unit of \<open>formatBytes\<close> is in range, a DNS
    name of non-empty labels never makes the handler panic, buffers are never left.
  \<^item> Behaviour that differs from what the code means to do is stated as theorems too: a block that
    replaces an expired entry can be lost to the removal it started itself; IPv6 records are
    read back from etcd under a wrong text; the two watchers share one revision and can skip
    events; an expired network hides a live one; a DNS question about an IPv6 address finds only
    entries under the unshortened text; two requests about one address that overlap can leave
    memory and etcd apart; the log is never initialised.

  \<^bold>\<open>Choices.\<close>

  \<^item> An \<open>int64\<close> is an \<open>int\<close> that the program's arithmetic reduces with \<open>wrap64\<close>; bytes and
    \<open>uint32\<close> values are words. Strings are lists of bytes (\<open>char\<close>).
  \<^item> A handler is one step, as is one background removal, one key of the expiration worker, one
    CrowdSec reply and one line of a watch. In \<open>Concurrency\<close> a step is one request to etcd or one
    change of a table, which its mutex makes atomic in the program; there the operations that
    write are started at any moment, which covers the requests of all clients, the background
    removals, the worker and the bouncer, and leaves out the watchers, which run in the other
    mode. The reads at the start of an operation are one step with its start.
  \<^item> Clock readings are inputs: the \<open>i\<close>-th reading of a handler is \<open>clk i\<close>, with no assumption on
    their order unless a theorem states one. A Go map is an association list whose order is the
    order of a \<open>range\<close> loop; theorems hold for every order.
  \<^item> Loops that run forever (the worker, both watches, the poll) are folds over the list of inputs
    they receive, of any length. Fuel appears twice: the JSON parser has \<open>json_fuel\<close>, and
    \<open>JsonRoundTrip\<close> proves that more fuel never changes the result on any text; the loop of
    \<open>ParseDuration\<close> has the length of its text, and \<open>TimeProps\<close> proves the same of it.
    \<open>waitForEtcd\<close>, \<open>formatBytes\<close>, the scanner of lines and the string decoder have termination
    proofs.
  \<^item> Code outside the repository is a parameter: the DNS library (a record of its functions, with
    named hypotheses where a theorem needs one), the readings of \<open>runtime/metrics\<close>, the answers
    of system calls and of \<open>ListenAndServe\<close>, the replies of etcd and of CrowdSec.

  \<^bold>\<open>Interfaces.\<close> \<open>keyed_store\<close> (\<open>Store\<close>) is the contract of both tables, interpreted in \<open>IpTable\<close> and
  \<open>CidrTable\<close>; \<open>step_order\<close> (\<open>Store\<close>) the contract of the workers that run over a list of items,
  interpreted for what each of them keeps; \<open>typed_store\<close> (\<open>Typed\<close>) the contract of a decoder of one
  struct, interpreted for every struct the etcd client decodes into the tables.

  \<^bold>\<open>Not modelled.\<close> The transport of HTTP and DNS and the handlers of \<open>net/http/pprof\<close>; the text of
  floating point metrics (a parameter); waiting (\<open>time.Sleep\<close>); the interface of structured
  logging beyond the lines it writes; \<open>fileExists\<close>, which nothing calls; the Go tests in
  \<open>helpers_test.go\<close>.
\<close>

end
